(* ===== verification/Prelude.thy ===== *)
theory Prelude
  imports Main "HOL-Library.Code_Target_Nat" "HOL-Library.AList" "HOL-Library.Char_ord" "HOL-Library.List_Lexorder"
begin

text \<open>
  Shared vocabulary of the development. The scripts under
  \<open>src/plugins/codexmax-orchestrator/scripts\<close> exchange JSON documents, so the values they
  handle are modelled by one datatype \<open>json\<close> with the operations the scripts use on it
  (\<open>isinstance\<close> tests, dictionary lookup and update, \<open>==\<close>, membership in a set of
  strings). A function that can raise returns \<open>exn + 'a\<close>.

  Conventions. A Python \<open>str\<close> is its UTF-8 encoding, a list of bytes (\<open>char\<close>): the
  bytewise order is the code point order Python sorts by. A \<open>dict\<close> is an association
  list in insertion order with distinct keys. A finite \<open>float\<close> is the dyadic rational
  \<open>m / 2^k\<close> together with the text of its \<open>repr\<close>; the non-standard JSON constants
  \<open>NaN\<close> and \<open>Infinity\<close> are outside the model.
\<close>

section \<open>JSON values\<close>

datatype json =
    JNull
  | JBool bool
  | JInt int
  | JFloat int nat string
  | JStr string
  | JList "json list"
  | JObj "(string \<times> json) list"

subsection \<open>Type tests\<close>

definition is_obj :: "json \<Rightarrow> bool" where
  "is_obj v = (case v of JObj _ \<Rightarrow> True | _ \<Rightarrow> False)"

definition is_list :: "json \<Rightarrow> bool" where
  "is_list v = (case v of JList _ \<Rightarrow> True | _ \<Rightarrow> False)"

definition is_str :: "json \<Rightarrow> bool" where
  "is_str v = (case v of JStr _ \<Rightarrow> True | _ \<Rightarrow> False)"

text \<open>\<open>isinstance(v, int) and not isinstance(v, bool)\<close>\<close>

definition is_int :: "json \<Rightarrow> bool" where
  "is_int v = (case v of JInt _ \<Rightarrow> True | _ \<Rightarrow> False)"

definition is_bool :: "json \<Rightarrow> bool" where
  "is_bool v = (case v of JBool _ \<Rightarrow> True | _ \<Rightarrow> False)"

text \<open>Lists and dictionaries cannot be put in a set or used as a key.\<close>

definition hashable :: "json \<Rightarrow> bool" where
  "hashable v = (\<not> is_list v \<and> \<not> is_obj v)"

definition the_str :: "json \<Rightarrow> string" where
  "the_str v = (case v of JStr s \<Rightarrow> s | _ \<Rightarrow> [])"

definition the_int :: "json \<Rightarrow> int" where
  "the_int v = (case v of JInt i \<Rightarrow> i | _ \<Rightarrow> 0)"

definition the_list :: "json \<Rightarrow> json list" where
  "the_list v = (case v of JList xs \<Rightarrow> xs | _ \<Rightarrow> [])"

definition the_obj :: "json \<Rightarrow> (string \<times> json) list" where
  "the_obj v = (case v of JObj kvs \<Rightarrow> kvs | _ \<Rightarrow> [])"

lemmas json_sel_defs = is_obj_def is_list_def is_str_def is_int_def is_bool_def hashable_def
  the_str_def the_int_def the_list_def the_obj_def

lemma json_tests [simp]:
  "is_obj (JObj kvs)" "\<not> is_obj JNull" "\<not> is_obj (JBool b)" "\<not> is_obj (JInt i)"
  "\<not> is_obj (JFloat m k r)" "\<not> is_obj (JStr s)" "\<not> is_obj (JList xs)"
  "is_list (JList xs)" "\<not> is_list JNull" "\<not> is_list (JBool b)" "\<not> is_list (JInt i)"
  "\<not> is_list (JFloat m k r)" "\<not> is_list (JStr s)" "\<not> is_list (JObj kvs)"
  "is_str (JStr s)" "\<not> is_str JNull" "\<not> is_str (JBool b)" "\<not> is_str (JInt i)"
  "\<not> is_str (JFloat m k r)" "\<not> is_str (JList xs)" "\<not> is_str (JObj kvs)"
  "is_int (JInt i)" "\<not> is_int JNull" "\<not> is_int (JBool b)" "\<not> is_int (JStr s)"
  "\<not> is_int (JFloat m k r)" "\<not> is_int (JList xs)" "\<not> is_int (JObj kvs)"
  "is_bool (JBool b)" "\<not> is_bool JNull" "\<not> is_bool (JInt i)" "\<not> is_bool (JStr s)"
  "\<not> is_bool (JFloat m k r)" "\<not> is_bool (JList xs)" "\<not> is_bool (JObj kvs)"
  by (simp_all add: json_sel_defs)

lemma json_sels [simp]:
  "the_str (JStr s) = s" "the_int (JInt i) = i" "the_list (JList xs) = xs"
  "the_obj (JObj kvs) = kvs"
  by (simp_all add: json_sel_defs)

lemma is_objE: "is_obj v \<Longrightarrow> (\<And>kvs. v = JObj kvs \<Longrightarrow> P) \<Longrightarrow> P"
  by (cases v) simp_all

lemma is_listE: "is_list v \<Longrightarrow> (\<And>xs. v = JList xs \<Longrightarrow> P) \<Longrightarrow> P"
  by (cases v) simp_all

lemma is_strE: "is_str v \<Longrightarrow> (\<And>s. v = JStr s \<Longrightarrow> P) \<Longrightarrow> P"
  by (cases v) simp_all

lemma is_intE: "is_int v \<Longrightarrow> (\<And>i. v = JInt i \<Longrightarrow> P) \<Longrightarrow> P"
  by (cases v) simp_all

lemma hashable_JStr [simp]: "hashable (JStr s)"
  by (simp add: hashable_def)

subsection \<open>Dictionaries\<close>

definition get :: "json \<Rightarrow> string \<Rightarrow> json option" where
  "get v k = map_of (the_obj v) k"

text \<open>
  \<open>v.get(k)\<close>, which is \<open>None\<close> for a missing key; it is also the model of \<open>v[k]\<close> at
  the places where an earlier check of the same function has established the key.
\<close>

definition fld :: "json \<Rightarrow> string \<Rightarrow> json" where
  "fld v k = (case get v k of None \<Rightarrow> JNull | Some x \<Rightarrow> x)"

definition has_key :: "json \<Rightarrow> string \<Rightarrow> bool" where
  "has_key v k = (get v k \<noteq> None)"

definition keys :: "json \<Rightarrow> string list" where
  "keys v = map fst (the_obj v)"

text \<open>\<open>isinstance(v, dict) and set(v) == K\<close>\<close>

definition keys_are :: "json \<Rightarrow> string list \<Rightarrow> bool" where
  "keys_are v K = (is_obj v \<and> list_all (\<lambda>k. k \<in> set K) (keys v) \<and>
     list_all (\<lambda>k. k \<in> set (keys v)) K)"

text \<open>\<open>v[k] = x\<close> and \<open>v.pop(k)\<close> on a copy of \<open>v\<close>\<close>

definition upd :: "string \<Rightarrow> json \<Rightarrow> json \<Rightarrow> json" where
  "upd k x v = JObj (AList.update k x (the_obj v))"

definition pop :: "string \<Rightarrow> json \<Rightarrow> json" where
  "pop k v = JObj (AList.delete k (the_obj v))"

lemma keys_are_iff: "keys_are v K \<longleftrightarrow> is_obj v \<and> set (keys v) = set K"
  by (auto simp: keys_are_def list_all_iff)

lemma has_key_iff: "has_key v k \<longleftrightarrow> k \<in> set (keys v)"
  by (auto simp: has_key_def get_def keys_def map_of_eq_None_iff)

lemma keys_are_has_key: "keys_are v K \<Longrightarrow> has_key v k \<longleftrightarrow> k \<in> set K"
  by (simp add: keys_are_iff has_key_iff)

lemma is_obj_upd [simp]: "is_obj (upd k x v)"
  by (simp add: upd_def)

lemma is_obj_pop [simp]: "is_obj (pop k v)"
  by (simp add: pop_def)

lemma get_upd: "get (upd k x v) k' = (if k' = k then Some x else get v k')"
  by (simp add: get_def upd_def update_conv)

lemma fld_upd: "fld (upd k x v) k' = (if k' = k then x else fld v k')"
  by (simp add: fld_def get_upd)

lemma set_keys_upd: "set (keys (upd k x v)) = insert k (set (keys v))"
  by (simp add: keys_def upd_def dom_update)

lemma keys_are_upd: "keys_are v K \<Longrightarrow> k \<in> set K \<Longrightarrow> keys_are (upd k x v) K"
  by (auto simp: keys_are_iff set_keys_upd)

lemma get_pop: "get (pop k v) k' = (if k' = k then None else get v k')"
  by (simp add: get_def pop_def delete_conv)

lemma fld_JObj_Cons: "fld (JObj ((k, x) # kvs)) k' = (if k' = k then x else fld (JObj kvs) k')"
  by (simp add: fld_def get_def)

lemma fld_JObj_Nil: "fld (JObj []) k = JNull"
  by (simp add: fld_def get_def)

lemma fld_fields: "fld (JObj (map (\<lambda>f. (f, g f)) F)) k = (if k \<in> set F then g k else JNull)"
  by (induction F) (auto simp: fld_JObj_Nil fld_JObj_Cons)

subsection \<open>Equality\<close>

text \<open>
  Python's \<open>==\<close> identifies \<open>True\<close>, \<open>1\<close> and \<open>1.0\<close>, and ignores the order of
  dictionary entries. Two values are equal exactly when their normal forms are: booleans
  and integral floats become integers, floats are reduced, entries are sorted by key.
\<close>

fun reduce_float :: "int \<Rightarrow> nat \<Rightarrow> int \<times> nat" where
  "reduce_float m 0 = (m, 0)"
| "reduce_float m (Suc k) = (if even m then reduce_float (m div 2) k else (m, Suc k))"

definition norm_float :: "int \<Rightarrow> nat \<Rightarrow> json" where
  "norm_float m k = (case reduce_float m k of (m', k') \<Rightarrow>
     if k' = 0 then JInt m' else JFloat m' k' [])"

function norm :: "json \<Rightarrow> json" where
  "norm JNull = JNull"
| "norm (JBool b) = JInt (if b then 1 else 0)"
| "norm (JInt i) = JInt i"
| "norm (JFloat m k r) = norm_float m k"
| "norm (JStr s) = JStr s"
| "norm (JList xs) = JList (map norm xs)"
| "norm (JObj kvs) = JObj (sort_key fst (map (\<lambda>kv. (fst kv, norm (snd kv))) kvs))"
  by pat_completeness auto
termination
proof (relation "measure size", goal_cases)
  case (3 kvs kv)
  then have "size (snd kv) \<le> size_list (size_prod (\<lambda>_. 0) size) kvs"
    by (rule size_list_estimation') (simp add: size_prod_simp)
  then show ?case by simp
qed (auto simp: less_Suc_eq_le intro: size_list_estimation')

definition py_eq :: "json \<Rightarrow> json \<Rightarrow> bool" where
  "py_eq v w = (norm v = norm w)"

lemma py_eq_refl [simp]: "py_eq v v"
  by (simp add: py_eq_def)

lemma py_eq_sym: "py_eq v w \<longleftrightarrow> py_eq w v"
  by (auto simp: py_eq_def)

lemma py_eq_trans: "py_eq u v \<Longrightarrow> py_eq v w \<Longrightarrow> py_eq u w"
  by (simp add: py_eq_def)

lemma norm_float_neq [simp]:
  "norm_float m k \<noteq> JStr s" "norm_float m k \<noteq> JNull" "norm_float m k \<noteq> JBool b"
  "norm_float m k \<noteq> JList xs" "norm_float m k \<noteq> JObj kvs"
  "JStr s \<noteq> norm_float m k" "JNull \<noteq> norm_float m k" "JBool b \<noteq> norm_float m k"
  "JList xs \<noteq> norm_float m k" "JObj kvs \<noteq> norm_float m k"
  by (auto simp: norm_float_def split: prod.splits)

lemma py_eq_JStr [simp]: "py_eq (JStr s) v \<longleftrightarrow> v = JStr s" "py_eq v (JStr s) \<longleftrightarrow> v = JStr s"
  by (cases v; auto simp: py_eq_def)+

lemma py_eq_JNull [simp]: "py_eq JNull v \<longleftrightarrow> v = JNull" "py_eq v JNull \<longleftrightarrow> v = JNull"
  by (cases v; auto simp: py_eq_def)+

lemma py_eq_JInt [simp]: "py_eq (JInt i) (JInt j) \<longleftrightarrow> i = j"
  by (simp add: py_eq_def)

end
