(* ===== verification/Effects.thy ===== *)
theory Effects
  imports Prelude
begin

text \<open>
  Exceptions and loops. Each script defines one exception class carrying a stable code;
  they are constructors of \<open>exn\<close> next to the interpreter's own exceptions, which a script
  lets escape where it indexes, hashes or adds outside its checks. A computation that may
  raise has type \<open>'a result\<close>; \<open>bind\<close> is sequencing, \<open>foldR\<close> a loop that carries a state,
  \<open>eachR\<close> a loop run for its checks, \<open>mapR\<close> a list comprehension.
\<close>

datatype exn =
    DependencyError string "json option"
  | LedgerError string string
  | ScheduleError string string
  | PreflightBrokerError string
  | FabricError string string
  | UpdateError string
  | ActivityError string
  | NotesError string
  | KeyError
  | TypeError
  | AttributeError
  | OverflowError
  | AssertionError
  | RecursionError
  | ValueError
  | JSONDecodeError
  | UnicodeDecodeError

type_synonym 'a result = "exn + 'a"

named_theorems result_simps "rewriting a successful computation into the facts it established"

fun bind :: "'a result \<Rightarrow> ('a \<Rightarrow> 'b result) \<Rightarrow> 'b result" where
  "bind (Inl e) f = Inl e"
| "bind (Inr x) f = f x"

definition guard :: "bool \<Rightarrow> exn \<Rightarrow> unit result" where
  "guard b e = (if b then Inr () else Inl e)"

fun foldR :: "('s \<Rightarrow> 'a \<Rightarrow> 's result) \<Rightarrow> 's \<Rightarrow> 'a list \<Rightarrow> 's result" where
  "foldR f s [] = Inr s"
| "foldR f s (x # xs) = bind (f s x) (\<lambda>s'. foldR f s' xs)"

fun eachR :: "('a \<Rightarrow> 'b result) \<Rightarrow> 'a list \<Rightarrow> unit result" where
  "eachR f [] = Inr ()"
| "eachR f (x # xs) = bind (f x) (\<lambda>_. eachR f xs)"

fun mapR :: "('a \<Rightarrow> 'b result) \<Rightarrow> 'a list \<Rightarrow> 'b list result" where
  "mapR f [] = Inr []"
| "mapR f (x # xs) = bind (f x) (\<lambda>y. bind (mapR f xs) (\<lambda>ys. Inr (y # ys)))"

text \<open>\<open>v[k]\<close> on a value of unknown shape\<close>

definition item_at :: "json \<Rightarrow> string \<Rightarrow> json result" where
  "item_at v k = (if \<not> is_obj v then Inl TypeError
     else case get v k of None \<Rightarrow> Inl KeyError | Some x \<Rightarrow> Inr x)"

section \<open>Reading a result\<close>

lemma if_raise_eq_Inr [result_simps]:
  "((if b then Inl e else r) = Inr y) \<longleftrightarrow> \<not> b \<and> r = Inr y"
  by auto

lemma if_else_raise_eq_Inr [result_simps]:
  "((if b then r else Inl e) = Inr y) \<longleftrightarrow> b \<and> r = Inr y"
  by auto

lemma bind_eq_Inr [result_simps]: "bind m f = Inr y \<longleftrightarrow> (\<exists>x. m = Inr x \<and> f x = Inr y)"
  by (cases m) auto

lemma bind_eq_Inl: "bind m f = Inl e \<longleftrightarrow> m = Inl e \<or> (\<exists>x. m = Inr x \<and> f x = Inl e)"
  by (cases m) auto

lemma guard_eq_Inr [result_simps]: "guard b e = Inr u \<longleftrightarrow> b"
  by (simp add: guard_def)

lemma item_at_eq_Inr [result_simps]: "item_at v k = Inr x \<longleftrightarrow> is_obj v \<and> get v k = Some x"
  by (auto simp: item_at_def split: option.splits)

text \<open>The same as eliminations, for a long chain of checks\<close>

lemma bindE: "bind m f = Inr y \<Longrightarrow> (\<And>x. m = Inr x \<Longrightarrow> f x = Inr y \<Longrightarrow> P) \<Longrightarrow> P"
  by (cases m) simp_all

lemma raiseE: "(if b then Inl e else r) = Inr y \<Longrightarrow> (\<not> b \<Longrightarrow> r = Inr y \<Longrightarrow> P) \<Longrightarrow> P"
  by (cases b) simp_all

lemma noneE: "(case x of Some f \<Rightarrow> Inl (e f) | None \<Rightarrow> r) = Inr y \<Longrightarrow> (x = None \<Longrightarrow> r = Inr y \<Longrightarrow> P) \<Longrightarrow> P"
  by (cases x) simp_all

lemma InrE: "Inr x = Inr y \<Longrightarrow> (y = x \<Longrightarrow> P) \<Longrightarrow> P"
  by simp

lemma bind_assoc: "bind (bind m f) g = bind m (\<lambda>x. bind (f x) g)"
  by (cases m) auto

lemma foldR_append: "foldR f s (xs @ ys) = bind (foldR f s xs) (\<lambda>s'. foldR f s' ys)"
  by (induction xs arbitrary: s) (auto simp: bind_assoc)

lemma foldR_snoc_Inr [result_simps]:
  "foldR f s (xs @ [x]) = Inr s' \<longleftrightarrow> (\<exists>t. foldR f s xs = Inr t \<and> f t x = Inr s')"
  by (simp add: foldR_append bind_eq_Inr)

lemma foldR_invariant:
  assumes "foldR f s xs = Inr s'" "P s"
    and "\<And>t x t'. x \<in> set xs \<Longrightarrow> P t \<Longrightarrow> f t x = Inr t' \<Longrightarrow> P t'"
  shows "P s'"
  using assms by (induction xs arbitrary: s) (auto simp: bind_eq_Inr)

text \<open>The same with the prefix already processed as part of the invariant.\<close>

lemma foldR_invariant_from:
  assumes "foldR f s ys = Inr s'" "P pre s"
    and "\<And>p x q t t'. pre @ ys = p @ x # q \<Longrightarrow> P p t \<Longrightarrow> f t x = Inr t' \<Longrightarrow> P (p @ [x]) t'"
  shows "P (pre @ ys) s'"
  using assms
proof (induction ys arbitrary: pre s)
  case Nil
  then show ?case by simp
next
  case (Cons x xs)
  from Cons.prems(1) obtain t where t: "f s x = Inr t" "foldR f t xs = Inr s'"
    by (auto simp: bind_eq_Inr)
  have "P (pre @ [x]) t"
    using Cons.prems(2) t(1) by (rule Cons.prems(3)[rotated]) simp
  then have "P ((pre @ [x]) @ xs) s'"
    by (rule Cons.IH[OF t(2)]) (use Cons.prems(3) in auto)
  then show ?case by simp
qed

lemma foldR_invariant_idx:
  assumes "foldR f s xs = Inr s'" "P [] s"
    and "\<And>p x q t t'. xs = p @ x # q \<Longrightarrow> P p t \<Longrightarrow> f t x = Inr t' \<Longrightarrow> P (p @ [x]) t'"
  shows "P xs s'"
  using foldR_invariant_from[of f s xs s' P "[]"] assms by simp

lemma eachR_eq_Inr [result_simps]: "eachR f xs = Inr u \<longleftrightarrow> (\<forall>x\<in>set xs. \<exists>y. f x = Inr y)"
  by (induction xs) (auto simp: bind_eq_Inr)

lemma mapR_eq_Inr: "mapR f xs = Inr ys \<longleftrightarrow> list_all2 (\<lambda>x y. f x = Inr y) xs ys"
  by (induction xs arbitrary: ys) (auto simp: bind_eq_Inr list_all2_Cons1)

lemma mapR_length: "mapR f xs = Inr ys \<Longrightarrow> length ys = length xs"
  by (simp add: mapR_eq_Inr list_all2_lengthD)

lemma mapR_source: "mapR f xs = Inr ys \<Longrightarrow> y \<in> set ys \<Longrightarrow> \<exists>x \<in> set xs. f x = Inr y"
  by (induction xs arbitrary: ys) (auto simp: bind_eq_Inr)

lemma eachR_map: "eachR f (map g xs) = eachR (\<lambda>x. f (g x)) xs"
  by (induction xs) simp_all

lemma mapR_map: "mapR f (map g xs) = mapR (\<lambda>x. f (g x)) xs"
  by (induction xs) simp_all

lemma foldR_map: "foldR f s (map g xs) = foldR (\<lambda>s x. f s (g x)) s xs"
  by (induction xs arbitrary: s) simp_all

end
