(* ===== verification/PyText.thy ===== *)
theory PyText
  imports Effects
begin

text \<open>
  The string operations the scripts use: white space and \<open>strip\<close>, prefixes, decimal
  printing, splitting at a separator, the shape of a SHA-256 digest, and Python's
  \<open>sorted\<close>, \<open>set\<close> and \<open>in\<close> on strings.
\<close>

section \<open>Characters and white space\<close>

definition code :: "char \<Rightarrow> int" where
  "code c = of_char c"

text \<open>
  The number of bytes of the white space character a UTF-8 text starts with (0 if none):
  exactly the characters \<open>str.strip\<close> removes.
\<close>

definition ws_len :: "string \<Rightarrow> nat" where
  "ws_len s = (case map code (take 3 s) of
      [] \<Rightarrow> 0
    | a # more \<Rightarrow>
        if (9 \<le> a \<and> a \<le> 13) \<or> (28 \<le> a \<and> a \<le> 32) then 1
        else (case more of
            [] \<Rightarrow> 0
          | b # more' \<Rightarrow>
              if a = 194 \<and> (b = 133 \<or> b = 160) then 2
              else (case more' of
                  [] \<Rightarrow> 0
                | c # _ \<Rightarrow>
                    if a = 225 \<and> b = 154 \<and> c = 128
                     \<or> a = 226 \<and> b = 128 \<and> (128 \<le> c \<and> c \<le> 138 \<or> c = 168 \<or> c = 169 \<or> c = 175)
                     \<or> a = 226 \<and> b = 129 \<and> c = 159
                     \<or> a = 227 \<and> b = 128 \<and> c = 128 then 3 else 0)))"

text \<open>\<open>not s.strip()\<close>\<close>

function blank :: "string \<Rightarrow> bool" where
  "blank s = (if s = [] then True
     else if ws_len s = 0 then False else blank (drop (ws_len s) s))"
  by pat_completeness auto
termination
  by (relation "measure length") auto

declare blank.simps [simp del]

lemma blank_Nil [simp]: "blank []"
  by (simp add: blank.simps)

text \<open>A text that starts with an ordinary ASCII character is not blank.\<close>

lemma not_blank_Cons [simp]: "ws_len (c # s) = 0 \<Longrightarrow> \<not> blank (c # s)"
  by (simp add: blank.simps)

lemma ws_len_printable [simp]: "33 \<le> code c \<Longrightarrow> code c < 128 \<Longrightarrow> ws_len (c # s) = 0"
  by (auto simp: ws_len_def split: list.splits)

text \<open>\<open>s != s.strip()\<close> for a nonempty text\<close>

definition unstripped :: "string \<Rightarrow> bool" where
  "unstripped s = (ws_len s \<noteq> 0 \<or>
     (\<exists>n\<in>set [1, 2, 3]. n \<le> length s \<and> ws_len (drop (length s - n) s) = n))"

text \<open>\<open>isinstance(v, str) and v.strip()\<close>\<close>

definition nonblank :: "json \<Rightarrow> bool" where
  "nonblank v = (is_str v \<and> \<not> blank (the_str v))"

lemma nonblank_JStr [simp]: "nonblank (JStr s) = (\<not> blank s)"
  by (simp add: nonblank_def)

lemma nonblankE: "nonblank v \<Longrightarrow> (\<And>s. v = JStr s \<Longrightarrow> \<not> blank s \<Longrightarrow> P) \<Longrightarrow> P"
  by (cases v) (auto simp: nonblank_def)

definition is_control :: "char \<Rightarrow> bool" where
  "is_control c = (code c < 32 \<or> code c = 127)"

section \<open>Prefixes and splitting\<close>

definition starts_with :: "string \<Rightarrow> string \<Rightarrow> bool" where
  "starts_with s p = (take (length p) s = p)"

definition ends_with :: "string \<Rightarrow> string \<Rightarrow> bool" where
  "ends_with s p = (length p \<le> length s \<and> drop (length s - length p) s = p)"

text \<open>\<open>s.removeprefix(p)\<close>\<close>

definition remove_prefix :: "string \<Rightarrow> string \<Rightarrow> string" where
  "remove_prefix p s = (if starts_with s p then drop (length p) s else s)"

text \<open>\<open>s.split(sep)\<close> for a one-character separator\<close>

fun split_on :: "char \<Rightarrow> string \<Rightarrow> string list" where
  "split_on sep [] = [[]]"
| "split_on sep (c # s) = (if c = sep then [] # split_on sep s
     else case split_on sep s of [] \<Rightarrow> [[c]] | w # ws \<Rightarrow> (c # w) # ws)"

text \<open>\<open>sep.join(parts)\<close>\<close>

fun join :: "string \<Rightarrow> string list \<Rightarrow> string" where
  "join sep [] = []"
| "join sep [w] = w"
| "join sep (w # ws) = w @ sep @ join sep ws"

lemma split_on_nonempty [simp]: "split_on sep s \<noteq> []"
  by (cases s) (auto split: list.splits)

lemma join_Cons: "ws \<noteq> [] \<Longrightarrow> join sep (w # ws) = w @ sep @ join sep ws"
  by (cases ws) simp_all

lemma join_split [simp]: "join [sep] (split_on sep s) = s"
proof (induction s)
  case (Cons c s)
  then show ?case
    by (cases "split_on sep s"; cases "tl (split_on sep s)") (auto simp: join_Cons)
qed simp

lemma split_on_no_sep: "w \<in> set (split_on sep s) \<Longrightarrow> sep \<notin> set w"
  by (induction s arbitrary: w) (auto split: list.splits if_splits)

lemma split_on_simple: "sep \<notin> set w \<Longrightarrow> split_on sep w = [w]"
  by (induction w) auto

lemma split_on_append: "sep \<notin> set w \<Longrightarrow> split_on sep (w @ sep # s) = w # split_on sep s"
  by (induction w) auto

lemma split_join [simp]:
  assumes "ws \<noteq> []" "\<forall>w\<in>set ws. sep \<notin> set w"
  shows "split_on sep (join [sep] ws) = ws"
  using assms
proof (induction ws)
  case (Cons w ws)
  then show ?case
    by (cases ws) (auto simp: split_on_simple split_on_append)
qed simp

lemma split_on_inj: "split_on sep s = split_on sep t \<Longrightarrow> s = t"
  by (metis join_split)

section \<open>Decimal printing\<close>

definition digit_char :: "int \<Rightarrow> char" where
  "digit_char n = char_of (48 + n)"

function dec :: "int \<Rightarrow> string" where
  "dec n = (if n < 10 then [digit_char n] else dec (n div 10) @ [digit_char (n mod 10)])"
  by pat_completeness auto
termination
  by (relation "measure nat") auto

declare dec.simps [simp del]

definition dec_int :: "int \<Rightarrow> string" where
  "dec_int i = (if i < 0 then CHR ''-'' # dec (- i) else dec i)"

text \<open>\<open>f"{path}[{index}]"\<close>\<close>

definition indexed :: "string \<Rightarrow> nat \<Rightarrow> string" where
  "indexed path i = path @ ''['' @ dec (int i) @ '']''"

text \<open>
  \<open>str(v)\<close> in a message: \<open>repr\<close> of nested strings quotes and escapes as CPython does for
  printable text.
\<close>

definition hex_digits :: string where
  "hex_digits = ''0123456789abcdef''"

definition hex2 :: "int \<Rightarrow> string" where
  "hex2 n = [hex_digits ! nat (n div 16), hex_digits ! nat (n mod 16)]"

definition repr_char :: "char \<Rightarrow> char \<Rightarrow> string" where
  "repr_char q c = (if c = q \<or> code c = 92 then [char_of (92::nat), c]
     else if code c = 10 then [char_of (92::nat), CHR ''n'']
     else if code c = 13 then [char_of (92::nat), CHR ''r'']
     else if code c = 9 then [char_of (92::nat), CHR ''t'']
     else if is_control c then [char_of (92::nat), CHR ''x''] @ hex2 (code c)
     else [c])"

definition repr_str :: "string \<Rightarrow> string" where
  "repr_str s = (let sq = char_of (39::nat); dq = char_of (34::nat);
     q = (if sq \<in> set s \<and> dq \<notin> set s then dq else sq)
     in q # concat (map (repr_char q) s) @ [q])"

function py_repr :: "json \<Rightarrow> string" where
  "py_repr JNull = ''None''"
| "py_repr (JBool b) = (if b then ''True'' else ''False'')"
| "py_repr (JInt i) = dec_int i"
| "py_repr (JFloat m k r) = r"
| "py_repr (JStr s) = repr_str s"
| "py_repr (JList xs) = ''['' @ join '', '' (map py_repr xs) @ '']''"
| "py_repr (JObj kvs) = ''{'' @
     join '', '' (map (\<lambda>kv. repr_str (fst kv) @ '': '' @ py_repr (snd kv)) kvs) @ ''}''"
  by pat_completeness auto
termination
proof (relation "measure size", goal_cases)
  case (3 kvs kv)
  then have "size (snd kv) \<le> size_list (size_prod (\<lambda>_. 0) size) kvs"
    by (rule size_list_estimation') (simp add: size_prod_simp)
  then show ?case by simp
qed (auto simp: less_Suc_eq_le intro: size_list_estimation')

definition py_str :: "json \<Rightarrow> string" where
  "py_str v = (case v of JStr s \<Rightarrow> s | _ \<Rightarrow> py_repr v)"

lemma py_str_JStr [simp]: "py_str (JStr s) = s"
  by (simp add: py_str_def)

section \<open>Digests\<close>

definition all_hex :: "string \<Rightarrow> bool" where
  "all_hex s = list_all (\<lambda>c. c \<in> set hex_digits) s"

text \<open>64 lowercase hexadecimal digits, as \<open>hashlib.sha256(...).hexdigest()\<close> returns\<close>

definition hex64 :: "string \<Rightarrow> bool" where
  "hex64 s = (length s = 64 \<and> all_hex s)"

definition sha_prefix :: string where
  "sha_prefix = ''sha256:''"

text \<open>the regular expression \<open>sha256:[0-9a-f]{64}\<close>\<close>

definition sha_text :: "string \<Rightarrow> bool" where
  "sha_text s = (starts_with s sha_prefix \<and> hex64 (drop 7 s))"

lemma sha_text_prefix [simp]: "sha_text (sha_prefix @ h) = hex64 h"
  by (simp add: sha_text_def sha_prefix_def starts_with_def)

section \<open>Sets of strings\<close>

text \<open>\<open>v in S\<close> for a hashable \<open>v\<close> and a set (or, for any \<open>v\<close>, a list) of strings\<close>

definition in_strs :: "json \<Rightarrow> string list \<Rightarrow> bool" where
  "in_strs v S = (case v of JStr s \<Rightarrow> s \<in> set S | _ \<Rightarrow> False)"

lemma in_strs_JStr [simp]: "in_strs (JStr s) S = (s \<in> set S)"
  by (simp add: in_strs_def)

lemma in_strsE: "in_strs v S \<Longrightarrow> (\<And>s. v = JStr s \<Longrightarrow> s \<in> set S \<Longrightarrow> P) \<Longrightarrow> P"
  by (cases v) (auto simp: in_strs_def)

text \<open>\<open>v in xs\<close> for a list \<open>xs\<close>\<close>

definition in_list :: "json \<Rightarrow> json list \<Rightarrow> bool" where
  "in_list v xs = list_ex (py_eq v) xs"

lemma in_list_JStr [simp]: "in_list (JStr s) xs \<longleftrightarrow> JStr s \<in> set xs"
  by (auto simp: in_list_def list_ex_iff)

text \<open>\<open>sorted(set(xs))\<close>\<close>

definition sorted_set :: "('a::linorder) list \<Rightarrow> 'a list" where
  "sorted_set xs = sort (remdups xs)"

lemma set_sorted_set [simp]: "set (sorted_set xs) = set xs"
  by (simp add: sorted_set_def)

lemma sorted_sorted_set [simp]: "sorted (sorted_set xs)"
  by (simp add: sorted_set_def)

lemma distinct_sorted_set [simp]: "distinct (sorted_set xs)"
  by (simp add: sorted_set_def)

lemma sorted_set_Nil_iff [simp]: "sorted_set xs = [] \<longleftrightarrow> xs = []"
  by (metis set_empty set_sorted_set)

text \<open>\<open>sorted(set(A) - set(B))\<close>\<close>

definition sorted_diff :: "('a::linorder) list \<Rightarrow> 'a list \<Rightarrow> 'a list" where
  "sorted_diff A B = sorted_set (filter (\<lambda>x. x \<notin> set B) A)"

lemma set_sorted_diff [simp]: "set (sorted_diff A B) = set A - set B"
  by (auto simp: sorted_diff_def)

lemma sorted_diff_Nil_iff: "sorted_diff A B = [] \<longleftrightarrow> set A \<subseteq> set B"
  by (auto simp: sorted_diff_def filter_empty_conv)

section \<open>Iteration\<close>

text \<open>The characters of a UTF-8 text, and iteration over a value of unknown type\<close>

fun characters :: "string \<Rightarrow> string list" where
  "characters [] = []"
| "characters (c # s) = (case characters s of
     [] \<Rightarrow> [[c]]
   | w # ws \<Rightarrow> if w \<noteq> [] \<and> 128 \<le> code (hd w) \<and> code (hd w) < 192 then (c # w) # ws else [c] # w # ws)"

definition py_iter :: "json \<Rightarrow> json list result" where
  "py_iter v = (case v of JList xs \<Rightarrow> Inr xs | JObj kvs \<Rightarrow> Inr (map (JStr \<circ> fst) kvs)
     | JStr s \<Rightarrow> Inr (map JStr (characters s)) | _ \<Rightarrow> Inl TypeError)"

section \<open>Numbers\<close>

definition num_value :: "json \<Rightarrow> (int \<times> nat) option" where
  "num_value v = (case v of JBool b \<Rightarrow> Some (if b then 1 else 0, 0) | JInt i \<Rightarrow> Some (i, 0)
     | JFloat m k r \<Rightarrow> Some (m, k) | _ \<Rightarrow> None)"

definition num_le :: "json \<Rightarrow> json \<Rightarrow> bool" where
  "num_le v w = (case (num_value v, num_value w) of
     (Some (m, k), Some (n, l)) \<Rightarrow> m * 2 ^ l \<le> n * 2 ^ k | _ \<Rightarrow> False)"

end
