(* ===== verification/WorkGraph.thy ===== *)
theory WorkGraph
  imports PyText
begin

text \<open>
  The WorkGraph document validator, \<open>scripts/workgraph.py\<close>. A document is untrusted JSON; the
  validator walks it once, collects messages in a list and reports \<open>valid\<close> when there are
  none. A \<open>_validate_x(value, path, errors)\<close> of the source that only appends is modelled by
  the list it appends; where the walk can raise (\<open>x in {...}\<close> on an unhashable \<open>x\<close>) the
  result is an \<open>exn\<close>. Iteration over a Python set, whose order is unspecified, follows the
  order the set is written in; the report sorts the messages, so the order does not matter.
\<close>

section \<open>Vocabulary\<close>

definition work_item_kinds :: "string list" where
  "work_item_kinds = [''goal'', ''checkpoint'', ''ticket'', ''task'', ''subtask'', ''test'',
     ''audit'', ''decision'']"

definition work_item_statuses :: "string list" where
  "work_item_statuses = [''queued'', ''active'', ''blocked'', ''ready_for_review'',
     ''candidate_complete'', ''needs_revision'', ''needs_reassignment'', ''needs_parent_repair'',
     ''waiting_external'']"

definition clarity_tiers :: "string list" where
  "clarity_tiers = [''direct'', ''bounded'', ''governed'']"

definition relationship_keys :: "string list" where
  "relationship_keys = [''parent_of'', ''blocked_by'', ''related_to'', ''produces'', ''consumes'']"

definition evidence_kinds_enum :: "string list" where
  "evidence_kinds_enum = [''artifact'', ''command_result'', ''receipt'', ''source_reference'']"

definition evidence_states :: "string list" where
  "evidence_states = [''expected'', ''observed'', ''validated'', ''rejected'']"

definition provenance_enum :: "string list" where
  "provenance_enum = [''unknown'', ''declared'', ''parent_assigned'', ''runtime_observed'',
     ''receipt_backed'']"

definition capability_provenance :: "string list" where
  "capability_provenance = [''unknown'', ''runtime_observed'', ''receipt_backed'']"

definition capability_keys :: "string list" where
  "capability_keys = [''filesystem'', ''browser'', ''command'', ''network'', ''connector'', ''billing'']"

definition root_keys :: "string list" where
  "root_keys = [''schema_version'', ''graph_id'', ''evidence'', ''work_items'']"

definition base_item_keys :: "string list" where
  "base_item_keys = [''id'', ''kind'', ''objective'', ''status'', ''clarity_tier'', ''scope'',
     ''done_condition'', ''validation'', ''relationships'', ''owner_role'', ''expected_artifacts'',
     ''retry_policy'', ''stop_rule'', ''identity'', ''authority'', ''provider_policy'',
     ''independent_verification'', ''receipts'', ''recovery'', ''parent_acceptance'']"

definition direct_required :: "string list" where
  "direct_required = [''id'', ''kind'', ''objective'', ''status'', ''clarity_tier'', ''scope'',
     ''done_condition'', ''validation'']"

definition bounded_required :: "string list" where
  "bounded_required = direct_required @ [''relationships'', ''owner_role'', ''expected_artifacts'',
     ''retry_policy'', ''stop_rule'']"

definition governed_required :: "string list" where
  "governed_required = bounded_required @ [''identity'', ''authority'', ''provider_policy'',
     ''independent_verification'', ''receipts'', ''recovery'', ''parent_acceptance'']"

definition evidence_keys :: "string list" where
  "evidence_keys = [''id'', ''kind'', ''locator'', ''digest'', ''state'', ''claim_ids'',
     ''authority_effect'', ''acceptance_effect'']"

definition identity_keys :: "string list" where
  "identity_keys = [''agent_name'', ''agent_id'', ''provider'', ''model'', ''route_id'', ''runtime'',
     ''billing'', ''source_access'', ''commands_executable'', ''token_usage'', ''cost'', ''capabilities'']"

section \<open>Field checks\<close>

definition strict_keys :: "json \<Rightarrow> string list \<Rightarrow> string list \<Rightarrow> string \<Rightarrow> string list" where
  "strict_keys value allowed required path =
     map (\<lambda>k. path @ '':unknown_field:'' @ k) (sorted_diff (keys value) allowed) @
     map (\<lambda>k. path @ '':missing_field:'' @ k) (sorted_diff required (keys value))"

definition check_string :: "json \<Rightarrow> string \<Rightarrow> string list option \<Rightarrow> string list" where
  "check_string value path enum =
     (if \<not> nonblank value then [path @ '':expected_nonempty_string'']
      else case enum of None \<Rightarrow> []
        | Some allowed \<Rightarrow> if the_str value \<notin> set allowed
            then [path @ '':unsupported_value:'' @ the_str value] else [])"

text \<open>the strings kept by \<open>_string_list\<close>, and its messages\<close>

definition string_entries :: "json \<Rightarrow> string list" where
  "string_entries value = map the_str (filter nonblank (the_list value))"

fun entry_errors :: "string \<Rightarrow> nat \<Rightarrow> json list \<Rightarrow> string list" where
  "entry_errors path i [] = []"
| "entry_errors path i (x # xs) =
     (if nonblank x then [] else [indexed path i @ '':expected_nonempty_string'']) @
     entry_errors path (Suc i) xs"

definition check_string_list :: "json \<Rightarrow> string \<Rightarrow> bool \<Rightarrow> string list" where
  "check_string_list value path nonempty =
     (if \<not> is_list value then [path @ '':expected_array'']
      else (if nonempty \<and> the_list value = [] then [path @ '':must_not_be_empty''] else []) @
        entry_errors path 0 (the_list value) @
        (if distinct (string_entries value) then [] else [path @ '':duplicate_value'']))"

definition validate_scope :: "json \<Rightarrow> string \<Rightarrow> string list" where
  "validate_scope value path =
     (if \<not> is_obj value then [path @ '':expected_object'']
      else strict_keys value [''read'', ''write''] [''read'', ''write''] path @
        check_string_list (fld value ''read'') (path @ ''.read'') False @
        check_string_list (fld value ''write'') (path @ ''.write'') False)"

definition check_fields :: "string list" where
  "check_fields = [''id'', ''kind'', ''instruction'', ''expected_result'']"

fun checks_loop :: "string \<Rightarrow> nat \<Rightarrow> string list \<Rightarrow> json list \<Rightarrow> string list" where
  "checks_loop path i seen [] = []"
| "checks_loop path i seen (entry # rest) = (let item_path = indexed path i in
     if \<not> is_obj entry then (item_path @ '':expected_object'') # checks_loop path (Suc i) seen rest
     else strict_keys entry check_fields check_fields item_path @
       concat (map (\<lambda>k. check_string (fld entry k) (item_path @ ''.'' @ k) None) check_fields) @
       (case fld entry ''id'' of
          JStr check_id \<Rightarrow> (if check_id \<in> set seen then [path @ '':duplicate_id:'' @ check_id] else []) @
            checks_loop path (Suc i) (check_id # seen) rest
        | _ \<Rightarrow> checks_loop path (Suc i) seen rest))"

definition validate_checks :: "json \<Rightarrow> string \<Rightarrow> string list" where
  "validate_checks value path =
     (if \<not> is_list value \<or> the_list value = [] then [path @ '':expected_nonempty_array'']
      else checks_loop path 0 [] (the_list value))"

text \<open>The dictionary of an item's relationships.\<close>

record rels =
  parent_of :: "string list"
  blocked_by :: "string list"
  related_to :: "string list"
  produces :: "string list"
  consumes :: "string list"

definition no_rels :: rels where
  "no_rels = \<lparr>parent_of = [], blocked_by = [], related_to = [], produces = [], consumes = []\<rparr>"

text \<open>\<open>_validate_relationships\<close> returns the five lists it could read.\<close>

definition relationships_of :: "json \<Rightarrow> rels" where
  "relationships_of value = (if \<not> is_obj value then no_rels
     else \<lparr>parent_of = string_entries (fld value ''parent_of''),
       blocked_by = string_entries (fld value ''blocked_by''),
       related_to = string_entries (fld value ''related_to''),
       produces = string_entries (fld value ''produces''),
       consumes = string_entries (fld value ''consumes'')\<rparr>)"

definition validate_relationships :: "json \<Rightarrow> string \<Rightarrow> string list \<times> rels" where
  "validate_relationships value path =
     (if \<not> is_obj value then [path @ '':expected_object'']
      else strict_keys value relationship_keys relationship_keys path @
        concat (map (\<lambda>k. check_string_list (fld value k) (path @ ''.'' @ k) False) relationship_keys),
      relationships_of value)"

definition positive_int :: "json \<Rightarrow> bool" where
  "positive_int v = (is_int v \<and> 1 \<le> the_int v)"

definition validate_retry :: "json \<Rightarrow> string \<Rightarrow> string list" where
  "validate_retry value path = (let allowed = [''max_attempts'', ''no_improvement_window''] in
     if \<not> is_obj value then [path @ '':expected_object'']
     else strict_keys value allowed allowed path @
       concat (map (\<lambda>k. if positive_int (fld value k) then []
         else [path @ ''.'' @ k @ '':expected_positive_integer'']) allowed))"

definition evidence_digest_ok :: "json \<Rightarrow> bool" where
  "evidence_digest_ok d = (case d of
     JStr s \<Rightarrow> s = ''unknown'' \<or> starts_with s ''sha256:'' \<and> length s = 71 \<and> all_hex (drop 7 s)
   | _ \<Rightarrow> False)"

text \<open>messages, and the id and kind when they are strings\<close>

definition validate_evidence :: "json \<Rightarrow> string \<Rightarrow> string list \<times> string option \<times> string option" where
  "validate_evidence value path =
     (if \<not> is_obj value then ([path @ '':expected_object''], None, None)
      else (strict_keys value evidence_keys evidence_keys path @
          check_string (fld value ''id'') (path @ ''.id'') None @
          check_string (fld value ''kind'') (path @ ''.kind'') (Some evidence_kinds_enum) @
          check_string (fld value ''locator'') (path @ ''.locator'') None @
          (if evidence_digest_ok (fld value ''digest'') then []
           else [path @ ''.digest:expected_unknown_or_sha256'']) @
          check_string (fld value ''state'') (path @ ''.state'') (Some evidence_states) @
          (if fld value ''state'' = JStr ''validated'' \<and> fld value ''digest'' = JStr ''unknown''
           then [path @ ''.digest:validated_evidence_requires_sha256''] else []) @
          check_string_list (fld value ''claim_ids'') (path @ ''.claim_ids'') False @
          (if fld value ''authority_effect'' \<noteq> JStr ''none''
           then [path @ ''.authority_effect:must_be_none''] else []) @
          (if fld value ''acceptance_effect'' \<noteq> JStr ''none''
           then [path @ ''.acceptance_effect:must_be_none''] else []),
        (case fld value ''id'' of JStr s \<Rightarrow> Some s | _ \<Rightarrow> None),
        (case fld value ''kind'' of JStr s \<Rightarrow> Some s | _ \<Rightarrow> None)))"

subsection \<open>Identity facts\<close>

datatype fact_mode = PlainFact | Capability | Measurement | ObservedText

definition nonneg_number :: "json \<Rightarrow> bool" where
  "nonneg_number v = (case v of JInt i \<Rightarrow> 0 \<le> i | JFloat m k r \<Rightarrow> 0 \<le> m | _ \<Rightarrow> False)"

text \<open>
  \<open>_validate_fact\<close>. A capability value and an observed provenance are looked up in a set,
  which raises for a list or an object.
\<close>

definition validate_fact :: "fact_mode \<Rightarrow> json \<Rightarrow> string \<Rightarrow> string list result" where
  "validate_fact mode value path =
     (if \<not> is_obj value then Inr [path @ '':expected_object'']
      else let fact = fld value ''value''; provenance = fld value ''provenance'';
        observed = (mode \<noteq> PlainFact); unknown = JStr ''unknown'' in
      if mode = Capability \<and> \<not> hashable fact then Inl TypeError
      else if observed \<and> fact \<noteq> unknown \<and> \<not> hashable provenance then Inl TypeError
      else Inr (strict_keys value [''value'', ''provenance''] [''value'', ''provenance''] path @
        check_string provenance (path @ ''.provenance'')
          (Some (if observed then capability_provenance else provenance_enum)) @
        (case mode of
           Measurement \<Rightarrow> if fact \<noteq> unknown \<and> \<not> nonneg_number fact
             then [path @ ''.value:expected_unknown_or_nonnegative_number''] else []
         | Capability \<Rightarrow> if \<not> in_strs fact [''yes'', ''no'', ''unknown'']
             then [path @ ''.value:expected_yes_no_or_unknown''] else []
         | _ \<Rightarrow> if \<not> nonblank fact then [path @ ''.value:expected_nonempty_string''] else []) @
        (if fact = unknown \<and> provenance \<noteq> unknown
         then [path @ '':unknown_value_requires_unknown_provenance''] else []) @
        (if fact \<noteq> unknown \<and> provenance = unknown
         then [path @ '':known_value_requires_known_provenance''] else []) @
        (if observed \<and> fact \<noteq> unknown \<and> \<not> in_strs provenance [''runtime_observed'', ''receipt_backed'']
         then [path @ '':known_value_requires_observed_or_receipt_provenance''] else [])))"

text \<open>collecting the messages of a list of checks that may raise\<close>

fun gather :: "string list result list \<Rightarrow> string list result" where
  "gather [] = Inr []"
| "gather (r # rs) = bind r (\<lambda>es. bind (gather rs) (\<lambda>fs. Inr (es @ fs)))"

definition observed_text_keys :: "string list" where
  "observed_text_keys = [''runtime'', ''billing'', ''source_access'', ''commands_executable'']"

definition validate_identity :: "json \<Rightarrow> string \<Rightarrow> string list result" where
  "validate_identity value path =
     (if \<not> is_obj value then Inr [path @ '':expected_object'']
      else gather (
        [Inr (strict_keys value identity_keys identity_keys path)] @
        map (\<lambda>k. validate_fact PlainFact (fld value k) (path @ ''.'' @ k))
          (sorted_diff identity_keys ([''capabilities'', ''token_usage'', ''cost''] @ observed_text_keys)) @
        map (\<lambda>k. validate_fact ObservedText (fld value k) (path @ ''.'' @ k))
          (sorted_set observed_text_keys) @
        [validate_fact Measurement (fld value ''token_usage'') (path @ ''.token_usage''),
         validate_fact Measurement (fld value ''cost'') (path @ ''.cost'')] @
        (let capabilities = fld value ''capabilities''; cpath = path @ ''.capabilities'' in
         if \<not> is_obj capabilities then [Inr [cpath @ '':expected_object'']]
         else Inr (strict_keys capabilities capability_keys capability_keys cpath) #
           map (\<lambda>k. validate_fact Capability (fld capabilities k) (cpath @ ''.'' @ k))
             (sorted_set capability_keys))))"

subsection \<open>Authority, policy and recovery\<close>

definition authority_keys :: "string list" where
  "authority_keys = [''source'', ''receipt_id'', ''provenance'', ''write_scope'', ''forbidden_actions'',
     ''may_accept'', ''may_mutate_canonical_state'']"

definition validate_authority :: "json \<Rightarrow> string \<Rightarrow> string list" where
  "validate_authority value path =
     (if \<not> is_obj value then [path @ '':expected_object'']
      else let source = fld value ''source''; provenance = fld value ''provenance'' in
        strict_keys value authority_keys authority_keys path @
        check_string source (path @ ''.source'') None @
        check_string (fld value ''receipt_id'') (path @ ''.receipt_id'') None @
        check_string provenance (path @ ''.provenance'') (Some [''operator_issued'', ''parent_issued'']) @
        (case source of
           JStr s \<Rightarrow> (let prefix = (if provenance = JStr ''operator_issued'' then ''operator:'' else ''parent:'') in
             if \<not> starts_with s prefix \<or> length s = length prefix
             then [path @ ''.source:authority_provenance_mismatch''] else [])
         | _ \<Rightarrow> []) @
        check_string_list (fld value ''write_scope'') (path @ ''.write_scope'') False @
        check_string_list (fld value ''forbidden_actions'') (path @ ''.forbidden_actions'') True @
        (if fld value ''may_accept'' \<noteq> JBool False then [path @ ''.may_accept:must_be_false''] else []) @
        (if fld value ''may_mutate_canonical_state'' \<noteq> JBool False
         then [path @ ''.may_mutate_canonical_state:must_be_false''] else []))"

definition provider_policy_keys :: "string list" where
  "provider_policy_keys = [''source_access'', ''input_delivery'', ''commands_executable'', ''billing'',
     ''token_limit'', ''fallback'']"

definition validate_provider_policy :: "json \<Rightarrow> string \<Rightarrow> string list" where
  "validate_provider_policy value path =
     (if \<not> is_obj value then [path @ '':expected_object'']
      else strict_keys value provider_policy_keys provider_policy_keys path @
        check_string (fld value ''source_access'') (path @ ''.source_access'')
          (Some [''local_filesystem'', ''embedded_only'', ''connector_resource'', ''mixed'', ''none'',
             ''unknown'', ''unverified'']) @
        check_string (fld value ''input_delivery'') (path @ ''.input_delivery'')
          (Some [''paths_only'', ''embedded_fact_pack'', ''connector_references'', ''mixed'', ''none'',
             ''unknown'', ''unverified'']) @
        check_string (fld value ''commands_executable'') (path @ ''.commands_executable'')
          (Some [''yes'', ''no'', ''unknown'']) @
        check_string (fld value ''billing'') (path @ ''.billing'')
          (Some [''unknown'', ''local'', ''non_metered'', ''subscription'', ''metered'']) @
        check_string (fld value ''fallback'') (path @ ''.fallback'') None @
        (if fld value ''token_limit'' \<noteq> JNull \<and> \<not> positive_int (fld value ''token_limit'')
         then [path @ ''.token_limit:expected_null_or_positive_integer''] else []))"

definition validate_independent_verification :: "json \<Rightarrow> string \<Rightarrow> string list" where
  "validate_independent_verification value path =
     (if \<not> is_obj value then [path @ '':expected_object'']
      else strict_keys value [''required'', ''roles''] [''required'', ''roles''] path @
        (if fld value ''required'' \<noteq> JBool True then [path @ ''.required:must_be_true''] else []) @
        check_string_list (fld value ''roles'') (path @ ''.roles'') True @
        (if ''Tester'' \<notin> set (string_entries (fld value ''roles'')) \<and>
            ''Auditor'' \<notin> set (string_entries (fld value ''roles''))
         then [path @ ''.roles:tester_or_auditor_required''] else []))"

definition validate_recovery :: "json \<Rightarrow> string \<Rightarrow> string list" where
  "validate_recovery value path =
     (let allowed = [''preserve_failed_attempts'', ''preserve_changed_files'', ''on_failure'', ''max_attempts''] in
      if \<not> is_obj value then [path @ '':expected_object'']
      else strict_keys value allowed allowed path @
        concat (map (\<lambda>k. if fld value k \<noteq> JBool True then [path @ ''.'' @ k @ '':must_be_true''] else [])
          [''preserve_failed_attempts'', ''preserve_changed_files'']) @
        check_string (fld value ''on_failure'') (path @ ''.on_failure'')
          (Some [''revision'', ''reassignment'', ''parent_repair'']) @
        (if positive_int (fld value ''max_attempts'') then []
         else [path @ ''.max_attempts:expected_positive_integer'']))"

definition validate_parent_acceptance :: "json \<Rightarrow> string \<Rightarrow> string list" where
  "validate_parent_acceptance value path =
     (let allowed = [''required'', ''authority'', ''status''] in
      if \<not> is_obj value then [path @ '':expected_object'']
      else strict_keys value allowed allowed path @
        (if fld value ''required'' \<noteq> JBool True then [path @ ''.required:must_be_true''] else []) @
        (if fld value ''authority'' \<noteq> JStr ''Parent Codex''
         then [path @ ''.authority:must_be_parent_codex''] else []) @
        (if fld value ''status'' \<noteq> JStr ''pending'' then [path @ ''.status:must_be_pending''] else []))"

section \<open>Work items\<close>

text \<open>\<open>{...}.get(tier, DIRECT_REQUIRED)\<close>\<close>

definition tier_required :: "json \<Rightarrow> string list" where
  "tier_required tier = (if tier = JStr ''bounded'' then bounded_required
     else if tier = JStr ''governed'' then governed_required else direct_required)"

definition optional :: "json \<Rightarrow> string \<Rightarrow> (json \<Rightarrow> string list) \<Rightarrow> string list" where
  "optional obj key check = (if has_key obj key then check (fld obj key) else [])"

definition item_rels :: "json \<Rightarrow> rels" where
  "item_rels obj = (if has_key obj ''relationships'' then relationships_of (fld obj ''relationships'')
     else no_rels)"

definition validate_item :: "json \<Rightarrow> nat \<Rightarrow> (string list \<times> string option \<times> rels) result" where
  "validate_item value index = (let path = indexed ''work_items'' index in
     if \<not> is_obj value then Inr ([path @ '':expected_object''], None, no_rels)
     else let tier = fld value ''clarity_tier'' in
       if \<not> hashable tier then Inl TypeError
       else bind (gather [
         Inr (strict_keys value base_item_keys direct_required path),
         Inr (check_string tier (path @ ''.clarity_tier'') (Some clarity_tiers)),
         Inr (map (\<lambda>k. path @ '':tier_missing_field:'' @ py_str tier @ '':'' @ k)
           (sorted_diff (tier_required tier) (keys value))),
         Inr (check_string (fld value ''id'') (path @ ''.id'') None),
         Inr (check_string (fld value ''kind'') (path @ ''.kind'') (Some work_item_kinds)),
         Inr (check_string (fld value ''objective'') (path @ ''.objective'') None),
         Inr (check_string (fld value ''status'') (path @ ''.status'') (Some work_item_statuses)),
         Inr (check_string (fld value ''done_condition'') (path @ ''.done_condition'') None),
         Inr (validate_scope (fld value ''scope'') (path @ ''.scope'')),
         Inr (validate_checks (fld value ''validation'') (path @ ''.validation'')),
         Inr (optional value ''relationships'' (\<lambda>v. fst (validate_relationships v (path @ ''.relationships'')))),
         Inr (optional value ''owner_role'' (\<lambda>v. check_string v (path @ ''.owner_role'') None)),
         Inr (optional value ''expected_artifacts'' (\<lambda>v. check_string_list v (path @ ''.expected_artifacts'')
           (in_strs tier [''bounded'', ''governed'']))),
         Inr (optional value ''retry_policy'' (\<lambda>v. validate_retry v (path @ ''.retry_policy''))),
         Inr (optional value ''stop_rule'' (\<lambda>v. check_string v (path @ ''.stop_rule'') None)),
         (if has_key value ''identity'' then validate_identity (fld value ''identity'') (path @ ''.identity'')
          else Inr []),
         Inr (optional value ''authority'' (\<lambda>v. validate_authority v (path @ ''.authority''))),
         Inr (optional value ''provider_policy'' (\<lambda>v. validate_provider_policy v (path @ ''.provider_policy''))),
         Inr (optional value ''independent_verification''
           (\<lambda>v. validate_independent_verification v (path @ ''.independent_verification''))),
         Inr (optional value ''receipts'' (\<lambda>v. check_string_list v (path @ ''.receipts'') (tier = JStr ''governed''))),
         Inr (optional value ''recovery'' (\<lambda>v. validate_recovery v (path @ ''.recovery''))),
         Inr (optional value ''parent_acceptance'' (\<lambda>v. validate_parent_acceptance v (path @ ''.parent_acceptance'')))])
       (\<lambda>errors. Inr (errors,
          (case fld value ''id'' of JStr s \<Rightarrow> Some s | _ \<Rightarrow> None), item_rels value)))"

end
