(* ===== verification/WorkGraph_Cycles.thy ===== *)
theory WorkGraph_Cycles
  imports PyText
begin

text \<open>
  Cycle detection, \<open>_cycle_members\<close> of \<open>scripts/workgraph.py\<close>: a depth-first search that
  records the part of the stack from the first occurrence of a node met again. The nested
  \<open>visit\<close> recurses as deep as the graph has nodes; its depth is the fuel, and \<open>None\<close> is
  the interpreter giving up. One more than the number of nodes is always enough. The search
  is correct: it reports a node exactly when the relation has a cycle, and only nodes on one.
\<close>

type_synonym edges = "(string \<times> string list) list"

text \<open>\<open>edges.get(node, [])\<close>\<close>

definition succs :: "edges \<Rightarrow> string \<Rightarrow> string list" where
  "succs E node = (case map_of E node of None \<Rightarrow> [] | Some ts \<Rightarrow> ts)"

text \<open>\<open>target in edges\<close>\<close>

definition nodes :: "edges \<Rightarrow> string set" where
  "nodes E = set (map fst E)"

lemma finite_nodes [simp]: "finite (nodes E)"
  by (simp add: nodes_def)

lemma card_nodes: "card (nodes E) \<le> length E"
  by (metis card_length length_map nodes_def)

record dfs =
  visiting :: "string list"
  visited :: "string list"
  cyc :: "string list"

definition dfs_start :: dfs where
  "dfs_start = \<lparr>visiting = [], visited = [], cyc = []\<rparr>"

fun visit :: "edges \<Rightarrow> nat \<Rightarrow> string \<Rightarrow> string list \<Rightarrow> dfs \<Rightarrow> dfs option"
  and visit_targets :: "edges \<Rightarrow> nat \<Rightarrow> string list \<Rightarrow> string list \<Rightarrow> dfs \<Rightarrow> dfs option" where
  "visit E 0 node stack s = None"
| "visit E (Suc n) node stack s =
     (if node \<in> set (visiting s) then
        Some (s\<lparr>cyc := cyc s @ dropWhile (\<lambda>x. x \<noteq> node) stack\<rparr>)
      else if node \<in> set (visited s) then Some s
      else case visit_targets E n (succs E node) (stack @ [node]) (s\<lparr>visiting := node # visiting s\<rparr>) of
          None \<Rightarrow> None
        | Some t \<Rightarrow> Some (t\<lparr>visiting := remove1 node (visiting t), visited := node # visited t\<rparr>))"
| "visit_targets E n [] stack s = Some s"
| "visit_targets E n (t # ts) stack s =
     (if t \<in> nodes E then
        (case visit E n t stack s of None \<Rightarrow> None | Some s' \<Rightarrow> visit_targets E n ts stack s')
      else visit_targets E n ts stack s)"

definition cycle_members :: "edges \<Rightarrow> string list option" where
  "cycle_members E =
     map_option (\<lambda>s. sorted_set (cyc s))
       (visit_targets E (Suc (length E)) (sort (map fst E)) [] dfs_start)"

section \<open>The relation the search explores\<close>

definition edge_rel :: "edges \<Rightarrow> (string \<times> string) set" where
  "edge_rel E = {(a, b). b \<in> set (succs E a) \<and> b \<in> nodes E}"

lemma edge_rel_range: "(a, b) \<in> (edge_rel E)\<^sup>+ \<Longrightarrow> b \<in> nodes E"
  by (induction rule: trancl_induct) (auto simp: edge_rel_def)

section \<open>What the search leaves alone\<close>

definition extends :: "dfs \<Rightarrow> dfs \<Rightarrow> bool" where
  "extends s s' = (visiting s' = visiting s \<and> set (cyc s) \<subseteq> set (cyc s') \<and>
     set (visited s) \<subseteq> set (visited s'))"

lemma extends_refl [simp]: "extends s s"
  by (simp add: extends_def)

lemma extends_trans: "extends s t \<Longrightarrow> extends t u \<Longrightarrow> extends s u"
  by (auto simp: extends_def)

lemma visit_frame:
  "visit E n node stack s = Some s' \<Longrightarrow> extends s s'"
  "visit_targets E n ts stack s = Some s' \<Longrightarrow> extends s s'"
proof (induction E n node stack s and E n ts stack s arbitrary: s' and s' rule: visit_visit_targets.induct)
  case (2 E n node stack s)
  then show ?case
    by (auto simp: extends_def split: if_splits option.splits)
next
  case (4 E n t ts stack s)
  then show ?case
    by (auto split: if_splits option.splits intro: extends_trans)
qed auto

section \<open>The search returns\<close>

lemma visit_enough_fuel:
  "\<lbrakk>node \<in> nodes E; distinct (visiting s); set (visiting s) \<subseteq> nodes E;
    card (nodes E) < length (visiting s) + n\<rbrakk> \<Longrightarrow> visit E n node stack s \<noteq> None"
  "\<lbrakk>distinct (visiting s); set (visiting s) \<subseteq> nodes E;
    card (nodes E) < length (visiting s) + n\<rbrakk> \<Longrightarrow> visit_targets E n ts stack s \<noteq> None"
proof (induction E n node stack s and E n ts stack s rule: visit_visit_targets.induct)
  case (1 E node stack s)
  then have "length (visiting s) \<le> card (nodes E)"
    by (metis card_mono distinct_card finite_nodes)
  with 1 show ?case by simp
next
  case (2 E n node stack s)
  show ?case
  proof (cases "node \<in> set (visiting s) \<or> node \<in> set (visited s)")
    case False
    then have "visit_targets E n (succs E node) (stack @ [node]) (s\<lparr>visiting := node # visiting s\<rparr>) \<noteq> None"
      using "2.prems" by (intro "2.IH") simp_all
    with False show ?thesis by auto
  qed auto
next
  case (4 E n t ts stack s)
  show ?case
  proof (cases "t \<in> nodes E")
    case True
    with 4 obtain u where u: "visit E n t stack s = Some u" by auto
    then have "visiting u = visiting s" using visit_frame(1) by (auto simp: extends_def)
    then have "visit_targets E n ts stack u \<noteq> None"
      using "4.prems" by (intro "4.IH"(2)[OF True u]) simp_all
    with True u show ?thesis by simp
  next
    case False
    with 4 show ?thesis by simp
  qed
qed (auto split: option.splits)

section \<open>Reported nodes lie on cycles\<close>

definition on_cycles :: "edges \<Rightarrow> string list \<Rightarrow> bool" where
  "on_cycles E C = (\<forall>x\<in>set C. (x, x) \<in> (edge_rel E)\<^sup>+)"

definition path_stack :: "edges \<Rightarrow> string list \<Rightarrow> bool" where
  "path_stack E stack = successively (\<lambda>a b. (a, b) \<in> edge_rel E) stack"

lemma path_reaches:
  "path_stack E (x # p) \<Longrightarrow> y \<in> set (x # p) \<Longrightarrow>
   (x, y) \<in> (edge_rel E)\<^sup>* \<and> (y, last (x # p)) \<in> (edge_rel E)\<^sup>*"
proof (induction p arbitrary: x y)
  case Nil
  then show ?case by simp
next
  case (Cons z p)
  then have e: "(x, z) \<in> edge_rel E" and p: "path_stack E (z # p)"
    by (simp_all add: path_stack_def)
  show ?case
  proof (cases "y = x")
    case True
    with Cons.IH[OF p, of z] e show ?thesis
      by (auto intro: converse_rtrancl_into_rtrancl)
  next
    case False
    with Cons.prems(2) have "y \<in> set (z # p)" by simp
    from Cons.IH[OF p this] e show ?thesis
      by (auto intro: converse_rtrancl_into_rtrancl)
  qed
qed

lemma closed_stack_on_cycle:
  assumes "path_stack E stack" "(last stack, node) \<in> edge_rel E" "node \<in> set stack"
  shows "on_cycles E (dropWhile (\<lambda>x. x \<noteq> node) stack)"
proof -
  define d where "d = dropWhile (\<lambda>x. x \<noteq> node) stack"
  have ne: "d \<noteq> []" using assms(3) by (auto simp: d_def dropWhile_eq_Nil_conv)
  then have hd: "hd d = node" unfolding d_def by (metis (mono_tags) hd_dropWhile)
  then obtain p where d: "d = node # p" using ne by (cases d) auto
  have split: "stack = takeWhile (\<lambda>x. x \<noteq> node) stack @ d" by (simp add: d_def)
  then have "path_stack E d"
    using assms(1) unfolding path_stack_def by (metis successively_append_iff)
  moreover have "last d = last stack" using split ne by (metis last_appendR)
  ultimately have "(node, y) \<in> (edge_rel E)\<^sup>* \<and> (y, last stack) \<in> (edge_rel E)\<^sup>*" if "y \<in> set d" for y
    using path_reaches[of E node p y] that by (simp add: d)
  then have "(y, y) \<in> (edge_rel E)\<^sup>+" if "y \<in> set d" for y
    using that assms(2) by (meson rtrancl_into_trancl1 trancl_rtrancl_trancl)
  then show ?thesis by (simp add: on_cycles_def d_def)
qed

lemma visit_sound:
  "\<lbrakk>visit E n node stack s = Some s'; set (visiting s) = set stack; path_stack E stack;
    stack \<noteq> [] \<longrightarrow> (last stack, node) \<in> edge_rel E; on_cycles E (cyc s)\<rbrakk> \<Longrightarrow> on_cycles E (cyc s')"
  "\<lbrakk>visit_targets E n ts stack s = Some s'; set (visiting s) = set stack; path_stack E stack;
    stack \<noteq> [] \<longrightarrow> set ts \<subseteq> set (succs E (last stack)); on_cycles E (cyc s)\<rbrakk> \<Longrightarrow> on_cycles E (cyc s')"
proof (induction E n node stack s and E n ts stack s arbitrary: s' and s' rule: visit_visit_targets.induct)
  case (2 E n node stack s)
  show ?case
  proof (cases "node \<in> set (visiting s)")
    case True
    then have "on_cycles E (dropWhile (\<lambda>x. x \<noteq> node) stack)"
      using "2.prems" by (intro closed_stack_on_cycle) auto
    with True "2.prems" show ?thesis by (auto simp: on_cycles_def)
  next
    case False
    show ?thesis
    proof (cases "node \<in> set (visited s)")
      case True
      with False "2.prems" show ?thesis by simp
    next
      case unvisited: False
      with False "2.prems"(1) obtain t where
        t: "visit_targets E n (succs E node) (stack @ [node]) (s\<lparr>visiting := node # visiting s\<rparr>) = Some t"
        and s': "s' = t\<lparr>visiting := remove1 node (visiting t), visited := node # visited t\<rparr>"
        by (auto split: option.splits)
      have "path_stack E (stack @ [node])"
        using "2.prems" by (auto simp: path_stack_def successively_append_iff)
      then have "on_cycles E (cyc t)"
        using "2.prems" by (intro "2.IH"[OF False unvisited t]) auto
      with s' show ?thesis by simp
    qed
  qed
next
  case (4 E n t ts stack s)
  show ?case
  proof (cases "t \<in> nodes E")
    case True
    with "4.prems"(1) obtain u where u: "visit E n t stack s = Some u"
      and rest: "visit_targets E n ts stack u = Some s'"
      by (auto split: option.splits)
    have "stack \<noteq> [] \<longrightarrow> (last stack, t) \<in> edge_rel E"
      using "4.prems"(4) True by (auto simp: edge_rel_def)
    then have "on_cycles E (cyc u)"
      using "4.prems" by (intro "4.IH"(1)[OF True u]) auto
    then show ?thesis
      using "4.prems" visit_frame(1)[OF u, unfolded extends_def] by (intro "4.IH"(2)[OF True u rest]) auto
  next
    case False
    then have rest: "visit_targets E n ts stack s = Some s'" using "4.prems"(1) by simp
    show ?thesis
      using "4.prems"(4) by (intro "4.IH"(3)[OF False rest "4.prems"(2,3) _ "4.prems"(5)]) auto
  qed
qed auto

section \<open>No report means no cycle\<close>

fun topo :: "edges \<Rightarrow> string list \<Rightarrow> bool" where
  "topo E [] = True"
| "topo E (v # vs) = ((\<forall>w\<in>set (succs E v). w \<in> nodes E \<longrightarrow> w \<in> set vs) \<and> topo E vs)"

lemma topo_edge: "topo E vs \<Longrightarrow> a \<in> set vs \<Longrightarrow> (a, b) \<in> edge_rel E \<Longrightarrow> b \<in> set vs"
  by (induction vs) (auto simp: edge_rel_def)

lemma topo_closed: "(x, y) \<in> (edge_rel E)\<^sup>+ \<Longrightarrow> topo E vs \<Longrightarrow> x \<in> set vs \<Longrightarrow> y \<in> set vs"
  by (induction rule: trancl_induct) (auto dest: topo_edge)

lemma topo_acyclic: "topo E vs \<Longrightarrow> x \<in> set vs \<Longrightarrow> (x, x) \<notin> (edge_rel E)\<^sup>+"
proof (induction vs)
  case (Cons v vs)
  show ?case
  proof (cases "x \<in> set vs")
    case True
    with Cons show ?thesis by simp
  next
    case False
    with Cons.prems have xv: "x = v" by simp
    show ?thesis
    proof
      assume "(x, x) \<in> (edge_rel E)\<^sup>+"
      then obtain z where z: "(x, z) \<in> edge_rel E" "(z, x) \<in> (edge_rel E)\<^sup>*"
        by (metis tranclD)
      have "z \<in> set vs" using z(1) Cons.prems(1) xv by (auto simp: edge_rel_def)
      moreover have "topo E vs" using Cons.prems(1) by simp
      ultimately have "x \<in> set vs"
        using z(2) topo_closed by (metis rtranclD)
      with False show False by simp
    qed
  qed
qed simp

lemma visit_complete:
  "\<lbrakk>visit E n node stack s = Some s'; set (visiting s) = set stack; cyc s' = []; topo E (visited s)\<rbrakk> \<Longrightarrow>
     topo E (visited s') \<and> node \<in> set (visited s')"
  "\<lbrakk>visit_targets E n ts stack s = Some s'; set (visiting s) = set stack; cyc s' = []; topo E (visited s)\<rbrakk> \<Longrightarrow>
     topo E (visited s') \<and> (\<forall>t\<in>set ts. t \<in> nodes E \<longrightarrow> t \<in> set (visited s'))"
proof (induction E n node stack s and E n ts stack s arbitrary: s' and s' rule: visit_visit_targets.induct)
  case (2 E n node stack s)
  have nv: "node \<notin> set (visiting s)"
  proof
    assume "node \<in> set (visiting s)"
    with "2.prems"(1,3) have "dropWhile (\<lambda>x. x \<noteq> node) stack = []" by auto
    with "2.prems"(2) \<open>node \<in> set (visiting s)\<close> show False
      by (auto simp: dropWhile_eq_Nil_conv)
  qed
  show ?case
  proof (cases "node \<in> set (visited s)")
    case True
    with nv "2.prems" show ?thesis by simp
  next
    case False
    with nv "2.prems"(1) obtain t where
      t: "visit_targets E n (succs E node) (stack @ [node]) (s\<lparr>visiting := node # visiting s\<rparr>) = Some t"
      and s': "s' = t\<lparr>visiting := remove1 node (visiting t), visited := node # visited t\<rparr>"
      by (auto split: option.splits)
    have "topo E (visited t) \<and> (\<forall>w\<in>set (succs E node). w \<in> nodes E \<longrightarrow> w \<in> set (visited t))"
      using "2.prems" s' by (intro "2.IH"[OF nv False t]) auto
    with s' show ?thesis by simp
  qed
next
  case (4 E n t ts stack s)
  show ?case
  proof (cases "t \<in> nodes E")
    case True
    with "4.prems"(1) obtain u where u: "visit E n t stack s = Some u"
      and rest: "visit_targets E n ts stack u = Some s'"
      by (auto split: option.splits)
    have "cyc u = []" using visit_frame(2)[OF rest, unfolded extends_def] "4.prems"(3) by simp
    then have tu: "topo E (visited u) \<and> t \<in> set (visited u)"
      using "4.prems" by (intro "4.IH"(1)[OF True u]) auto
    then have "topo E (visited s') \<and> (\<forall>t\<in>set ts. t \<in> nodes E \<longrightarrow> t \<in> set (visited s'))"
      using "4.prems" visit_frame(1)[OF u, unfolded extends_def] by (intro "4.IH"(2)[OF True u rest]) auto
    with tu visit_frame(2)[OF rest, unfolded extends_def] show ?thesis by auto
  next
    case False
    with "4.prems" "4.IH"(3)[OF False] show ?thesis by auto
  qed
qed auto

section \<open>Correctness of the search\<close>

lemma cycle_members_run:
  obtains s where "visit_targets E (Suc (length E)) (sort (map fst E)) [] dfs_start = Some s"
    and "cycle_members E = Some (sorted_set (cyc s))"
proof -
  have "visit_targets E (Suc (length E)) (sort (map fst E)) [] dfs_start \<noteq> None"
    using card_nodes[of E] by (intro visit_enough_fuel(2)) (auto simp: dfs_start_def)
  then show ?thesis using that by (auto simp: cycle_members_def)
qed

lemma cycle_members_spec:
  "\<exists>C. cycle_members E = Some C \<and> (C = [] \<longleftrightarrow> acyclic (edge_rel E)) \<and> on_cycles E C"
proof -
  obtain s where s: "visit_targets E (Suc (length E)) (sort (map fst E)) [] dfs_start = Some s"
    and C: "cycle_members E = Some (sorted_set (cyc s))"
    by (rule cycle_members_run)
  have sound: "on_cycles E (cyc s)"
    by (rule visit_sound(2)[OF s]) (auto simp: dfs_start_def path_stack_def on_cycles_def)
  have complete: "acyclic (edge_rel E)" if "cyc s = []"
  proof -
    have "topo E (visited s) \<and> (\<forall>t\<in>set (sort (map fst E)). t \<in> nodes E \<longrightarrow> t \<in> set (visited s))"
      by (rule visit_complete(2)[OF s]) (auto simp: dfs_start_def that)
    then show ?thesis
      unfolding acyclic_def by (metis edge_rel_range nodes_def set_sort topo_acyclic)
  qed
  have "cyc s = []" if "acyclic (edge_rel E)"
    using sound that by (cases "cyc s") (auto simp: on_cycles_def acyclic_def)
  with complete have "sorted_set (cyc s) = [] \<longleftrightarrow> acyclic (edge_rel E)" by auto
  with C sound show ?thesis by (auto simp: on_cycles_def)
qed

end
