(* ===== verification/WorkGraph_Document.thy ===== *)
theory WorkGraph_Document
  imports WorkGraph WorkGraph_Cycles
begin

text \<open>
  \<open>validate_document\<close> of \<open>scripts/workgraph.py\<close>: the walk over the evidence and the work
  items, the checks between items (targets, reciprocity, cycles, single parents, references
  to evidence, write authority), and the report. \<open>relationships_by_id\<close> is a dictionary: a
  repeated id overwrites the entry and keeps its place.
\<close>

section \<open>Evidence and items\<close>

fun evidence_loop :: "nat \<Rightarrow> json list \<Rightarrow> string list \<Rightarrow> (string \<times> string) list \<Rightarrow>
    string list \<times> string list \<times> (string \<times> string) list" where
  "evidence_loop i [] ids kinds = ([], ids, kinds)"
| "evidence_loop i (e # es) ids kinds =
     (case validate_evidence e (indexed ''evidence'' i) of (errors, eid, kind) \<Rightarrow>
        (case eid of
           None \<Rightarrow> (case evidence_loop (Suc i) es ids kinds of (later, r) \<Rightarrow> (errors @ later, r))
         | Some x \<Rightarrow>
             (case evidence_loop (Suc i) es (ids @ [x])
                 (case kind of None \<Rightarrow> kinds | Some k \<Rightarrow> AList.update x k kinds) of
               (later, r) \<Rightarrow> (errors @
                 (if x \<in> set ids then [''document.evidence:duplicate_id:'' @ x] else []) @ later, r))))"

fun item_loop :: "nat \<Rightarrow> json list \<Rightarrow> string list \<Rightarrow> (string \<times> rels) list \<Rightarrow>
    (string list \<times> string list \<times> (string \<times> rels) list) result" where
  "item_loop i [] ids by_id = Inr ([], ids, by_id)"
| "item_loop i (x # xs) ids by_id =
     bind (validate_item x i) (\<lambda>(errors, iid, rel).
       case iid of
         None \<Rightarrow> bind (item_loop (Suc i) xs ids by_id) (\<lambda>(later, r). Inr (errors @ later, r))
       | Some a \<Rightarrow> bind (item_loop (Suc i) xs (ids @ [a]) (AList.update a rel by_id))
           (\<lambda>(later, r). Inr (errors @
             (if a \<in> set ids then [''document.work_items:duplicate_id:'' @ a] else []) @ later, r)))"

section \<open>Checks between items\<close>

definition target_errors :: "string list \<Rightarrow> string \<Rightarrow> string \<Rightarrow> string list \<Rightarrow> string list" where
  "target_errors known source relation targets =
     concat (map (\<lambda>t. if t = source then [''relationship:'' @ source @ '':'' @ relation @ '':self_reference'']
       else if t \<notin> set known
       then [''relationship:'' @ source @ '':'' @ relation @ '':missing_target:'' @ t] else []) targets)"

definition missing_evidence_errors :: "string list \<Rightarrow> string \<Rightarrow> string \<Rightarrow> string list \<Rightarrow> string list" where
  "missing_evidence_errors known_evidence source relation targets =
     map (\<lambda>t. ''relationship:'' @ source @ '':'' @ relation @ '':missing_evidence:'' @ t)
       (filter (\<lambda>t. t \<notin> set known_evidence) targets)"

definition relation_errors :: "string list \<Rightarrow> string list \<Rightarrow> (string \<times> rels) list \<Rightarrow> string \<times> rels \<Rightarrow> string list" where
  "relation_errors known known_evidence by_id entry = (case entry of (source, r) \<Rightarrow>
     target_errors known source ''parent_of'' (parent_of r) @
     target_errors known source ''blocked_by'' (blocked_by r) @
     target_errors known source ''related_to'' (related_to r) @
     missing_evidence_errors known_evidence source ''produces'' (produces r) @
     missing_evidence_errors known_evidence source ''consumes'' (consumes r) @
     map (\<lambda>t. ''relationship:'' @ source @ '':artifact_direction_conflict:'' @ t)
       (sorted_set (filter (\<lambda>t. t \<in> set (consumes r)) (produces r))) @
     map (\<lambda>t. ''relationship:'' @ source @ '':related_to:not_reciprocal:'' @ t)
       (filter (\<lambda>t. case map_of by_id t of None \<Rightarrow> False | Some q \<Rightarrow> source \<notin> set (related_to q))
         (related_to r)) @
     map (\<lambda>t. ''relationship:'' @ source @ '':parent_and_blocker_conflict:'' @ t)
       (remdups (filter (\<lambda>t. t \<in> set (blocked_by r)) (parent_of r))))"

definition edges_of :: "(rels \<Rightarrow> string list) \<Rightarrow> (string \<times> rels) list \<Rightarrow> edges" where
  "edges_of relation by_id = map (\<lambda>(source, r). (source, relation r)) by_id"

definition cycle_errors :: "string \<Rightarrow> edges \<Rightarrow> string list result" where
  "cycle_errors relation E = (case cycle_members E of None \<Rightarrow> Inl RecursionError
     | Some [] \<Rightarrow> Inr []
     | Some members \<Rightarrow> Inr [''relationship:'' @ relation @ '':cycle:'' @ join '','' members])"

definition multiple_parent_errors :: "edges \<Rightarrow> string list" where
  "multiple_parent_errors E = (let children = concat (map snd E) in
     map (\<lambda>t. ''relationship:parent_of:multiple_parents:'' @ t)
       (filter (\<lambda>t. 1 < count_list children t) (sorted_set children)))"

section \<open>References to evidence\<close>

text \<open>\<open>v in container\<close> where the type of the container is not known\<close>

definition py_contains :: "json \<Rightarrow> json \<Rightarrow> bool result" where
  "py_contains v container = (case container of
     JList xs \<Rightarrow> Inr (in_list v xs)
   | JObj kvs \<Rightarrow> if hashable v then Inr (in_strs v (map fst kvs)) else Inl TypeError
   | JStr s \<Rightarrow> (case v of JStr t \<Rightarrow> Inr (\<exists>n\<in>set [0..<Suc (length s)]. starts_with (drop n s) t)
       | _ \<Rightarrow> Inl TypeError)
   | _ \<Rightarrow> Inl TypeError)"

definition artifact_reference :: "string list \<Rightarrow> (string \<times> rels) list \<Rightarrow> string \<Rightarrow> json \<Rightarrow> string list result" where
  "artifact_reference known_evidence by_id item_id reference =
     (if \<not> hashable reference then Inl TypeError
      else if \<not> in_strs reference known_evidence
      then Inr [''work_item:'' @ item_id @ '':expected_artifact_missing:'' @ py_str reference]
      else if \<not> in_strs reference (case map_of by_id item_id of None \<Rightarrow> [] | Some r \<Rightarrow> produces r)
      then Inr [''work_item:'' @ item_id @ '':expected_artifact_not_produced:'' @ py_str reference]
      else Inr [])"

definition kind_is_receipt :: "(string \<times> string) list \<Rightarrow> json \<Rightarrow> bool" where
  "kind_is_receipt kinds reference = (map_of kinds (the_str reference) = Some ''receipt'')"

definition receipt_reference :: "string list \<Rightarrow> (string \<times> string) list \<Rightarrow> string \<Rightarrow> json \<Rightarrow> string list result" where
  "receipt_reference known_evidence kinds item_id reference =
     (if \<not> hashable reference then Inl TypeError
      else if \<not> in_strs reference known_evidence
      then Inr [''work_item:'' @ item_id @ '':receipt_missing:'' @ py_str reference]
      else if \<not> kind_is_receipt kinds reference
      then Inr [''work_item:'' @ item_id @ '':receipt_wrong_kind:'' @ py_str reference]
      else Inr [])"

definition authority_receipt_errors :: "string list \<Rightarrow> (string \<times> string) list \<Rightarrow> string \<Rightarrow> json \<Rightarrow> json \<Rightarrow> string list result" where
  "authority_receipt_errors known_evidence kinds item_id receipts receipt =
     (if \<not> hashable receipt then Inl TypeError
      else if \<not> in_strs receipt known_evidence
      then Inr [''work_item:'' @ item_id @ '':authority_receipt_missing:'' @ py_str receipt]
      else if \<not> kind_is_receipt kinds receipt
      then Inr [''work_item:'' @ item_id @ '':authority_receipt_wrong_kind:'' @ py_str receipt]
      else bind (py_contains receipt receipts) (\<lambda>declared. Inr (if declared then []
        else [''work_item:'' @ item_id @ '':authority_receipt_not_declared:'' @ py_str receipt])))"

definition write_authority_errors :: "string \<Rightarrow> json \<Rightarrow> json \<Rightarrow> string list" where
  "write_authority_errors item_id scope authority =
     (if is_obj scope \<and> is_list (fld scope ''write'') \<and> is_list (fld authority ''write_scope'')
      then map (\<lambda>w. ''work_item:'' @ item_id @ '':write_outside_authority:'' @ py_str w)
        (filter (\<lambda>w. \<not> in_list w (the_list (fld authority ''write_scope''))) (the_list (fld scope ''write'')))
      else [])"

text \<open>\<open>item.get(key, [])\<close>\<close>

definition get_or_empty :: "json \<Rightarrow> string \<Rightarrow> json" where
  "get_or_empty item key = (case get item key of None \<Rightarrow> JList [] | Some x \<Rightarrow> x)"

definition item_reference_errors :: "string list \<Rightarrow> (string \<times> string) list \<Rightarrow> (string \<times> rels) list \<Rightarrow> json \<Rightarrow> string list result" where
  "item_reference_errors known_evidence kinds by_id item =
     (if \<not> is_obj item then Inr []
      else case fld item ''id'' of
        JStr item_id \<Rightarrow> (let expected = get_or_empty item ''expected_artifacts'';
            receipts = get_or_empty item ''receipts''; authority = fld item ''authority'' in
          gather (
            map (artifact_reference known_evidence by_id item_id) (the_list expected) @
            map (receipt_reference known_evidence kinds item_id) (the_list receipts) @
            (if is_obj authority then
               [authority_receipt_errors known_evidence kinds item_id receipts (fld authority ''receipt_id''),
                Inr (write_authority_errors item_id (fld item ''scope'') authority)]
             else [])))
      | _ \<Rightarrow> Inr [])"

section \<open>The document\<close>

definition version_errors :: "json \<Rightarrow> string list" where
  "version_errors version = (case version of
     JInt v \<Rightarrow> if v \<noteq> 1 then [''document.schema_version:unsupported:'' @ dec_int v] else []
   | _ \<Rightarrow> [''document.schema_version:expected_integer''])"

definition document_errors :: "json \<Rightarrow> string list result" where
  "document_errors root =
     (let evidence = fld root ''evidence''; work_items = fld root ''work_items'' in
      case evidence_loop 0 (the_list evidence) [] [] of (evidence_errors, evidence_ids, kinds) \<Rightarrow>
      bind (item_loop 0 (the_list work_items) [] []) (\<lambda>(item_errors, identities, by_id).
      gather ([
        Inr (strict_keys root root_keys root_keys ''document''),
        Inr (version_errors (fld root ''schema_version'')),
        Inr (check_string (fld root ''graph_id'') ''document.graph_id'' None),
        Inr (if is_list evidence then evidence_errors else [''document.evidence:expected_array'']),
        Inr (if is_list work_items \<and> the_list work_items \<noteq> [] then []
             else [''document.work_items:expected_nonempty_array'']),
        Inr item_errors,
        Inr (concat (map (relation_errors identities evidence_ids by_id) by_id)),
        cycle_errors ''parent_of'' (edges_of parent_of by_id),
        cycle_errors ''blocked_by'' (edges_of blocked_by by_id),
        Inr (multiple_parent_errors (edges_of parent_of by_id))] @
        map (item_reference_errors evidence_ids kinds by_id) (the_list work_items))))"

definition get_or_unknown :: "json \<Rightarrow> string \<Rightarrow> json" where
  "get_or_unknown item key = (case get item key of None \<Rightarrow> JStr ''unknown'' | Some x \<Rightarrow> x)"

definition clarity_lint :: "json \<Rightarrow> json" where
  "clarity_lint item = JObj [
     (''work_item_id'', get_or_unknown item ''id''),
     (''tier'', get_or_unknown item ''clarity_tier''),
     (''missing_fields'', JList (map JStr (sorted_diff (tier_required (fld item ''clarity_tier'')) (keys item))))]"

definition validate_document :: "json \<Rightarrow> json result" where
  "validate_document document =
     (if \<not> is_obj document then
        Inr (JObj [(''errors'', JList [JStr ''document:expected_object'']), (''schema_version'', JInt 1),
          (''status'', JStr ''invalid'')])
      else bind (document_errors document) (\<lambda>errors.
        let items = filter is_obj (the_list (fld document ''work_items'')) in
        Inr (JObj [
          (''errors'', JList (map JStr (sorted_set errors))),
          (''graph_id'', get_or_unknown document ''graph_id''),
          (''schema_version'', JInt 1),
          (''status'', JStr (if errors = [] then ''valid'' else ''invalid'')),
          (''summary'', JObj [
            (''clarity_lint'', JList (map clarity_lint items)),
            (''clarity_tiers'', JObj (map (\<lambda>tier. (tier, JInt (int (length
               (filter (\<lambda>item. fld item ''clarity_tier'' = JStr tier) items))))) clarity_tiers)),
            (''evidence_count'', JInt (int (length (the_list (fld document ''evidence''))))),
            (''work_item_count'', JInt (int (length (the_list (fld document ''work_items'')))))])])))"

section \<open>Reading a clean run\<close>

named_theorems clean "what an empty list of messages establishes"

lemma gather_eq_Inr_Nil [clean]: "gather rs = Inr [] \<longleftrightarrow> (\<forall>r\<in>set rs. r = Inr [])"
  by (induction rs) (auto simp: bind_eq_Inr)

lemma concat_map_Nil [clean]: "concat (map f xs) = [] \<longleftrightarrow> (\<forall>x\<in>set xs. f x = [])"
  by simp

lemma if_errors_Nil [clean]: "(if b then e # es else []) = [] \<longleftrightarrow> \<not> b"
  "(if b then [] else e # es) = [] \<longleftrightarrow> b"
  by auto

lemma strict_keys_Nil [clean]:
  "strict_keys v allowed required path = [] \<longleftrightarrow> set (keys v) \<subseteq> set allowed \<and> set required \<subseteq> set (keys v)"
  by (simp add: strict_keys_def sorted_diff_Nil_iff)

lemma check_string_Nil [clean]:
  "check_string v path None = [] \<longleftrightarrow> nonblank v"
  "check_string v path (Some S) = [] \<longleftrightarrow> nonblank v \<and> the_str v \<in> set S"
  by (simp_all add: check_string_def)

lemma entry_errors_Nil: "entry_errors path i xs = [] \<longleftrightarrow> list_all nonblank xs"
  by (induction xs arbitrary: i) auto

lemma check_string_list_Nil [clean]:
  "check_string_list v path ne = [] \<longleftrightarrow>
     is_list v \<and> (ne \<longrightarrow> the_list v \<noteq> []) \<and> list_all nonblank (the_list v) \<and> distinct (string_entries v)"
  by (auto simp: check_string_list_def entry_errors_Nil)

lemma string_entries_all: "list_all nonblank (the_list v) \<Longrightarrow> map JStr (string_entries v) = the_list v"
  by (induction "the_list v" arbitrary: v)
    (auto simp: string_entries_def list_all_iff elim!: nonblankE intro!: map_idI split: list.splits)

definition item_id :: "json \<Rightarrow> string" where
  "item_id item = the_str (fld item ''id'')"

lemma validate_item_clean:
  assumes "validate_item v i = Inr ([], iid, r)"
  shows "is_obj v \<and> nonblank (fld v ''id'') \<and> iid = Some (item_id v) \<and> r = item_rels v"
  using assms
  by (auto simp: validate_item_def Let_def item_id_def result_simps clean
      elim!: nonblankE split: if_splits)

definition item_clean :: "json \<Rightarrow> nat \<Rightarrow> bool" where
  "item_clean v i = (validate_item v i = Inr ([], Some (item_id v), item_rels v))"

definition by_ids :: "json list \<Rightarrow> (string \<times> rels) list" where
  "by_ids xs = map (\<lambda>x. (item_id x, item_rels x)) xs"

lemma all_less_Suc: "(\<forall>j<Suc n. P j) \<longleftrightarrow> P 0 \<and> (\<forall>j<n. P (Suc j))"
  using less_Suc_eq_0_disj by auto

lemma update_new: "k \<notin> fst ` set al \<Longrightarrow> AList.update k v al = al @ [(k, v)]"
  by (induction al) auto

lemma item_loop_clean:
  assumes "item_loop i xs ids by_id = Inr ([], ids', by_id')" "fst ` set by_id = set ids"
  shows "ids' = ids @ map item_id xs \<and> by_id' = by_id @ by_ids xs \<and> (distinct ids \<longrightarrow> distinct ids') \<and>
    (\<forall>j<length xs. item_clean (xs ! j) (i + j))"
  using assms
proof (induction i xs ids by_id arbitrary: ids' by_id' rule: item_loop.induct)
  case (1 i ids by_id)
  then show ?case by (simp add: by_ids_def)
next
  case (2 i x xs ids by_id)
  obtain errors iid r where v: "validate_item x i = Inr (errors, iid, r)"
    using "2.prems"(1) by (cases "validate_item x i") auto
  show ?case
  proof (cases iid)
    case None
    with "2.prems"(1) v have "errors = []" by (auto simp: result_simps)
    with v None validate_item_clean show ?thesis by fastforce
  next
    case (Some a)
    with "2.prems"(1) v have "errors = []" and new: "a \<notin> set ids"
      and rest: "item_loop (Suc i) xs (ids @ [a]) (AList.update a r by_id) = Inr ([], ids', by_id')"
      by (auto simp: result_simps split: if_splits)
    with v validate_item_clean Some have x: "a = item_id x" "r = item_rels x" "item_clean x i"
      by (auto simp: item_clean_def)
    have up: "AList.update a r by_id = by_id @ [(a, r)]"
      using new "2.prems"(2) by (intro update_new) simp
    have ih: "ids' = (ids @ [a]) @ map item_id xs \<and> by_id' = (by_id @ [(a, r)]) @ by_ids xs \<and>
        (distinct (ids @ [a]) \<longrightarrow> distinct ids') \<and> (\<forall>j<length xs. item_clean (xs ! j) (Suc i + j))"
      by (rule "2.IH"(2)[OF Some rest, unfolded up]) (simp add: "2.prems"(2))
    then have "distinct (ids @ [a]) \<longrightarrow> distinct ids'" by blast
    with new have "distinct ids \<longrightarrow> distinct ids'" by simp
    moreover have "ids' = ids @ map item_id (x # xs) \<and> by_id' = by_id @ by_ids (x # xs) \<and>
        (\<forall>j<length (x # xs). item_clean ((x # xs) ! j) (i + j))"
      using ih x by (simp add: by_ids_def all_less_Suc)
    ultimately show ?thesis by blast
  qed
qed

definition evidence_id :: "json \<Rightarrow> string" where
  "evidence_id e = the_str (fld e ''id'')"

lemma validate_evidence_clean:
  assumes "validate_evidence v path = ([], eid, kind)"
  shows "is_obj v \<and> eid = Some (evidence_id v) \<and> kind = Some (the_str (fld v ''kind''))"
  using assms
  by (auto simp: validate_evidence_def evidence_id_def clean elim!: nonblankE split: if_splits)

lemma evidence_loop_clean:
  assumes "evidence_loop i es ids kinds = ([], ids', kinds')" "fst ` set kinds \<subseteq> set ids"
  shows "ids' = ids @ map evidence_id es \<and> (distinct ids \<longrightarrow> distinct ids') \<and>
    kinds' = kinds @ map (\<lambda>e. (evidence_id e, the_str (fld e ''kind''))) es \<and>
    (\<forall>j<length es. fst (validate_evidence (es ! j) (indexed ''evidence'' (i + j))) = [])"
  using assms
proof (induction i es ids kinds arbitrary: ids' kinds' rule: evidence_loop.induct)
  case (1 i ids kinds)
  then show ?case by simp
next
  case (2 i e es ids kinds)
  obtain errors eid kind where v: "validate_evidence e (indexed ''evidence'' i) = (errors, eid, kind)"
    by (metis prod_cases3)
  with "2.prems"(1) have "errors = []" by (auto split: option.splits prod.splits)
  with v validate_evidence_clean have e: "eid = Some (evidence_id e)" "kind = Some (the_str (fld e ''kind''))"
    by auto
  with v "2.prems"(1) have new: "evidence_id e \<notin> set ids"
    and rest: "evidence_loop (Suc i) es (ids @ [evidence_id e])
      (AList.update (evidence_id e) (the_str (fld e ''kind'')) kinds) = ([], ids', kinds')"
    by (auto split: prod.splits if_splits)
  have up: "AList.update (evidence_id e) (the_str (fld e ''kind'')) kinds =
      kinds @ [(evidence_id e, the_str (fld e ''kind''))]"
    using new "2.prems"(2) by (intro update_new) auto
  have ih: "ids' = (ids @ [evidence_id e]) @ map evidence_id es \<and>
      (distinct (ids @ [evidence_id e]) \<longrightarrow> distinct ids') \<and>
      kinds' = (kinds @ [(evidence_id e, the_str (fld e ''kind''))]) @
        map (\<lambda>e. (evidence_id e, the_str (fld e ''kind''))) es \<and>
      (\<forall>j<length es. fst (validate_evidence (es ! j) (indexed ''evidence'' (Suc i + j))) = [])"
    using "2.IH"(2)[OF v[symmetric] refl e(1)] rest e(2) "2.prems"(2) new by (auto simp: dom_update up)
  then have "distinct (ids @ [evidence_id e]) \<longrightarrow> distinct ids'" by blast
  with new have "distinct ids \<longrightarrow> distinct ids'" by simp
  moreover have "ids' = ids @ map evidence_id (e # es) \<and>
      kinds' = kinds @ map (\<lambda>e. (evidence_id e, the_str (fld e ''kind''))) (e # es) \<and>
      (\<forall>j<length (e # es). fst (validate_evidence ((e # es) ! j) (indexed ''evidence'' (i + j))) = [])"
    using ih v \<open>errors = []\<close> by (simp add: all_less_Suc)
  ultimately show ?case by blast
qed

end
