(* ===== verification/WorkGraph_Validity.thy ===== *)
theory WorkGraph_Validity
  imports WorkGraph_Document
begin

text \<open>
  What a \<open>valid\<close> receipt means. The work items of a document are read as a graph, and the
  promise of the validator is stated on it without reference to messages or loops
  (\<open>links_ok\<close>, \<open>references_ok\<close>); the validator reports \<open>valid\<close> for exactly the documents that
  keep the promise and whose fields pass the field checks.
\<close>

section \<open>The graph of a document\<close>

definition items_of :: "json \<Rightarrow> json list" where
  "items_of d = the_list (fld d ''work_items'')"

definition evidence_of :: "json \<Rightarrow> json list" where
  "evidence_of d = the_list (fld d ''evidence'')"

definition link :: "(rels \<Rightarrow> string list) \<Rightarrow> json list \<Rightarrow> (string \<times> string) set" where
  "link relation items = {(item_id x, t) | x t. x \<in> set items \<and> t \<in> set (relation (item_rels x))}"

definition links_ok :: "json list \<Rightarrow> string set \<Rightarrow> bool" where
  "links_ok items evidence \<longleftrightarrow>
     (\<forall>(a, b) \<in> link parent_of items \<union> link blocked_by items \<union> link related_to items.
        a \<noteq> b \<and> b \<in> item_id ` set items) \<and>
     Range (link produces items) \<union> Range (link consumes items) \<subseteq> evidence \<and>
     link produces items \<inter> link consumes items = {} \<and>
     sym (link related_to items) \<and>
     link parent_of items \<inter> link blocked_by items = {} \<and>
     acyclic (link parent_of items) \<and> acyclic (link blocked_by items) \<and>
     single_valued ((link parent_of items)\<inverse>)"

text \<open>References from items to the evidence, and the write scope the authority grants.\<close>

definition item_references_ok :: "json list \<Rightarrow> json \<Rightarrow> bool" where
  "item_references_ok evidence item \<longleftrightarrow>
     (\<forall>r \<in> set (string_entries (fld item ''expected_artifacts'')).
        r \<in> evidence_id ` set evidence \<and> r \<in> set (produces (item_rels item))) \<and>
     (\<forall>r \<in> set (string_entries (fld item ''receipts'')).
        \<exists>e \<in> set evidence. evidence_id e = r \<and> fld e ''kind'' = JStr ''receipt'') \<and>
     (is_obj (fld item ''authority'') \<longrightarrow>
        fld (fld item ''authority'') ''receipt_id'' \<in> set (the_list (fld item ''receipts'')) \<and>
        set (the_list (fld (fld item ''scope'') ''write''))
          \<subseteq> set (the_list (fld (fld item ''authority'') ''write_scope'')))"

definition shape_ok :: "json \<Rightarrow> bool" where
  "shape_ok d \<longleftrightarrow> is_obj d \<and> set (keys d) = set root_keys \<and> fld d ''schema_version'' = JInt 1 \<and>
     nonblank (fld d ''graph_id'') \<and> is_list (fld d ''evidence'') \<and> is_list (fld d ''work_items'') \<and>
     items_of d \<noteq> []"

definition fields_ok :: "json \<Rightarrow> bool" where
  "fields_ok d \<longleftrightarrow>
     (\<forall>j < length (evidence_of d). fst (validate_evidence (evidence_of d ! j) (indexed ''evidence'' j)) = []) \<and>
     (\<forall>j < length (items_of d). item_clean (items_of d ! j) j)"

definition document_ok :: "json \<Rightarrow> bool" where
  "document_ok d \<longleftrightarrow> shape_ok d \<and> fields_ok d \<and>
     distinct (map evidence_id (evidence_of d)) \<and> distinct (map item_id (items_of d)) \<and>
     links_ok (items_of d) (evidence_id ` set (evidence_of d)) \<and>
     (\<forall>item \<in> set (items_of d). item_references_ok (evidence_of d) item)"

section \<open>The loops, conversely\<close>

lemma validate_evidence_fst:
  assumes "fst (validate_evidence v path) = []"
  shows "validate_evidence v path = ([], Some (evidence_id v), Some (the_str (fld v ''kind'')))"
  using assms validate_evidence_clean[of v path "fst (snd (validate_evidence v path))"
      "snd (snd (validate_evidence v path))"]
  by (metis prod.collapse)

lemma evidence_loop_run:
  assumes "\<forall>j<length es. fst (validate_evidence (es ! j) (indexed ''evidence'' (i + j))) = []"
    and "distinct (ids @ map evidence_id es)" "fst ` set kinds \<subseteq> set ids"
  shows "evidence_loop i es ids kinds = ([], ids @ map evidence_id es,
    kinds @ map (\<lambda>e. (evidence_id e, the_str (fld e ''kind''))) es)"
  using assms
proof (induction es arbitrary: i ids kinds)
  case Nil
  then show ?case by simp
next
  case (Cons e es)
  then have new: "evidence_id e \<notin> set ids" "evidence_id e \<notin> fst ` set kinds" by auto
  have "fst (validate_evidence e (indexed ''evidence'' i)) = []"
    using Cons.prems(1) by (auto simp: all_less_Suc)
  note e = validate_evidence_fst[OF this]
  have "evidence_loop (Suc i) es (ids @ [evidence_id e]) (kinds @ [(evidence_id e, the_str (fld e ''kind''))])
      = ([], (ids @ [evidence_id e]) @ map evidence_id es,
         (kinds @ [(evidence_id e, the_str (fld e ''kind''))]) @
           map (\<lambda>e. (evidence_id e, the_str (fld e ''kind''))) es)"
    using Cons.prems by (intro Cons.IH) (auto simp: all_less_Suc)
  with new e show ?case by (simp add: update_new)
qed

lemma item_loop_run:
  assumes "\<forall>j<length xs. item_clean (xs ! j) (i + j)"
    and "distinct (ids @ map item_id xs)" "fst ` set by_id \<subseteq> set ids"
  shows "item_loop i xs ids by_id = Inr ([], ids @ map item_id xs, by_id @ by_ids xs)"
  using assms
proof (induction xs arbitrary: i ids by_id)
  case Nil
  then show ?case by (simp add: by_ids_def)
next
  case (Cons x xs)
  then have new: "item_id x \<notin> set ids" "item_id x \<notin> fst ` set by_id" by auto
  have x: "validate_item x i = Inr ([], Some (item_id x), item_rels x)"
    using Cons.prems(1) by (auto simp: all_less_Suc item_clean_def)
  have "item_loop (Suc i) xs (ids @ [item_id x]) (by_id @ [(item_id x, item_rels x)])
      = Inr ([], (ids @ [item_id x]) @ map item_id xs, (by_id @ [(item_id x, item_rels x)]) @ by_ids xs)"
    using Cons.prems by (intro Cons.IH) (auto simp: all_less_Suc)
  with new x show ?case by (simp add: update_new by_ids_def)
qed

lemma item_loop_iff:
  "(\<exists>ids by_id. item_loop 0 xs [] [] = Inr ([], ids, by_id)) \<longleftrightarrow>
     (\<forall>j<length xs. item_clean (xs ! j) j) \<and> distinct (map item_id xs)"
  using item_loop_clean[of 0 xs "[]" "[]"] item_loop_run[of xs 0 "[]" "[]"] by fastforce

section \<open>The checks between items\<close>

lemma target_errors_Nil:
  "target_errors known source relation ts = [] \<longleftrightarrow> (\<forall>t\<in>set ts. t \<noteq> source \<and> t \<in> set known)"
  unfolding target_errors_def concat_map_Nil by (intro ball_cong refl) simp

lemma missing_evidence_errors_Nil:
  "missing_evidence_errors known source relation ts = [] \<longleftrightarrow> set ts \<subseteq> set known"
  by (auto simp: missing_evidence_errors_def filter_empty_conv)

lemma relation_errors_Nil:
  "relation_errors known ev by_id (source, r) = [] \<longleftrightarrow>
     (\<forall>t \<in> set (parent_of r) \<union> set (blocked_by r) \<union> set (related_to r). t \<noteq> source \<and> t \<in> set known) \<and>
     set (produces r) \<union> set (consumes r) \<subseteq> set ev \<and> set (produces r) \<inter> set (consumes r) = {} \<and>
     (\<forall>t \<in> set (related_to r). \<forall>q. map_of by_id t = Some q \<longrightarrow> source \<in> set (related_to q)) \<and>
     set (parent_of r) \<inter> set (blocked_by r) = {}"
proof -
  have reciprocal: "\<not> (case m of None \<Rightarrow> False | Some q \<Rightarrow> source \<notin> set (related_to q)) \<longleftrightarrow>
      (\<forall>q. m = Some q \<longrightarrow> source \<in> set (related_to q))" for m
    by (cases m) auto
  show ?thesis
    by (simp only: relation_errors_def prod.case append_is_Nil_conv map_is_Nil_conv sorted_set_Nil_iff
        remdups_eq_nil_iff filter_empty_conv target_errors_Nil missing_evidence_errors_Nil reciprocal) blast
qed

lemma map_of_by_ids:
  "distinct (map item_id xs) \<Longrightarrow> x \<in> set xs \<Longrightarrow> map_of (by_ids xs) (item_id x) = Some (item_rels x)"
  by (induction xs) (auto simp: by_ids_def rev_image_eqI)

lemma map_of_by_ids_Some:
  "map_of (by_ids xs) t = Some q \<Longrightarrow> \<exists>x\<in>set xs. item_id x = t \<and> item_rels x = q"
  by (induction xs) (auto simp: by_ids_def split: if_splits)

lemma item_rels_eq:
  assumes "distinct (map item_id xs)" "x \<in> set xs" "y \<in> set xs" "item_id x = item_id y"
  shows "item_rels x = item_rels y"
  using map_of_by_ids[OF assms(1,2)] map_of_by_ids[OF assms(1,3)] assms(4) by simp

lemma ball_link:
  "(\<forall>p \<in> link f xs. P p) \<longleftrightarrow> (\<forall>x\<in>set xs. \<forall>t\<in>set (f (item_rels x)). P (item_id x, t))"
  by (auto simp: link_def)

lemma Range_link: "Range (link f xs) \<subseteq> S \<longleftrightarrow> (\<forall>x\<in>set xs. set (f (item_rels x)) \<subseteq> S)"
  by (auto simp: link_def)

lemma in_link:
  assumes "distinct (map item_id xs)" "x \<in> set xs"
  shows "(item_id x, t) \<in> link f xs \<longleftrightarrow> t \<in> set (f (item_rels x))"
proof -
  have "(item_id x, t) \<in> link f xs \<longleftrightarrow> (\<exists>y\<in>set xs. item_id x = item_id y \<and> t \<in> set (f (item_rels y)))"
    by (auto simp: link_def)
  then show ?thesis using item_rels_eq[OF assms] assms(2) by metis
qed

lemma disjoint_link:
  assumes "distinct (map item_id xs)"
  shows "link f xs \<inter> link g xs = {} \<longleftrightarrow> (\<forall>x\<in>set xs. set (f (item_rels x)) \<inter> set (g (item_rels x)) = {})"
proof -
  have "link f xs \<inter> link g xs = {} \<longleftrightarrow> (\<forall>p \<in> link f xs. p \<notin> link g xs)" by blast
  also have "\<dots> \<longleftrightarrow> (\<forall>x\<in>set xs. \<forall>t\<in>set (f (item_rels x)). t \<notin> set (g (item_rels x)))"
    unfolding ball_link by (intro ball_cong refl) (simp add: in_link[OF assms])
  finally show ?thesis by blast
qed

lemma sym_link:
  assumes "distinct (map item_id xs)" "\<forall>x\<in>set xs. set (f (item_rels x)) \<subseteq> item_id ` set xs"
  shows "sym (link f xs) \<longleftrightarrow> (\<forall>x\<in>set xs. \<forall>t\<in>set (f (item_rels x)). \<forall>q.
    map_of (by_ids xs) t = Some q \<longrightarrow> item_id x \<in> set (f q))" (is "_ \<longleftrightarrow> ?R")
proof -
  have "sym (link f xs) \<longleftrightarrow> (\<forall>p \<in> link f xs. (snd p, fst p) \<in> link f xs)"
    by (auto simp: sym_def)
  also have "\<dots> \<longleftrightarrow> (\<forall>x\<in>set xs. \<forall>t\<in>set (f (item_rels x)). (t, item_id x) \<in> link f xs)"
    by (simp add: ball_link)
  also have "\<dots> \<longleftrightarrow> ?R"
  proof (intro ball_cong refl)
    fix x t assume "x \<in> set xs" "t \<in> set (f (item_rels x))"
    with assms(2) obtain y where "y \<in> set xs" "t = item_id y" by blast
    then show "(t, item_id x) \<in> link f xs \<longleftrightarrow>
        (\<forall>q. map_of (by_ids xs) t = Some q \<longrightarrow> item_id x \<in> set (f q))"
      by (simp add: in_link[OF assms(1)] map_of_by_ids[OF assms(1)])
  qed
  finally show ?thesis .
qed

definition targets_ok :: "json list \<Rightarrow> bool" where
  "targets_ok xs \<longleftrightarrow> (\<forall>(a, b) \<in> link parent_of xs \<union> link blocked_by xs \<union> link related_to xs.
     a \<noteq> b \<and> b \<in> item_id ` set xs)"

lemma targets_ok_iff:
  "targets_ok xs \<longleftrightarrow> (\<forall>x\<in>set xs. \<forall>t\<in>set (parent_of (item_rels x)) \<union> set (blocked_by (item_rels x)) \<union>
     set (related_to (item_rels x)). t \<noteq> item_id x \<and> t \<in> item_id ` set xs)"
  unfolding targets_ok_def ball_Un ball_link prod.case by blast

lemma relation_errors_all:
  assumes "distinct (map item_id xs)"
  shows "concat (map (relation_errors (map item_id xs) ev (by_ids xs)) (by_ids xs)) = [] \<longleftrightarrow>
    targets_ok xs \<and> Range (link produces xs) \<union> Range (link consumes xs) \<subseteq> set ev \<and>
    link produces xs \<inter> link consumes xs = {} \<and> sym (link related_to xs) \<and>
    link parent_of xs \<inter> link blocked_by xs = {}" (is "?L \<longleftrightarrow> ?R")
proof -
  have L: "?L \<longleftrightarrow> (\<forall>x\<in>set xs. relation_errors (map item_id xs) ev (by_ids xs) (item_id x, item_rels x) = [])"
    by (simp add: by_ids_def)
  show ?thesis
  proof (cases "targets_ok xs")
    case True
    then have known: "\<forall>x\<in>set xs. set (related_to (item_rels x)) \<subseteq> item_id ` set xs"
      unfolding targets_ok_iff by blast
    show ?thesis
      using True unfolding L relation_errors_Nil Un_subset_iff Range_link disjoint_link[OF assms]
        sym_link[OF assms known] targets_ok_iff set_map ball_conj_distrib by blast
  next
    case False
    then show ?thesis unfolding L relation_errors_Nil targets_ok_iff by simp blast
  qed
qed

lemma edge_rel_edges_of:
  assumes "distinct (map item_id xs)" "\<forall>x\<in>set xs. set (f (item_rels x)) \<subseteq> item_id ` set xs"
  shows "edge_rel (edges_of f (by_ids xs)) = link f xs"
proof -
  have succs: "succs (edges_of f (by_ids xs)) a =
      (case map_of (by_ids xs) a of None \<Rightarrow> [] | Some r \<Rightarrow> f r)" for a
    unfolding succs_def edges_of_def by_ids_def by (induction xs) auto
  have nodes: "nodes (edges_of f (by_ids xs)) = item_id ` set xs"
    by (auto simp: nodes_def edges_of_def by_ids_def rev_image_eqI)
  have "(a, b) \<in> edge_rel (edges_of f (by_ids xs)) \<longleftrightarrow> (a, b) \<in> link f xs" for a b
  proof (cases "a \<in> item_id ` set xs")
    case True
    then obtain x where "x \<in> set xs" "a = item_id x" by blast
    then show ?thesis
      using assms(2) by (auto simp: edge_rel_def succs nodes map_of_by_ids[OF assms(1)] in_link[OF assms(1)])
  next
    case False
    then have "map_of (by_ids xs) a = None"
      using map_of_by_ids_Some[of xs a] by (cases "map_of (by_ids xs) a") auto
    with False show ?thesis by (auto simp: edge_rel_def succs link_def)
  qed
  then show ?thesis by auto
qed

lemma cycle_errors_Nil: "cycle_errors relation E = Inr [] \<longleftrightarrow> acyclic (edge_rel E)"
  using cycle_members_spec[of E] by (auto simp: cycle_errors_def split: list.splits)

lemma distinct_iff_count: "distinct xs \<longleftrightarrow> (\<forall>t. \<not> 1 < count_list xs t)"
proof (induction xs)
  case Nil
  then show ?case by simp
next
  case (Cons x xs)
  have "(\<forall>t. \<not> 1 < count_list (x # xs) t) \<longleftrightarrow> count_list xs x = 0 \<and> (\<forall>t. \<not> 1 < count_list xs t)"
  proof -
    have split: "(\<forall>t. Q t) \<longleftrightarrow> Q x \<and> (\<forall>t. t \<noteq> x \<longrightarrow> Q t)" for Q :: "'a \<Rightarrow> bool" by metis
    show ?thesis
      by (subst (1 2) split) (auto simp: not_less)
  qed
  then show ?case using Cons.IH by (simp add: count_list_0_iff)
qed

lemma multiple_parent_errors_Nil: "multiple_parent_errors E = [] \<longleftrightarrow> distinct (concat (map snd E))"
proof -
  have "multiple_parent_errors E = [] \<longleftrightarrow> (\<forall>t. \<not> 1 < count_list (concat (map snd E)) t)"
    by (simp only: multiple_parent_errors_def Let_def map_is_Nil_conv filter_empty_conv set_sorted_set)
      (metis count_list_0_iff less_nat_zero_code)
  then show ?thesis by (simp only: distinct_iff_count)
qed

lemma distinct_concat_map:
  assumes "distinct (map k xs)" "\<forall>x\<in>set xs. distinct (g x)"
  shows "distinct (concat (map g xs)) \<longleftrightarrow>
    (\<forall>x\<in>set xs. \<forall>y\<in>set xs. set (g x) \<inter> set (g y) \<noteq> {} \<longrightarrow> k x = k y)"
  using assms
proof (induction xs)
  case Nil
  then show ?case by simp
next
  case (Cons x xs)
  let ?P = "\<lambda>a b. set (g a) \<inter> set (g b) \<noteq> {} \<longrightarrow> k a = k b"
  have P: "?P x y \<and> ?P y x \<longleftrightarrow> set (g x) \<inter> set (g y) = {}" if "y \<in> set xs" for y
    using Cons.prems(1) that by (auto simp: Int_commute)
  have "(\<forall>a\<in>set (x # xs). \<forall>b\<in>set (x # xs). ?P a b) \<longleftrightarrow>
      (\<forall>y\<in>set xs. ?P x y \<and> ?P y x) \<and> (\<forall>a\<in>set xs. \<forall>b\<in>set xs. ?P a b)"
    unfolding list.set ball_simps ball_conj_distrib by simp blast
  also have "(\<forall>y\<in>set xs. ?P x y \<and> ?P y x) \<longleftrightarrow> (\<forall>y\<in>set xs. set (g x) \<inter> set (g y) = {})"
    using P by (intro ball_cong refl)
  finally have "(\<forall>a\<in>set (x # xs). \<forall>b\<in>set (x # xs). ?P a b) \<longleftrightarrow>
      (\<forall>y\<in>set xs. set (g x) \<inter> set (g y) = {}) \<and> (\<forall>a\<in>set xs. \<forall>b\<in>set xs. ?P a b)" .
  moreover have "distinct (concat (map g (x # xs))) \<longleftrightarrow>
      distinct (concat (map g xs)) \<and> (\<forall>y\<in>set xs. set (g x) \<inter> set (g y) = {})"
    using Cons.prems(2) by auto
  moreover have "distinct (concat (map g xs)) \<longleftrightarrow> (\<forall>a\<in>set xs. \<forall>b\<in>set xs. ?P a b)"
    using Cons.prems by (intro Cons.IH) auto
  ultimately show ?case by blast
qed

lemma single_parent:
  assumes "distinct (map item_id xs)" "\<forall>x\<in>set xs. distinct (parent_of (item_rels x))"
  shows "multiple_parent_errors (edges_of parent_of (by_ids xs)) = [] \<longleftrightarrow>
    single_valued ((link parent_of xs)\<inverse>)"
proof -
  have "map snd (edges_of parent_of (by_ids xs)) = map (\<lambda>x. parent_of (item_rels x)) xs"
    by (simp add: edges_of_def by_ids_def)
  then have "multiple_parent_errors (edges_of parent_of (by_ids xs)) = [] \<longleftrightarrow>
      (\<forall>x\<in>set xs. \<forall>y\<in>set xs. set (parent_of (item_rels x)) \<inter> set (parent_of (item_rels y)) \<noteq> {} \<longrightarrow>
         item_id x = item_id y)"
    by (simp only: multiple_parent_errors_Nil distinct_concat_map[OF assms])
  also have "\<dots> \<longleftrightarrow> single_valued ((link parent_of xs)\<inverse>)"
    unfolding single_valued_def link_def by blast
  finally show ?thesis .
qed

lemma links_ok_iff:
  assumes "distinct (map item_id xs)" "\<forall>x\<in>set xs. distinct (parent_of (item_rels x))"
  shows "concat (map (relation_errors (map item_id xs) ev (by_ids xs)) (by_ids xs)) = [] \<and>
      cycle_errors ''parent_of'' (edges_of parent_of (by_ids xs)) = Inr [] \<and>
      cycle_errors ''blocked_by'' (edges_of blocked_by (by_ids xs)) = Inr [] \<and>
      multiple_parent_errors (edges_of parent_of (by_ids xs)) = [] \<longleftrightarrow> links_ok xs (set ev)"
proof (cases "targets_ok xs")
  case True
  then have known: "\<forall>x\<in>set xs. set (parent_of (item_rels x)) \<subseteq> item_id ` set xs"
      "\<forall>x\<in>set xs. set (blocked_by (item_rels x)) \<subseteq> item_id ` set xs"
    unfolding targets_ok_iff by blast+
  show ?thesis
    unfolding relation_errors_all[OF assms(1)] cycle_errors_Nil single_parent[OF assms]
      edge_rel_edges_of[OF assms(1) known(1)] edge_rel_edges_of[OF assms(1) known(2)]
      links_ok_def targets_ok_def by blast
next
  case False
  then show ?thesis
    unfolding relation_errors_all[OF assms(1)] links_ok_def targets_ok_def by blast
qed

section \<open>References\<close>

lemma optional_Nil: "optional obj key check = [] \<longleftrightarrow> (has_key obj key \<longrightarrow> check (fld obj key) = [])"
  by (simp add: optional_def)

text \<open>The fields of an item that passed its checks\<close>

lemma item_clean_iff:
  "item_clean item i \<longleftrightarrow> (\<exists>iid r. validate_item item i = Inr ([], iid, r))"
  using validate_item_clean unfolding item_clean_def by blast

lemma item_clean_obj: "item_clean item i \<Longrightarrow> is_obj item \<and> nonblank (fld item ''id'')"
  using validate_item_clean unfolding item_clean_def by blast

lemma item_clean_id:
  assumes "item_clean item i"
  shows "fld item ''id'' = JStr (item_id item)"
  using item_clean_obj[OF assms] by (auto simp: item_id_def elim!: nonblankE)

lemma item_clean_lists:
  assumes "item_clean item i"
  shows "has_key item ''expected_artifacts'' \<Longrightarrow>
      is_list (fld item ''expected_artifacts'') \<and> list_all nonblank (the_list (fld item ''expected_artifacts''))"
    and "has_key item ''receipts'' \<Longrightarrow>
      is_list (fld item ''receipts'') \<and> list_all nonblank (the_list (fld item ''receipts''))"
    and "has_key item ''relationships'' \<Longrightarrow>
      fst (validate_relationships (fld item ''relationships'') (indexed ''work_items'' i @ ''.relationships'')) = []"
    and "has_key item ''authority'' \<Longrightarrow>
      validate_authority (fld item ''authority'') (indexed ''work_items'' i @ ''.authority'') = []"
    and "validate_scope (fld item ''scope'') (indexed ''work_items'' i @ ''.scope'') = []"
    and "set (tier_required (fld item ''clarity_tier'')) \<subseteq> set (keys item)"
    and "set (keys item) \<subseteq> set base_item_keys"
    and "nonblank (fld item ''clarity_tier'') \<and> the_str (fld item ''clarity_tier'') \<in> set clarity_tiers"
    and "has_key item ''parent_acceptance'' \<Longrightarrow>
      validate_parent_acceptance (fld item ''parent_acceptance'') (indexed ''work_items'' i @ ''.parent_acceptance'') = []"
proof -
  have facts: "(has_key item ''expected_artifacts'' \<longrightarrow> (is_list (fld item ''expected_artifacts'') \<and> list_all nonblank (the_list (fld item ''expected_artifacts'')))) \<and>
    (has_key item ''receipts'' \<longrightarrow> (is_list (fld item ''receipts'') \<and> list_all nonblank (the_list (fld item ''receipts'')))) \<and>
    (has_key item ''relationships'' \<longrightarrow> (fst (validate_relationships (fld item ''relationships'') (indexed ''work_items'' i @ ''.relationships'')) = [])) \<and>
    (has_key item ''authority'' \<longrightarrow> (validate_authority (fld item ''authority'') (indexed ''work_items'' i @ ''.authority'') = [])) \<and>
    (validate_scope (fld item ''scope'') (indexed ''work_items'' i @ ''.scope'') = []) \<and>
    (set (tier_required (fld item ''clarity_tier'')) \<subseteq> set (keys item)) \<and>
    (set (keys item) \<subseteq> set base_item_keys) \<and>
    (nonblank (fld item ''clarity_tier'') \<and> the_str (fld item ''clarity_tier'') \<in> set clarity_tiers) \<and>
    (has_key item ''parent_acceptance'' \<longrightarrow> (validate_parent_acceptance (fld item ''parent_acceptance'') (indexed ''work_items'' i @ ''.parent_acceptance'') = []))"
    using assms
    by (simp add: item_clean_def validate_item_def Let_def result_simps clean optional_Nil
        sorted_diff_Nil_iff item_clean_obj[OF assms])
  show "has_key item ''expected_artifacts'' \<Longrightarrow>
      is_list (fld item ''expected_artifacts'') \<and> list_all nonblank (the_list (fld item ''expected_artifacts''))" using facts by blast
  show "has_key item ''receipts'' \<Longrightarrow>
      is_list (fld item ''receipts'') \<and> list_all nonblank (the_list (fld item ''receipts''))" using facts by blast
  show "has_key item ''relationships'' \<Longrightarrow>
      fst (validate_relationships (fld item ''relationships'') (indexed ''work_items'' i @ ''.relationships'')) = []" using facts by blast
  show "has_key item ''authority'' \<Longrightarrow>
      validate_authority (fld item ''authority'') (indexed ''work_items'' i @ ''.authority'') = []" using facts by blast
  show "validate_scope (fld item ''scope'') (indexed ''work_items'' i @ ''.scope'') = []" using facts by blast
  show "set (tier_required (fld item ''clarity_tier'')) \<subseteq> set (keys item)" using facts by blast
  show "set (keys item) \<subseteq> set base_item_keys" using facts by blast
  show "nonblank (fld item ''clarity_tier'') \<and> the_str (fld item ''clarity_tier'') \<in> set clarity_tiers" using facts by blast
  show "has_key item ''parent_acceptance'' \<Longrightarrow>
      validate_parent_acceptance (fld item ''parent_acceptance'') (indexed ''work_items'' i @ ''.parent_acceptance'') = []" using facts by blast
qed

lemma item_clean_distinct:
  assumes "item_clean item i"
  shows "distinct (parent_of (item_rels item))"
  using item_clean_lists(3)[OF assms]
  by (auto simp: item_rels_def no_rels_def relationships_of_def validate_relationships_def
      relationship_keys_def clean)

lemma get_or_empty_clean:
  assumes "has_key item k \<Longrightarrow> is_list (fld item k) \<and> list_all nonblank (the_list (fld item k))"
  shows "the_list (get_or_empty item k) = map JStr (string_entries (fld item k))"
    and "get_or_empty item k = JList (the_list (get_or_empty item k))"
    and "the_list (get_or_empty item k) = the_list (fld item k)"
proof -
  show "the_list (get_or_empty item k) = the_list (fld item k)"
    by (auto simp: get_or_empty_def fld_def the_list_def split: option.splits)
  then show "the_list (get_or_empty item k) = map JStr (string_entries (fld item k))"
    by (cases "has_key item k")
      (simp_all add: assms string_entries_all, simp add: get_or_empty_def has_key_def fld_def
        string_entries_def the_list_def)
  show "get_or_empty item k = JList (the_list (get_or_empty item k))"
    using assms by (auto simp: get_or_empty_def has_key_def fld_def split: option.splits elim!: is_listE)
qed

lemma gather_append_Nil:
  "gather (rs @ qs) = Inr [] \<longleftrightarrow> gather rs = Inr [] \<and> gather qs = Inr []"
  by (auto simp: clean)

lemma kinds_receipt:
  assumes "distinct (map evidence_id es)"
    "\<forall>j<length es. fst (validate_evidence (es ! j) (indexed ''evidence'' j)) = []"
  shows "map_of (map (\<lambda>e. (evidence_id e, the_str (fld e ''kind''))) es) r = Some ''receipt'' \<longleftrightarrow>
    (\<exists>e\<in>set es. evidence_id e = r \<and> fld e ''kind'' = JStr ''receipt'')"
proof -
  have kind: "the_str (fld e ''kind'') = ''receipt'' \<longleftrightarrow> fld e ''kind'' = JStr ''receipt''"
    if "e \<in> set es" for e
    using that by (cases "fld e ''kind''") (auto simp: the_str_def)
  have "distinct (map fst (map (\<lambda>e. (evidence_id e, the_str (fld e ''kind''))) es))"
    using assms(1) by (simp add: comp_def)
  then show ?thesis
    by (simp only: map_of_eq_Some_iff) (force simp: kind[symmetric])
qed

lemma item_references_iff:
  assumes item: "item_clean item i" and ids: "distinct (map item_id items)" "item \<in> set items"
    and ev: "distinct (map evidence_id es)"
      "\<forall>j<length es. fst (validate_evidence (es ! j) (indexed ''evidence'' j)) = []"
  shows "item_reference_errors (map evidence_id es)
      (map (\<lambda>e. (evidence_id e, the_str (fld e ''kind''))) es) (by_ids items) item = Inr [] \<longleftrightarrow>
    item_references_ok es item"
proof -
  let ?kinds = "map (\<lambda>e. (evidence_id e, the_str (fld e ''kind''))) es"
  note lists = get_or_empty_clean[of item "''expected_artifacts''", OF item_clean_lists(1)[OF item]]
    get_or_empty_clean[of item "''receipts''", OF item_clean_lists(2)[OF item]]
  have produced: "(case map_of (by_ids items) (item_id item) of None \<Rightarrow> [] | Some r \<Rightarrow> produces r)
      = produces (item_rels item)"
    by (simp add: map_of_by_ids[OF ids])
  have artifact: "artifact_reference (map evidence_id es) (by_ids items) (item_id item) (JStr r) = Inr [] \<longleftrightarrow>
      r \<in> evidence_id ` set es \<and> r \<in> set (produces (item_rels item))" for r
    by (simp add: artifact_reference_def produced)
  have kind: "kind_is_receipt ?kinds (JStr r) \<longleftrightarrow>
      (\<exists>e\<in>set es. evidence_id e = r \<and> fld e ''kind'' = JStr ''receipt'')" for r
    using kinds_receipt[OF ev, of r] by (simp add: kind_is_receipt_def)
  have receipt: "receipt_reference (map evidence_id es) ?kinds (item_id item) (JStr r) = Inr [] \<longleftrightarrow>
      (\<exists>e\<in>set es. evidence_id e = r \<and> fld e ''kind'' = JStr ''receipt'')" for r
    by (auto simp: receipt_reference_def kind)
  show ?thesis
  proof (cases "is_obj (fld item ''authority'')")
    case False
    then show ?thesis
      using item_clean_obj[OF item] item_clean_id[OF item]
      by (simp add: item_reference_errors_def Let_def lists(1,4) artifact receipt item_references_ok_def clean
          ball_Un)
  next
    case True
    then have "has_key item ''authority''" by (auto simp: has_key_def fld_def split: option.splits)
    from item_clean_lists(4)[OF item this] True
    have auth: "nonblank (fld (fld item ''authority'') ''receipt_id'')"
        "is_list (fld (fld item ''authority'') ''write_scope'')"
      by (auto simp: validate_authority_def Let_def clean)
    then obtain a where a: "fld (fld item ''authority'') ''receipt_id'' = JStr a" by (auto elim: nonblankE)
    from item_clean_lists(5)[OF item]
    have scope: "is_obj (fld item ''scope'')" "is_list (fld (fld item ''scope'') ''write'')"
        "list_all nonblank (the_list (fld (fld item ''scope'') ''write''))"
      by (auto simp: validate_scope_def clean split: if_splits)
    have writes: "write_authority_errors (item_id item) (fld item ''scope'') (fld item ''authority'') = [] \<longleftrightarrow>
        set (the_list (fld (fld item ''scope'') ''write''))
          \<subseteq> set (the_list (fld (fld item ''authority'') ''write_scope''))"
    proof -
      have "in_list w xs \<longleftrightarrow> w \<in> set xs" if "w \<in> set (the_list (fld (fld item ''scope'') ''write''))" for w xs
      proof -
        from scope(3) that have "nonblank w" by (simp add: list_all_iff)
        then show ?thesis by (auto elim!: nonblankE)
      qed
      then show ?thesis
        using scope(1,2) auth(2) by (auto simp: write_authority_errors_def filter_empty_conv)
    qed
    have declared: "authority_receipt_errors (map evidence_id es) ?kinds (item_id item)
          (get_or_empty item ''receipts'') (JStr a) = Inr [] \<longleftrightarrow>
        (\<exists>e\<in>set es. evidence_id e = a \<and> fld e ''kind'' = JStr ''receipt'') \<and>
        JStr a \<in> set (the_list (fld item ''receipts''))"
      by (subst lists(5)) (auto simp: authority_receipt_errors_def kind py_contains_def lists(6))
    have member: "JStr a \<in> set (the_list (fld item ''receipts'')) \<longleftrightarrow>
        a \<in> set (string_entries (fld item ''receipts''))"
      using lists(4,6) by auto
    show ?thesis
      using item_clean_obj[OF item] item_clean_id[OF item] True
      by (simp add: item_reference_errors_def Let_def lists(1,4) artifact receipt item_references_ok_def
          clean ball_Un a declared writes) (auto simp: member)
  qed
qed

section \<open>The receipt\<close>

definition reports_valid :: "json \<Rightarrow> bool" where
  "reports_valid d = (case validate_document d of Inl e \<Rightarrow> False
     | Inr r \<Rightarrow> fld r ''status'' = JStr ''valid'')"

lemma reports_valid_iff: "reports_valid d \<longleftrightarrow> is_obj d \<and> document_errors d = Inr []"
  by (cases "document_errors d")
    (simp_all add: reports_valid_def validate_document_def Let_def fld_JObj_Cons)

lemma version_errors_Nil: "version_errors v = [] \<longleftrightarrow> v = JInt 1"
  by (cases v) (auto simp: version_errors_def)

lemma shape_errors_Nil:
  "is_obj d \<and> strict_keys d root_keys root_keys ''document'' = [] \<and>
     version_errors (fld d ''schema_version'') = [] \<and>
     check_string (fld d ''graph_id'') ''document.graph_id'' None = [] \<and>
     is_list (fld d ''evidence'') \<and> is_list (fld d ''work_items'') \<and> items_of d \<noteq> []
   \<longleftrightarrow> shape_ok d"
  by (auto simp: shape_ok_def clean version_errors_Nil)

lemma document_errors_split:
  assumes "evidence_loop 0 (evidence_of d) [] [] = (ee, eids, kinds)"
    and "item_loop 0 (items_of d) [] [] = Inr (ie, ids, by_id)" "is_obj d"
  shows "document_errors d = Inr [] \<longleftrightarrow> shape_ok d \<and> ee = [] \<and> ie = [] \<and>
    (concat (map (relation_errors ids eids by_id) by_id) = [] \<and>
      cycle_errors ''parent_of'' (edges_of parent_of by_id) = Inr [] \<and>
      cycle_errors ''blocked_by'' (edges_of blocked_by by_id) = Inr [] \<and>
      multiple_parent_errors (edges_of parent_of by_id) = []) \<and>
    (\<forall>item\<in>set (items_of d). item_reference_errors eids kinds by_id item = Inr [])"
proof -
  have if_nil: "(if b then xs else [x]) = [] \<longleftrightarrow> b \<and> xs = []"
      "(if b then [] else [x]) = [] \<longleftrightarrow> b" for b and xs :: "string list" and x
    by auto
  show ?thesis
    unfolding shape_errors_Nil[symmetric]
    using assms unfolding evidence_of_def items_of_def
    by (simp add: document_errors_def Let_def gather_eq_Inr_Nil ball_Un if_nil del: gather.simps) blast
qed

lemma valid_iff: "reports_valid d \<longleftrightarrow> document_ok d"
proof (cases "is_obj d \<and> (\<exists>ids by_id. item_loop 0 (items_of d) [] [] = Inr ([], ids, by_id)) \<and>
    fst (evidence_loop 0 (evidence_of d) [] []) = []")
  case True
  then have items: "\<forall>j<length (items_of d). item_clean (items_of d ! j) j" "distinct (map item_id (items_of d))"
    using item_loop_iff by auto
  have loop: "item_loop 0 (items_of d) [] [] = Inr ([], map item_id (items_of d), by_ids (items_of d))"
    using item_loop_run[of "items_of d" 0 "[]" "[]"] items by simp
  obtain eids kinds where e: "evidence_loop 0 (evidence_of d) [] [] = ([], eids, kinds)"
    using True by (metis prod.collapse)
  from evidence_loop_clean[OF this] have ev: "eids = map evidence_id (evidence_of d)"
      "kinds = map (\<lambda>e. (evidence_id e, the_str (fld e ''kind''))) (evidence_of d)"
      "distinct (map evidence_id (evidence_of d))"
      "\<forall>j<length (evidence_of d). fst (validate_evidence (evidence_of d ! j) (indexed ''evidence'' j)) = []"
    by auto
  have parents: "\<forall>x\<in>set (items_of d). distinct (parent_of (item_rels x))"
    using items(1) item_clean_distinct by (metis in_set_conv_nth)
  have refs: "item_reference_errors eids kinds (by_ids (items_of d)) item = Inr [] \<longleftrightarrow>
      item_references_ok (evidence_of d) item" if "item \<in> set (items_of d)" for item
  proof -
    from that obtain j where "j < length (items_of d)" "items_of d ! j = item"
      by (auto simp: in_set_conv_nth)
    with items(1) have "item_clean item j" by blast
    then show ?thesis unfolding ev(1,2) by (rule item_references_iff[OF _ items(2) that ev(3,4)])
  qed
  have "reports_valid d \<longleftrightarrow> shape_ok d \<and> links_ok (items_of d) (set eids) \<and>
      (\<forall>item\<in>set (items_of d). item_references_ok (evidence_of d) item)"
  proof -
    have d: "is_obj d" using True by blast
    show ?thesis
      unfolding reports_valid_iff document_errors_split[OF e loop d] ev(1)
        links_ok_iff[OF items(2) parents] unfolding ev(1)[symmetric]
      using d refs by blast
  qed
  then show ?thesis
    using items ev unfolding document_ok_def fields_ok_def by auto
next
  case False
  have "\<not> reports_valid d"
  proof
    assume "reports_valid d"
    then have d: "is_obj d" "document_errors d = Inr []" by (simp_all add: reports_valid_iff)
    obtain ee eids kinds where e: "evidence_loop 0 (evidence_of d) [] [] = (ee, eids, kinds)"
      by (metis prod_cases3)
    obtain ie ids by_id where i: "item_loop 0 (items_of d) [] [] = Inr (ie, ids, by_id)"
      using d(2) by (auto simp: document_errors_def Let_def items_of_def bind_eq_Inr split: prod.splits)
    show False using document_errors_split[OF e i d(1)] d e i False by auto
  qed
  moreover have "\<not> document_ok d"
    using False item_loop_iff[of "items_of d"] evidence_loop_run[of "evidence_of d" 0 "[]" "[]"]
    by (auto simp: document_ok_def fields_ok_def shape_ok_def)
  ultimately show ?thesis by simp
qed

text \<open>
  C1: the receipt says \<open>valid\<close> for exactly the documents whose fields pass the field
  checks, whose ids are unique, whose relations refer to other existing items, are
  reciprocal where they must be, acyclic and with at most one parent, and whose references
  to evidence and granted write scope are consistent.
\<close>

theorem valid_iff_document_ok:
  "reports_valid d \<longleftrightarrow> shape_ok d \<and> fields_ok d \<and>
     distinct (map evidence_id (evidence_of d)) \<and> distinct (map item_id (items_of d)) \<and>
     links_ok (items_of d) (evidence_id ` set (evidence_of d)) \<and>
     (\<forall>item \<in> set (items_of d). item_references_ok (evidence_of d) item)"
  unfolding valid_iff document_ok_def ..

end
