(* ===== verification/WorkGraph_Properties.thy ===== *)
theory WorkGraph_Properties
  imports WorkGraph_Validity
begin

text \<open>
  Consequences of a \<open>valid\<close> receipt that the rest of the system relies on, at the shipped
  template \<open>assets/templates/workgraph-governed.json\<close>, and the one way the validator fails
  to return a receipt.
\<close>

section \<open>The governed template\<close>

definition governed_template :: json where
  "governed_template =
     JObj [(''schema_version'', JInt 1), (''graph_id'', JStr ''fixture-governed''), (''evidence'',
     JList [JObj [(''id'', JStr ''EV-INPUT''), (''kind'', JStr ''source_reference''), (''locator'',
     JStr ''docs/goals/example/goal.md''), (''digest'', JStr ''unknown''), (''state'', JStr
     ''observed''), (''claim_ids'', JList [JStr ''WG-C001'']), (''authority_effect'', JStr
     ''none''), (''acceptance_effect'', JStr ''none'')], JObj [(''id'', JStr ''EV-AUTH''),
     (''kind'', JStr ''receipt''), (''locator'', JStr ''reports/example/parent-assignment.md''),
     (''digest'', JStr ''unknown''), (''state'', JStr ''observed''), (''claim_ids'', JList [JStr
     ''WG-C002'']), (''authority_effect'', JStr ''none''), (''acceptance_effect'', JStr ''none'')],
     JObj [(''id'', JStr ''EV-REPORT''), (''kind'', JStr ''artifact''), (''locator'', JStr
     ''reports/example/audit.md''), (''digest'', JStr ''unknown''), (''state'', JStr ''expected''),
     (''claim_ids'', JList []), (''authority_effect'', JStr ''none''), (''acceptance_effect'', JStr
     ''none'')]]), (''work_items'', JList [JObj [(''id'', JStr ''WI-GOVERNED''), (''kind'', JStr
     ''audit''), (''objective'', JStr ''Audit a governed checkpoint without granting acceptance.''),
     (''status'', JStr ''active''), (''clarity_tier'', JStr ''governed''), (''scope'', JObj
     [(''read'', JList [JStr ''docs/goals/example/goal.md'']), (''write'', JList [JStr
     ''reports/example/audit.md''])]), (''done_condition'', JStr
     ''The audit recommendation and evidence are ready for Parent review.''), (''validation'', JList
     [JObj [(''id'', JStr ''VAL-GOVERNED''), (''kind'', JStr ''command''), (''instruction'', JStr
     ''run governed fixture''), (''expected_result'', JStr ''exit status 0'')]]),
     (''relationships'', JObj [(''parent_of'', JList []), (''blocked_by'', JList []),
     (''related_to'', JList []), (''produces'', JList [JStr ''EV-REPORT'']), (''consumes'', JList
     [JStr ''EV-INPUT'', JStr ''EV-AUTH''])]), (''owner_role'', JStr ''Auditor''),
     (''expected_artifacts'', JList [JStr ''EV-REPORT'']), (''retry_policy'', JObj
     [(''max_attempts'', JInt 2), (''no_improvement_window'', JInt 2)]), (''stop_rule'', JStr
     ''Return needs_revision when a bounded finding survives repair.''), (''identity'', JObj
     [(''agent_name'', JObj [(''value'', JStr ''unknown''), (''provenance'', JStr ''unknown'')]),
     (''agent_id'', JObj [(''value'', JStr ''unknown''), (''provenance'', JStr ''unknown'')]),
     (''provider'', JObj [(''value'', JStr ''unknown''), (''provenance'', JStr ''unknown'')]),
     (''model'', JObj [(''value'', JStr ''unknown''), (''provenance'', JStr ''unknown'')]),
     (''route_id'', JObj [(''value'', JStr ''unknown''), (''provenance'', JStr ''unknown'')]),
     (''runtime'', JObj [(''value'', JStr ''unknown''), (''provenance'', JStr ''unknown'')]),
     (''billing'', JObj [(''value'', JStr ''unknown''), (''provenance'', JStr ''unknown'')]),
     (''source_access'', JObj [(''value'', JStr ''unknown''), (''provenance'', JStr ''unknown'')]),
     (''commands_executable'', JObj [(''value'', JStr ''unknown''), (''provenance'', JStr
     ''unknown'')]), (''token_usage'', JObj [(''value'', JStr ''unknown''), (''provenance'', JStr
     ''unknown'')]), (''cost'', JObj [(''value'', JStr ''unknown''), (''provenance'', JStr
     ''unknown'')]), (''capabilities'', JObj [(''filesystem'', JObj [(''value'', JStr ''unknown''),
     (''provenance'', JStr ''unknown'')]), (''browser'', JObj [(''value'', JStr ''unknown''),
     (''provenance'', JStr ''unknown'')]), (''command'', JObj [(''value'', JStr ''unknown''),
     (''provenance'', JStr ''unknown'')]), (''network'', JObj [(''value'', JStr ''unknown''),
     (''provenance'', JStr ''unknown'')]), (''connector'', JObj [(''value'', JStr ''unknown''),
     (''provenance'', JStr ''unknown'')]), (''billing'', JObj [(''value'', JStr ''unknown''),
     (''provenance'', JStr ''unknown'')])])]), (''authority'', JObj [(''source'', JStr
     ''parent:reports/example/parent-assignment.md''), (''receipt_id'', JStr ''EV-AUTH''),
     (''provenance'', JStr ''parent_issued''), (''write_scope'', JList [JStr
     ''reports/example/audit.md'']), (''forbidden_actions'', JList [JStr ''accept checkpoint'', JStr
     ''mutate state.yaml'']), (''may_accept'', JBool False), (''may_mutate_canonical_state'', JBool
     False)]), (''provider_policy'', JObj [(''source_access'', JStr ''unknown''),
     (''input_delivery'', JStr ''unknown''), (''commands_executable'', JStr ''unknown''),
     (''billing'', JStr ''unknown''), (''token_limit'', JNull), (''fallback'', JStr ''none'')]),
     (''independent_verification'', JObj [(''required'', JBool True), (''roles'', JList [JStr
     ''Tester'', JStr ''Auditor''])]), (''receipts'', JList [JStr ''EV-AUTH'']), (''recovery'', JObj
     [(''preserve_failed_attempts'', JBool True), (''preserve_changed_files'', JBool True),
     (''on_failure'', JStr ''revision''), (''max_attempts'', JInt 2)]), (''parent_acceptance'', JObj
     [(''required'', JBool True), (''authority'', JStr ''Parent Codex''), (''status'', JStr
     ''pending'')])]])]"

lemma governed_template_valid: "reports_valid governed_template"
  by code_simp

definition governed_item :: json where
  "governed_item = hd (items_of governed_template)"

lemma governed_item_in: "governed_item \<in> set (items_of governed_template)"
  unfolding governed_item_def by (rule list.set_sel) code_simp

theorem valid_iff_document_ok_witness:
  "shape_ok governed_template \<and> fields_ok governed_template \<and>
   links_ok (items_of governed_template) (evidence_id ` set (evidence_of governed_template))"
  using valid_iff_document_ok[of governed_template] governed_template_valid by blast

section \<open>Reading a valid document\<close>

lemma valid_item_clean:
  assumes "reports_valid d" "item \<in> set (items_of d)"
  obtains i where "item_clean item i"
  using assms unfolding valid_iff document_ok_def fields_ok_def by (metis in_set_conv_nth)

lemma evidence_id_str:
  assumes "\<forall>j<length es. fst (validate_evidence (es ! j) (indexed ''evidence'' j)) = []" "e \<in> set es"
  shows "fld e ''id'' = JStr (evidence_id e)"
proof -
  from assms obtain j where "fst (validate_evidence e (indexed ''evidence'' j)) = []"
    by (metis in_set_conv_nth)
  then show ?thesis
    by (auto simp: validate_evidence_def evidence_id_def clean elim!: nonblankE split: if_splits)
qed

lemma in_required: "set required \<subseteq> set (keys item) \<Longrightarrow> k \<in> set required \<Longrightarrow> has_key item k"
  by (auto simp: has_key_iff)

lemma governed_authority:
  assumes "item_clean item i" "set governed_required \<subseteq> set (keys item)"
  shows "is_obj (fld item ''authority'') \<and> fld (fld item ''authority'') ''may_accept'' = JBool False \<and>
    fld (fld item ''authority'') ''may_mutate_canonical_state'' = JBool False \<and>
    nonblank (fld (fld item ''authority'') ''receipt_id'') \<and>
    (\<exists>s. fld (fld item ''authority'') ''source'' = JStr s \<and>
       (fld (fld item ''authority'') ''provenance'' = JStr ''operator_issued'' \<and> starts_with s ''operator:'' \<or>
        fld (fld item ''authority'') ''provenance'' = JStr ''parent_issued'' \<and> starts_with s ''parent:''))"
proof -
  have "has_key item ''authority''"
    by (rule in_required[OF assms(2)]) (simp add: governed_required_def)
  note v = item_clean_lists(4)[OF assms(1) this]
  then have "is_obj (fld item ''authority'')"
    by (cases "is_obj (fld item ''authority'')") (simp_all add: validate_authority_def)
  with v show ?thesis
    by (auto simp: validate_authority_def Let_def clean elim!: nonblankE split: if_splits)
qed

lemma governed_receipt:
  assumes "item_clean item i" "set governed_required \<subseteq> set (keys item)"
  shows "fld (fld item ''parent_acceptance'') ''status'' = JStr ''pending''"
proof -
  have "has_key item ''parent_acceptance''"
    by (rule in_required[OF assms(2)]) (simp add: governed_required_def)
  with item_clean_lists(9)[OF assms(1)] show ?thesis
    by (auto simp: validate_parent_acceptance_def Let_def clean split: if_splits)
qed

text \<open>
  C2: in a valid document a governed item carries an authority that cannot accept work or
  change canonical state, was issued by the operator or the parent under a matching source,
  grants every path the item may write, and is backed by a receipt that is in the evidence;
  its acceptance stays pending with the parent.
\<close>

theorem governed_item_authority:
  assumes "reports_valid d" "item \<in> set (items_of d)" "fld item ''clarity_tier'' = JStr ''governed''"
  shows "fld (fld item ''authority'') ''may_accept'' = JBool False \<and>
    fld (fld item ''authority'') ''may_mutate_canonical_state'' = JBool False \<and>
    (\<exists>s. fld (fld item ''authority'') ''source'' = JStr s \<and>
       (fld (fld item ''authority'') ''provenance'' = JStr ''operator_issued'' \<and> starts_with s ''operator:'' \<or>
        fld (fld item ''authority'') ''provenance'' = JStr ''parent_issued'' \<and> starts_with s ''parent:'')) \<and>
    set (the_list (fld (fld item ''scope'') ''write''))
      \<subseteq> set (the_list (fld (fld item ''authority'') ''write_scope'')) \<and>
    (\<exists>e \<in> set (evidence_of d). fld e ''id'' = fld (fld item ''authority'') ''receipt_id'' \<and>
       fld e ''kind'' = JStr ''receipt'') \<and>
    fld (fld item ''parent_acceptance'') ''status'' = JStr ''pending''"
proof -
  obtain i where i: "item_clean item i" using valid_item_clean[OF assms(1,2)] .
  have keys: "set governed_required \<subseteq> set (keys item)"
    using item_clean_lists(6)[OF i] assms(3) by (simp add: tier_required_def)
  have refs: "item_references_ok (evidence_of d) item"
    and ids: "\<forall>e\<in>set (evidence_of d). fld e ''id'' = JStr (evidence_id e)"
    using assms(1,2) evidence_id_str unfolding valid_iff document_ok_def fields_ok_def by auto
  note auth = governed_authority[OF i keys]
  then obtain r where r: "fld (fld item ''authority'') ''receipt_id'' = JStr r" "\<not> blank r"
    by (auto elim!: nonblankE)
  have "JStr r \<in> set (the_list (fld item ''receipts''))"
    using refs auth r(1) by (simp add: item_references_ok_def)
  then have "r \<in> set (string_entries (fld item ''receipts''))"
    using r(2) by (force simp: string_entries_def)
  then obtain e where "e \<in> set (evidence_of d)" "evidence_id e = r" "fld e ''kind'' = JStr ''receipt''"
    using refs unfolding item_references_ok_def by blast
  with ids r(1) have "\<exists>e\<in>set (evidence_of d). fld e ''id'' = fld (fld item ''authority'') ''receipt_id'' \<and>
      fld e ''kind'' = JStr ''receipt''" by auto
  moreover have "set (the_list (fld (fld item ''scope'') ''write''))
      \<subseteq> set (the_list (fld (fld item ''authority'') ''write_scope''))"
    using refs auth by (simp add: item_references_ok_def)
  ultimately show ?thesis
    using auth governed_receipt[OF i keys] by blast
qed

theorem governed_item_authority_witness:
  "fld (fld governed_item ''authority'') ''may_accept'' = JBool False"
proof -
  have "fld governed_item ''clarity_tier'' = JStr ''governed''" by code_simp
  from governed_item_authority[OF governed_template_valid governed_item_in this] show ?thesis by blast
qed

text \<open>
  Every work item of a valid document has one of the three clarity tiers, all the fields
  its tier requires and no others than those of the schema.
\<close>

theorem valid_item_tier:
  assumes "reports_valid d" "item \<in> set (items_of d)"
  shows "(\<exists>tier. fld item ''clarity_tier'' = JStr tier \<and> tier \<in> set clarity_tiers) \<and>
    set (tier_required (fld item ''clarity_tier'')) \<subseteq> set (keys item) \<and>
    set (keys item) \<subseteq> set base_item_keys"
proof -
  obtain i where "item_clean item i" using valid_item_clean[OF assms] .
  from item_clean_lists(6,7,8)[OF this] show ?thesis by (auto elim!: nonblankE)
qed

theorem valid_item_tier_witness: "has_key governed_item ''authority''"
proof -
  have "''authority'' \<in> set (tier_required (fld governed_item ''clarity_tier''))" by code_simp
  then show ?thesis
    using valid_item_tier[OF governed_template_valid governed_item_in] by (auto simp: has_key_iff)
qed

section \<open>Cycles\<close>

text \<open>
  C3: the cycle search always ends with an answer; it names no node exactly when the
  relation is acyclic, and every node it names lies on a cycle.
\<close>

theorem cycle_members_correct:
  "\<exists>C. cycle_members E = Some C \<and> (C = [] \<longleftrightarrow> acyclic (edge_rel E)) \<and>
     (\<forall>n\<in>set C. (n, n) \<in> (edge_rel E)\<^sup>+)"
  using cycle_members_spec unfolding on_cycles_def by blast

theorem cycle_members_correct_witness:
  "(''a'', ''a'') \<in> (edge_rel [(''a'', [''b'']), (''b'', [''a''])])\<^sup>+"
proof -
  have "cycle_members [(''a'', [''b'']), (''b'', [''a''])] = Some [''a'', ''b'']" by code_simp
  with cycle_members_correct[of "[(''a'', [''b'']), (''b'', [''a''])]"] show ?thesis by simp
qed

section \<open>Exceptions\<close>

lemma gather_Inl: "gather rs = Inl e \<Longrightarrow> \<exists>r\<in>set rs. r = Inl e"
  by (induction rs) (auto simp: bind_eq_Inl)

lemma validate_fact_Inl: "validate_fact mode v path = Inl e \<Longrightarrow> e = TypeError"
  by (auto simp: validate_fact_def Let_def split: if_splits)

lemma validate_identity_Inl: "validate_identity v path = Inl e \<Longrightarrow> e = TypeError"
  by (auto simp: validate_identity_def Let_def simp del: gather.simps split: if_splits
      dest!: gather_Inl dest: validate_fact_Inl validate_fact_Inl[OF sym])

lemma validate_item_Inl: "validate_item v i = Inl e \<Longrightarrow> e = TypeError"
  by (auto simp: validate_item_def Let_def bind_eq_Inl simp del: gather.simps split: if_splits
      dest!: gather_Inl dest: validate_identity_Inl validate_identity_Inl[OF sym])

lemma item_loop_Inl: "item_loop i xs ids by_id = Inl e \<Longrightarrow> e = TypeError"
  by (induction i xs ids by_id rule: item_loop.induct)
    (auto simp: bind_eq_Inl dest: validate_item_Inl split: option.splits prod.splits)

lemma item_loop_raises:
  assumes "item \<in> set xs" "validate_item item = (\<lambda>i. Inl TypeError)"
  shows "item_loop i xs ids by_id = Inl TypeError"
proof (cases "item_loop i xs ids by_id")
  case (Inl e)
  then show ?thesis using item_loop_Inl by blast
next
  case (Inr r)
  moreover have "item_loop i xs ids by_id \<noteq> Inr r" for r
    using assms
    by (induction i xs ids by_id arbitrary: r rule: item_loop.induct)
      (auto simp: bind_eq_Inr split: option.splits)
  ultimately show ?thesis by blast
qed

text \<open>
  A document in which some work item has a list or an object for its \<open>clarity_tier\<close> gets
  no receipt at all: the lookup of the tier's required fields raises \<open>TypeError\<close>.
\<close>

theorem unhashable_tier_raises:
  assumes "is_obj d" "item \<in> set (items_of d)" "is_obj item" "\<not> hashable (fld item ''clarity_tier'')"
  shows "validate_document d = Inl TypeError"
proof -
  have "validate_item item = (\<lambda>i. Inl TypeError)"
    using assms(3,4) by (simp add: validate_item_def fun_eq_iff)
  from item_loop_raises[OF assms(2) this] assms(1) show ?thesis
    by (simp add: validate_document_def document_errors_def Let_def items_of_def split: prod.splits)
qed

theorem unhashable_tier_raises_witness:
  "validate_document (upd ''work_items'' (JList [JObj [(''id'', JStr ''W-1''), (''clarity_tier'', JList [])]])
     governed_template) = Inl TypeError"
  by (rule unhashable_tier_raises[where item = "JObj [(''id'', JStr ''W-1''), (''clarity_tier'', JList [])]"])
    code_simp+

end
