(* ===== verification/PyTime.thy ===== *)
theory PyTime
  imports PyText
begin

text \<open>
  UTC timestamps. The scripts parse \<open>YYYY-MM-DDTHH:MM:SS[.f+]Z\<close> with a regular expression
  and \<open>datetime.fromisoformat\<close>, compare and add whole seconds, and print with
  \<open>isoformat\<close>. A \<open>datetime\<close> is the number of microseconds since day 0 of the proleptic
  Gregorian ordinals (\<open>date.toordinal\<close>); years run from 1 to 9999, and leaving them raises
  \<open>OverflowError\<close>. Digits are ASCII digits. The last lemmas are the round trip: printing
  an instant and parsing it gives the instant back.
\<close>

section \<open>The proleptic Gregorian calendar\<close>

definition is_leap :: "int \<Rightarrow> bool" where
  "is_leap y = (4 dvd y \<and> (\<not> 100 dvd y \<or> 400 dvd y))"

definition days_in_month :: "int \<Rightarrow> int \<Rightarrow> int" where
  "days_in_month y m = (if m = 2 then (if is_leap y then 29 else 28)
     else if m = 4 \<or> m = 6 \<or> m = 9 \<or> m = 11 then 30 else 31)"

definition days_before_year :: "int \<Rightarrow> int" where
  "days_before_year y = (y - 1) * 365 + (y - 1) div 4 - (y - 1) div 100 + (y - 1) div 400"

function days_before_month :: "int \<Rightarrow> int \<Rightarrow> int" where
  "days_before_month y m =
     (if m \<le> 1 then 0 else days_before_month y (m - 1) + days_in_month y (m - 1))"
  by pat_completeness auto
termination
  by (relation "measure (\<lambda>(y, m). nat m)") auto

definition ymd2ord :: "int \<Rightarrow> int \<Rightarrow> int \<Rightarrow> int" where
  "ymd2ord y m d = days_before_year y + days_before_month y m + d"

definition valid_date :: "int \<Rightarrow> int \<Rightarrow> int \<Rightarrow> bool" where
  "valid_date y m d = (1 \<le> y \<and> y \<le> 9999 \<and> 1 \<le> m \<and> m \<le> 12 \<and> 1 \<le> d \<and> d \<le> days_in_month y m)"

text \<open>The date of an ordinal: the last year, then the last month, that starts before it.\<close>

function year_from :: "int \<Rightarrow> int \<Rightarrow> int" where
  "year_from n y = (if y \<le> 1 \<or> days_before_year y < n then y else year_from n (y - 1))"
  by pat_completeness auto
termination
  by (relation "measure (\<lambda>(n, y). nat y)") auto

function month_from :: "int \<Rightarrow> int \<Rightarrow> int \<Rightarrow> int" where
  "month_from y k m = (if m \<le> 1 \<or> days_before_month y m < k then m else month_from y k (m - 1))"
  by pat_completeness auto
termination
  by (relation "measure (\<lambda>(y, k, m). nat m)") auto

declare days_before_month.simps [simp del] year_from.simps [simp del] month_from.simps [simp del]

definition ymd_in_month :: "int \<Rightarrow> int \<Rightarrow> int \<Rightarrow> int \<times> int \<times> int" where
  "ymd_in_month y k m = (y, m, k - days_before_month y m)"

definition ymd_in_year :: "int \<Rightarrow> int \<Rightarrow> int \<times> int \<times> int" where
  "ymd_in_year k y = ymd_in_month y k (month_from y k 12)"

definition ymd_from_year :: "int \<Rightarrow> int \<Rightarrow> int \<times> int \<times> int" where
  "ymd_from_year n y = ymd_in_year (n - days_before_year y) y"

definition ord2ymd :: "int \<Rightarrow> int \<times> int \<times> int" where
  "ord2ymd n = ymd_from_year n (year_from n (n div 365 + 1))"

lemmas ord2ymd_defs = ord2ymd_def ymd_from_year_def ymd_in_year_def ymd_in_month_def

lemma days_before_year_1 [simp]: "days_before_year 1 = 0"
  by (simp add: days_before_year_def)

lemma div_succ:
  fixes y k :: int
  assumes "1 < k"
  shows "y div k = (y - 1) div k + (if k dvd y then 1 else 0)"
proof (cases "k dvd y")
  case True
  then obtain q where q: "y = k * q" by blast
  have "(y - 1) div k = q - 1"
    by (rule int_div_pos_eq[where r = "k - 1"]) (use assms q in \<open>simp_all add: algebra_simps\<close>)
  with q assms show ?thesis by simp
next
  case False
  then have "y mod k \<noteq> 0" by (simp add: dvd_eq_mod_eq_0)
  moreover have "0 \<le> y mod k" "y mod k < k" using assms by simp_all
  ultimately have "0 \<le> y mod k - 1" "y mod k - 1 < k" by linarith+
  then have "(y - 1) div k = y div k"
    by (rule int_div_pos_eq[rotated]) (simp add: algebra_simps)
  with False show ?thesis by simp
qed

lemma leap_arith:
  fixes a b c p :: int
  assumes "P100 \<Longrightarrow> P4" "P400 \<Longrightarrow> P100"
  shows "p * 365 + 365 + (a + (if P4 then 1 else 0)) - (b + (if P100 then 1 else 0)) +
      (c + (if P400 then 1 else 0)) =
    p * 365 + a - b + c + (if P4 \<and> (\<not> P100 \<or> P400) then 366 else 365)"
  using assms by (cases P4; cases P100; cases P400) auto

lemma days_before_year_succ:
  "days_before_year (y + 1) = days_before_year y + (if is_leap y then 366 else 365)"
proof -
  have sub: "100 dvd y \<Longrightarrow> 4 dvd y" "400 dvd y \<Longrightarrow> 100 dvd y"
    by (erule dvd_trans[rotated], simp)+
  define p where "p = y - 1"
  define a b c where abc: "a = p div 4" "b = p div 100" "c = p div 400"
  have "days_before_year (y + 1) = p * 365 + 365 + y div 4 - y div 100 + y div 400"
    "days_before_year y = p * 365 + a - b + c"
    by (simp_all add: days_before_year_def p_def abc)
  moreover have "y div 4 = a + (if 4 dvd y then 1 else 0)" "y div 100 = b + (if 100 dvd y then 1 else 0)"
    "y div 400 = c + (if 400 dvd y then 1 else 0)"
    unfolding abc p_def by (rule div_succ, simp)+
  ultimately show ?thesis
    using leap_arith[of "100 dvd y" "4 dvd y" "400 dvd y" p a b c] sub by (simp only: is_leap_def)
qed

lemma days_before_year_mono: "y \<le> z \<Longrightarrow> days_before_year y \<le> days_before_year z"
proof (induction z rule: int_ge_induct)
  case (step i)
  have "days_before_year i \<le> days_before_year (i + 1)"
    by (simp add: days_before_year_succ)
  with step.IH show ?case by (rule order_trans)
qed simp

lemma days_before_year_ge: "1 \<le> y \<Longrightarrow> 365 * (y - 1) \<le> days_before_year y"
proof -
  assume "1 \<le> y"
  then have "(y - 1) div 100 \<le> (y - 1) div 4" "0 \<le> (y - 1) div 400"
    by (simp_all add: zdiv_mono2 pos_imp_zdiv_nonneg_iff)
  then show ?thesis by (simp add: days_before_year_def)
qed

lemma days_before_month_le [simp]: "m \<le> 1 \<Longrightarrow> days_before_month y m = 0"
  by (simp add: days_before_month.simps)

lemma days_before_month_succ:
  "1 \<le> m \<Longrightarrow> days_before_month y (m + 1) = days_before_month y m + days_in_month y m"
  by (subst days_before_month.simps) simp

lemma days_before_month_year:
  "days_before_month y 12 + days_in_month y 12 = (if is_leap y then 366 else 365)"
  by (simp add: days_before_month.simps[of y "numeral n" for n] days_in_month_def)

lemma year_from_lower: "1 \<le> y \<Longrightarrow> 1 \<le> n \<Longrightarrow>
  1 \<le> year_from n y \<and> year_from n y \<le> y \<and> days_before_year (year_from n y) < n"
proof (induction n y rule: year_from.induct)
  case (1 n y)
  then show ?case
    by (cases "y = 1"; cases "days_before_year y < n")
      (auto simp: year_from.simps[of n y] year_from.simps[of n 1])
qed

lemma year_from_upper:
  "n \<le> days_before_year (y + 1) \<Longrightarrow> n \<le> days_before_year (year_from n y + 1)"
proof (induction n y rule: year_from.induct)
  case (1 n y)
  then show ?case
    by (cases "y \<le> 1 \<or> days_before_year y < n") (auto simp: year_from.simps[of n y])
qed

lemma month_from_lower: "1 \<le> m \<Longrightarrow> 1 \<le> k \<Longrightarrow>
  1 \<le> month_from y k m \<and> month_from y k m \<le> m \<and> days_before_month y (month_from y k m) < k"
proof (induction y k m rule: month_from.induct)
  case (1 y k m)
  then show ?case
    by (cases "m = 1"; cases "days_before_month y m < k")
      (auto simp: month_from.simps[of y k m] month_from.simps[of y k 1])
qed

lemma month_from_upper:
  "1 \<le> m \<Longrightarrow> k \<le> days_before_month y m + days_in_month y m \<Longrightarrow>
   k \<le> days_before_month y (month_from y k m) + days_in_month y (month_from y k m)"
proof (induction y k m rule: month_from.induct)
  case (1 y k m)
  then show ?case
    by (cases "m \<le> 1 \<or> days_before_month y m < k")
      (auto simp: month_from.simps[of y k m] days_before_month_succ[of "m - 1" y, simplified])
qed

lemma ord2ymd_correct:
  assumes "1 \<le> n" "n \<le> days_before_year 10000" and eq: "ord2ymd n = (y, m, d)"
  shows "valid_date y m d \<and> ymd2ord y m d = n"
proof -
  define k where "k = n - days_before_year y"
  define q where "q = n div 365"
  have y: "y = year_from n (q + 1)" and m: "m = month_from y k 12"
    and d: "d = k - days_before_month y m"
    using eq by (auto simp: ord2ymd_defs k_def q_def)
  have q: "0 \<le> q" using assms(1) by (simp add: q_def pos_imp_zdiv_nonneg_iff)
  have "n < 365 * (q + 1)"
    using pos_mod_bound[of 365 n] div_mult_mod_eq[of n 365] by (simp add: q_def algebra_simps)
  also have "\<dots> \<le> days_before_year (q + 1 + 1)"
    using days_before_year_ge[of "q + 2"] q by (simp add: algebra_simps)
  finally have up: "n \<le> days_before_year (y + 1)"
    unfolding y by (intro year_from_upper) simp
  have low: "1 \<le> y" "days_before_year y < n"
    using year_from_lower[of "q + 1" n] assms(1) q by (simp_all add: y)
  have "y < 10000"
  proof (rule ccontr)
    assume "\<not> y < 10000"
    then have "days_before_year 10000 \<le> days_before_year y"
      by (intro days_before_year_mono) auto
    with low(2) assms(2) show False by simp
  qed
  have k1: "1 \<le> k" and nk: "n = days_before_year y + k"
    using low by (auto simp: k_def)
  have "k \<le> days_before_month y 12 + days_in_month y 12"
    using up nk days_before_year_succ[of y] days_before_month_year[of y] by simp
  then have "k \<le> days_before_month y m + days_in_month y m"
    unfolding m by (rule month_from_upper[rotated]) simp
  moreover have "1 \<le> m" "m \<le> 12" "days_before_month y m < k"
    using month_from_lower[of 12 k y] k1 by (simp_all add: m)
  ultimately show ?thesis
    using low \<open>y < 10000\<close> nk by (auto simp: valid_date_def ymd2ord_def d)
qed

lemma ymd2ord_pos: "valid_date y m d \<Longrightarrow> 1 \<le> ymd2ord y m d"
proof -
  have nonneg: "0 \<le> days_before_month y m" for y m
    by (induction y m rule: days_before_month.induct)
      (subst days_before_month.simps, auto simp: days_in_month_def)
  assume "valid_date y m d"
  then show ?thesis
    using days_before_year_ge[of y] nonneg[of y m] by (auto simp: ymd2ord_def valid_date_def)
qed

section \<open>Parsing\<close>

definition is_digit :: "char \<Rightarrow> bool" where
  "is_digit c = (48 \<le> code c \<and> code c \<le> 57)"

definition digit_val :: "char \<Rightarrow> int" where
  "digit_val c = code c - 48"

text \<open>Match a template in which \<open>9\<close> stands for a digit; return the digits and the rest.\<close>

fun scan :: "string \<Rightarrow> string \<Rightarrow> (int list \<times> string) option" where
  "scan [] s = Some ([], s)"
| "scan (t # ts) [] = None"
| "scan (t # ts) (c # s) =
     (if t = CHR ''9'' then
        (if is_digit c then map_option (\<lambda>(ds, r). (digit_val c # ds, r)) (scan ts s) else None)
      else if c = t then scan ts s else None)"

definition num :: "int list \<Rightarrow> int" where
  "num ds = foldl (\<lambda>a d. 10 * a + d) 0 ds"

text \<open>the fraction: \<open>Z\<close>, or a point, digits (the first six count) and \<open>Z\<close>\<close>

definition fraction :: "string \<Rightarrow> int option" where
  "fraction r = (if r = ''Z'' then Some 0
     else case r of [] \<Rightarrow> None
       | c # f \<Rightarrow> if c = CHR ''.'' \<and> 2 \<le> length f \<and> last f = CHR ''Z'' \<and> list_all is_digit (butlast f)
           then Some (num (take 6 (map digit_val (butlast f) @ replicate 6 0))) else None)"

definition us_per_day :: int where
  "us_per_day = 86400000000"

definition instant :: "int \<Rightarrow> int \<Rightarrow> int \<Rightarrow> int \<Rightarrow> int \<Rightarrow> int \<Rightarrow> int \<Rightarrow> int" where
  "instant y m d h mi s us =
     ymd2ord y m d * us_per_day + ((h * 60 + mi) * 60 + s) * 1000000 + us"

definition instant_of :: "int list \<Rightarrow> int \<Rightarrow> int option" where
  "instant_of ds us = (let y = num (take 4 ds); m = num (take 2 (drop 4 ds));
     d = num (take 2 (drop 6 ds)); h = num (take 2 (drop 8 ds));
     mi = num (take 2 (drop 10 ds)); s = num (take 2 (drop 12 ds)) in
     if valid_date y m d \<and> h \<le> 23 \<and> mi \<le> 59 \<and> s \<le> 59
     then Some (instant y m d h mi s us) else None)"

text \<open>
  \<open>TIME_RE.fullmatch(text)\<close> followed by \<open>datetime.fromisoformat(text[:-1] + "+00:00")\<close>;
  \<open>None\<close> is a failed match or a \<open>ValueError\<close>.
\<close>

definition parse_time :: "string \<Rightarrow> int option" where
  "parse_time s = (case scan ''9999-99-99T99:99:99'' s of None \<Rightarrow> None
     | Some (ds, r) \<Rightarrow> (case fraction r of None \<Rightarrow> None | Some us \<Rightarrow> instant_of ds us))"

text \<open>The regular expression without a fraction.\<close>

definition parse_seconds :: "string \<Rightarrow> int option" where
  "parse_seconds s = (case scan ''9999-99-99T99:99:99Z'' s of None \<Rightarrow> None
     | Some (ds, r) \<Rightarrow> if r = [] then instant_of ds 0 else None)"

section \<open>Adding seconds and printing\<close>

definition end_of_time :: int where
  "end_of_time = (days_before_year 10000 + 1) * us_per_day"

definition add_seconds :: "int \<Rightarrow> int \<Rightarrow> int result" where
  "add_seconds t n = (let u = t + n * 1000000 in if u < end_of_time then Inr u else Inl OverflowError)"

definition pad2 :: "int \<Rightarrow> string" where
  "pad2 n = [digit_char (n div 10), digit_char (n mod 10)]"

definition pad4 :: "int \<Rightarrow> string" where
  "pad4 n = pad2 (n div 100) @ pad2 (n mod 100)"

definition pad6 :: "int \<Rightarrow> string" where
  "pad6 n = pad2 (n div 10000) @ pad4 (n mod 10000)"

text \<open>
  \<open>isoformat(timespec="microseconds")\<close> with \<open>.000000+00:00\<close> and \<open>+00:00\<close> replaced by
  \<open>Z\<close>
\<close>

definition date_text :: "int \<times> int \<times> int \<Rightarrow> string" where
  "date_text ymd = (case ymd of (y, m, d) \<Rightarrow> pad4 y @ ''-'' @ pad2 m @ ''-'' @ pad2 d @ ''T'')"

definition clock_text :: "int \<Rightarrow> string" where
  "clock_text sec =
     pad2 (sec div 3600) @ '':'' @ pad2 (sec div 60 mod 60) @ '':'' @ pad2 (sec mod 60)"

definition fraction_text :: "int \<Rightarrow> string" where
  "fraction_text us = (if us = 0 then ''Z'' else ''.'' @ pad6 us @ ''Z'')"

definition time_text :: "int \<Rightarrow> string" where
  "time_text t = date_text (ord2ymd (t div us_per_day)) @
     clock_text (t mod us_per_day div 1000000) @ fraction_text (t mod us_per_day mod 1000000)"

text \<open>\<open>_time_text(t + timedelta(seconds=n))\<close>\<close>

fun time_text_result :: "int result \<Rightarrow> string result" where
  "time_text_result (Inl e) = Inl e"
| "time_text_result (Inr u) = Inr (time_text u)"

lemma time_text_result_eq_Inr [result_simps]:
  "time_text_result r = Inr s \<longleftrightarrow> (\<exists>u. r = Inr u \<and> s = time_text u)"
  by (cases r) auto

lemma code_digit_char [simp]: "0 \<le> n \<Longrightarrow> n < 10 \<Longrightarrow> code (digit_char n) = 48 + n"
  by (simp add: code_def digit_char_def of_char_mod_256)

lemma is_digit_digit_char [simp]: "0 \<le> n \<Longrightarrow> n < 10 \<Longrightarrow> is_digit (digit_char n)"
  by (simp add: is_digit_def)

lemma digit_val_digit_char [simp]: "0 \<le> n \<Longrightarrow> n < 10 \<Longrightarrow> digit_val (digit_char n) = n"
  by (simp add: digit_val_def)

lemma num_Cons2: "num [a, b] = 10 * a + b" "num [a, b, c, d] = 1000 * a + 100 * b + 10 * c + d"
  by (simp_all add: num_def)

lemma num_Cons6: "num [a, b, c, d, e, f] =
    100000 * a + 10000 * b + 1000 * c + 100 * d + 10 * e + f"
  by (simp add: num_def)

section \<open>Round trip\<close>

lemma scan_pad2: "0 \<le> n \<Longrightarrow> n < 100 \<Longrightarrow>
  scan (CHR ''9'' # CHR ''9'' # ts) (pad2 n @ s) =
  map_option (\<lambda>(ds, r). (n div 10 # n mod 10 # ds, r)) (scan ts s)"
  by (cases "scan ts s") (auto simp: pad2_def)

lemma scan_pad4: "0 \<le> n \<Longrightarrow> n < 10000 \<Longrightarrow>
  scan (CHR ''9'' # CHR ''9'' # CHR ''9'' # CHR ''9'' # ts) (pad4 n @ s) =
  map_option (\<lambda>(ds, r). ([n div 1000, n div 100 mod 10, n mod 100 div 10, n mod 10] @ ds, r))
    (scan ts s)"
proof -
  have two: "scan (CHR ''9'' # CHR ''9'' # CHR ''9'' # CHR ''9'' # ts) (pad2 a @ pad2 b @ s) =
      map_option (\<lambda>(ds, r). ([a div 10, a mod 10, b div 10, b mod 10] @ ds, r)) (scan ts s)"
    if "0 \<le> a" "a < 100" "0 \<le> b" "b < 100" for a b
    using that by (cases "scan ts s") (simp_all add: scan_pad2 split: prod.splits)
  assume "0 \<le> n" "n < 10000"
  then have "0 \<le> n div 100" "n div 100 < 100" "0 \<le> n mod 100" "n mod 100 < 100"
    by simp_all
  then have "scan (CHR ''9'' # CHR ''9'' # CHR ''9'' # CHR ''9'' # ts) (pad2 (n div 100) @ pad2 (n mod 100) @ s) =
      map_option (\<lambda>(ds, r). ([n div 100 div 10, n div 100 mod 10, n mod 100 div 10, n mod 100 mod 10] @ ds, r)) (scan ts s)"
    by (rule two)
  moreover have "n div 100 div 10 = n div 1000" "n mod 100 mod 10 = n mod 10"
    by (simp_all add: zdiv_zmult2_eq[symmetric] mod_mod_cancel)
  ultimately show ?thesis
    by (simp only: pad4_def append_assoc)
qed

lemma num_pad2: "num [n div 10, n mod 10] = n"
  by (simp add: num_Cons2)

lemma num_4: "num [a, b, c, d] = 100 * num [a, b] + num [c, d]"
  by (simp add: num_Cons2)

lemma num_6: "num [a, b, c, d, e, f] = 10000 * num [a, b] + num [c, d, e, f]"
  by (simp add: num_Cons2 num_Cons6)

lemma num_pad4: "num [n div 1000, n div 100 mod 10, n mod 100 div 10, n mod 10] = n"
proof -
  have "n div 1000 = n div 100 div 10" "n mod 10 = n mod 100 mod 10"
    by (simp_all add: zdiv_zmult2_eq[symmetric] mod_mod_cancel)
  then have "num [n div 1000, n div 100 mod 10, n mod 100 div 10, n mod 10] =
      100 * (n div 100) + n mod 100"
    by (simp only: num_4 num_pad2)
  also have "\<dots> = n" by (simp only: mult_div_mod_eq)
  finally show ?thesis .
qed

lemma num_pad6: "num [n div 10000 div 10, n div 10000 mod 10, n mod 10000 div 1000,
    n mod 10000 div 100 mod 10, n mod 10000 mod 100 div 10, n mod 10000 mod 10] = n"
  by (simp only: num_6 num_pad2 num_pad4 mult_div_mod_eq)

lemma pad2_digits: "0 \<le> n \<Longrightarrow> n < 100 \<Longrightarrow> list_all is_digit (pad2 n) \<and> map digit_val (pad2 n) = [n div 10, n mod 10]"
  by (auto simp: pad2_def)

lemma pad4_digits: "0 \<le> n \<Longrightarrow> n < 10000 \<Longrightarrow> list_all is_digit (pad4 n) \<and>
    map digit_val (pad4 n) = [n div 1000, n div 100 mod 10, n mod 100 div 10, n mod 10]"
  using pad2_digits[of "n div 100"] pad2_digits[of "n mod 100"]
  by (simp add: pad4_def zdiv_zmult2_eq[symmetric] mod_mod_cancel)

lemma pad6_digits: "0 \<le> n \<Longrightarrow> n < 1000000 \<Longrightarrow> list_all is_digit (pad6 n) \<and>
    map digit_val (pad6 n) = [n div 10000 div 10, n div 10000 mod 10, n mod 10000 div 1000,
      n mod 10000 div 100 mod 10, n mod 10000 mod 100 div 10, n mod 10000 mod 10]"
  using pad2_digits[of "n div 10000"] pad4_digits[of "n mod 10000"]
  by (simp add: pad6_def)

lemma fraction_digits:
  "length ds = 6 \<Longrightarrow> list_all is_digit ds \<Longrightarrow>
   fraction (CHR ''.'' # ds @ ''Z'') = Some (num (map digit_val ds))"
  by (simp add: fraction_def)

lemma fraction_pad6:
  assumes "0 \<le> n" "n < 1000000"
  shows "fraction (CHR ''.'' # pad6 n @ ''Z'') = Some n"
proof -
  have "length (pad6 n) = 6" by (simp add: pad6_def pad4_def pad2_def)
  then show ?thesis
    using pad6_digits[OF assms] by (simp only: fraction_digits num_pad6 simp_thms)
qed

lemma instant_divmod:
  assumes "r < us_per_day"
  shows "instant y m d (r div 3600000000) (r div 60000000 mod 60) (r div 1000000 mod 60) (r mod 1000000) =
    ymd2ord y m d * us_per_day + r"
proof -
  have "r div 60000000 = r div 1000000 div 60" "r div 3600000000 = r div 1000000 div 60 div 60"
    by (simp_all add: zdiv_zmult2_eq[symmetric])
  then have "((r div 3600000000 * 60 + r div 60000000 mod 60) * 60 + r div 1000000 mod 60) * 1000000
      + r mod 1000000 = r"
    by (simp only: div_mult_mod_eq)
  then show ?thesis by (simp add: instant_def)
qed

lemma valid_date_bounds: "valid_date y m d \<Longrightarrow>
  0 \<le> y \<and> y < 10000 \<and> 0 \<le> m \<and> m < 100 \<and> 0 \<le> d \<and> d < 100"
  by (auto simp: valid_date_def days_in_month_def split: if_splits)

text \<open>Printing an instant and parsing the text gives the instant back.\<close>

lemma parse_time_text:
  assumes "us_per_day \<le> t" "t < end_of_time"
  shows "parse_time (time_text t) = Some t"
proof -
  define n r where "n = t div us_per_day" and "r = t mod us_per_day"
  have t: "t = n * us_per_day + r" and r: "r < us_per_day"
    by (simp_all add: n_def r_def us_per_day_def)
  have n: "1 \<le> n" "n \<le> days_before_year 10000"
    using assms by (simp_all add: n_def us_per_day_def end_of_time_def
        div_greater_zero_iff Suc_le_eq less_mult_imp_div_less flip: less_Suc_eq_le)
  obtain y m d where ymd: "ord2ymd n = (y, m, d)" by (metis prod_cases3)
  have ok: "valid_date y m d" and ord: "ymd2ord y m d = n"
    using ord2ymd_correct[OF n ymd] by simp_all
  define h mi s where "h = r div 3600000000" and "mi = r div 60000000 mod 60"
    and "s = r div 1000000 mod 60"
  have r0: "0 \<le> r" by (simp add: r_def us_per_day_def)
  then have hms0: "0 \<le> h" "0 \<le> mi" "0 \<le> s"
    by (simp_all add: h_def mi_def s_def pos_imp_zdiv_nonneg_iff)
  have hms: "h \<le> 23" "mi \<le> 59" "s \<le> 59"
    using r by (auto simp: h_def mi_def s_def us_per_day_def less_mult_imp_div_less
        simp flip: less_Suc_eq_le)
  have shape: "time_text t = pad4 y @ ''-'' @ pad2 m @ ''-'' @ pad2 d @ ''T'' @ pad2 h @ '':'' @
      pad2 mi @ '':'' @ pad2 s @ (if r mod 1000000 = 0 then ''Z'' else ''.'' @ pad6 (r mod 1000000) @ ''Z'')"
    by (simp add: time_text_def date_text_def clock_text_def fraction_text_def ymd h_def mi_def s_def
        zdiv_zmult2_eq[symmetric] flip: n_def r_def)
  have "fraction (if r mod 1000000 = 0 then ''Z'' else ''.'' @ pad6 (r mod 1000000) @ ''Z'')
      = Some (r mod 1000000)"
    using fraction_pad6[of "r mod 1000000"] by (auto simp: fraction_def)
  moreover have "instant_of ([y div 1000, y div 100 mod 10, y mod 100 div 10, y mod 10, m div 10, m mod 10,
      d div 10, d mod 10, h div 10, h mod 10, mi div 10, mi mod 10, s div 10, s mod 10]) (r mod 1000000)
      = Some t"
    using ok hms instant_divmod[OF r, of y m d]
    by (simp add: instant_of_def num_pad2 num_pad4 t ord flip: h_def mi_def s_def)
  ultimately show ?thesis
    using valid_date_bounds[OF ok] hms hms0
    by (simp add: parse_time_def shape scan_pad4 scan_pad2)
qed

section \<open>Range of parsed instants\<close>

lemma digit_val_bounds: "is_digit c \<Longrightarrow> 0 \<le> digit_val c" "is_digit c \<Longrightarrow> digit_val c \<le> 9"
  by (simp_all add: is_digit_def digit_val_def)

lemma num_snoc: "num (ds @ [d]) = 10 * num ds + d"
  by (simp add: num_def)

lemma num_bounds: "\<forall>d\<in>set ds. 0 \<le> d \<and> d \<le> 9 \<Longrightarrow> 0 \<le> num ds \<and> num ds < 10 ^ length ds"
proof (induction ds rule: rev_induct)
  case Nil
  then show ?case by (simp add: num_def)
next
  case (snoc d ds)
  then have "0 \<le> num ds" "num ds + 1 \<le> 10 ^ length ds" "0 \<le> d" "d \<le> 9" by auto
  then show ?case by (simp add: num_snoc)
qed

lemma scan_digits: "scan t s = Some (ds, r) \<Longrightarrow> \<forall>d\<in>set ds. 0 \<le> d \<and> d \<le> 9"
  by (induction t s arbitrary: ds r rule: scan.induct)
    (auto split: if_splits dest: digit_val_bounds)

lemma fraction_bounds: "fraction r = Some us \<Longrightarrow> 0 \<le> us \<and> us < 1000000"
proof -
  assume fr: "fraction r = Some us"
  show ?thesis
  proof (cases "r = ''Z''")
    case True
    with fr show ?thesis by (simp add: fraction_def)
  next
    case False
    then obtain c f where r: "r = c # f" and dig: "list_all is_digit (butlast f)"
      and us: "us = num (take 6 (map digit_val (butlast f) @ replicate 6 0))"
      using fr by (auto simp: fraction_def split: list.splits if_splits)
    let ?ds = "take 6 (map digit_val (butlast f) @ replicate 6 0)"
    have "\<forall>d\<in>set ?ds. 0 \<le> d \<and> d \<le> 9"
      using dig by (auto simp: list_all_iff digit_val_bounds dest!: in_set_takeD)
    moreover have "length ?ds = 6" by simp
    ultimately show ?thesis
      using num_bounds[of ?ds] by (simp add: us)
  qed
qed

lemma days_before_month_mono: "m \<le> k \<Longrightarrow> days_before_month y m \<le> days_before_month y k"
proof (induction k rule: int_ge_induct)
  case (step i)
  have "days_before_month y i \<le> days_before_month y (i + 1)"
    by (subst (2) days_before_month.simps) (auto simp: days_in_month_def)
  with step.IH show ?case by (rule order_trans)
qed simp

lemma ymd2ord_le:
  assumes "valid_date y m d"
  shows "ymd2ord y m d \<le> days_before_year 10000"
proof -
  have "days_before_month y m + d \<le> days_before_month y (m + 1)"
    using assms by (simp add: valid_date_def days_before_month_succ)
  also have "\<dots> \<le> days_before_month y (12 + 1)"
    using assms by (intro days_before_month_mono) (simp add: valid_date_def)
  also have "\<dots> = (if is_leap y then 366 else 365)"
    using days_before_month_succ[of 12 y] days_before_month_year[of y] by simp
  finally have "ymd2ord y m d \<le> days_before_year (y + 1)"
    by (simp add: ymd2ord_def days_before_year_succ)
  also have "\<dots> \<le> days_before_year 10000"
    using assms by (intro days_before_year_mono) (simp add: valid_date_def)
  finally show ?thesis .
qed

lemma instant_range:
  assumes "valid_date y m d" "0 \<le> h" "h \<le> 23" "0 \<le> mi" "mi \<le> 59" "0 \<le> s" "s \<le> 59" "0 \<le> us" "us < 1000000"
  shows "us_per_day \<le> instant y m d h mi s us \<and> instant y m d h mi s us < end_of_time"
proof -
  define r where "r = ((h * 60 + mi) * 60 + s) * 1000000 + us"
  have r: "0 \<le> r" "r < us_per_day"
    using assms by (simp_all add: r_def us_per_day_def)
  have "instant y m d h mi s us = us_per_day * ymd2ord y m d + r"
    by (simp add: instant_def r_def)
  then show ?thesis
    using r ymd2ord_pos[OF assms(1)] ymd2ord_le[OF assms(1)]
    by (simp add: end_of_time_def us_per_day_def)
qed

lemma instant_of_range:
  assumes "instant_of ds us = Some t" "\<forall>d\<in>set ds. 0 \<le> d \<and> d \<le> 9" "0 \<le> us" "us < 1000000"
  shows "us_per_day \<le> t \<and> t < end_of_time"
proof -
  have nonneg: "0 \<le> num (take n (drop k ds))" for n k
    using assms(2) num_bounds[of "take n (drop k ds)"] by (auto dest!: in_set_takeD in_set_dropD)
  from assms(1) show ?thesis
    using assms(3,4) instant_range nonneg
    by (auto simp: instant_of_def Let_def split: if_splits)
qed

lemma parse_time_range:
  assumes "parse_time s = Some t"
  shows "us_per_day \<le> t \<and> t < end_of_time"
  using assms instant_of_range scan_digits fraction_bounds
  by (auto simp: parse_time_def split: option.splits)

lemma add_seconds_text:
  assumes "parse_time s = Some t" "add_seconds t n = Inr u" "0 \<le> n"
  shows "parse_time (time_text u) = Some u"
  using assms parse_time_range[OF assms(1)]
  by (intro parse_time_text) (auto simp: add_seconds_def Let_def split: if_splits)

end
