(* ===== verification/Paths.thy ===== *)
theory Paths
  imports PyTime "HOL-Library.Sublist"
begin

text \<open>
  Repository paths and read/write scopes, the first part of \<open>scripts/workgraph_dependencies.py\<close>:
  \<open>_text\<close>, \<open>_time\<close>, \<open>_hash\<close>, \<open>normalize_path\<close>, \<open>paths_overlap\<close>, \<open>_scopes\<close> and
  \<open>scopes_conflict\<close>. Two paths overlap when one is a prefix of the other as a sequence of
  names; two scopes conflict when one writes where the other reads or writes. The locale
  \<open>overlap\<close> is what the conflict test needs of the path test.
\<close>

section \<open>Checked values\<close>

abbreviation dep_error :: "string \<Rightarrow> 'a result" where
  "dep_error c \<equiv> Inl (DependencyError c None)"

definition text_of :: "json \<Rightarrow> string \<Rightarrow> string result" where
  "text_of v c = (if nonblank v then Inr (the_str v) else dep_error c)"

definition time_of :: "json \<Rightarrow> string \<Rightarrow> int result" where
  "time_of v c = bind (text_of v c) (\<lambda>s. case parse_time s of None \<Rightarrow> dep_error c | Some t \<Rightarrow> Inr t)"

definition hash_of :: "json \<Rightarrow> string \<Rightarrow> string result" where
  "hash_of v c = (if is_str v \<and> sha_text (the_str v) then Inr (the_str v) else dep_error c)"

lemma text_of_eq_Inr [result_simps]: "text_of v c = Inr s \<longleftrightarrow> v = JStr s \<and> \<not> blank s"
  by (cases v) (auto simp: text_of_def nonblank_def)

lemma time_of_eq_Inr [result_simps]:
  "time_of v c = Inr t \<longleftrightarrow> (\<exists>s. v = JStr s \<and> \<not> blank s \<and> parse_time s = Some t)"
  by (auto simp: time_of_def result_simps split: option.splits)

lemma hash_of_eq_Inr [result_simps]: "hash_of v c = Inr s \<longleftrightarrow> v = JStr s \<and> sha_text s"
  by (cases v) (auto simp: hash_of_def)

section \<open>Paths\<close>

text \<open>
  \<open>PurePosixPath(text)\<close> for a text without a leading slash: its \<open>parts\<close> leave out empty
  names and single dots, and \<open>as_posix\<close> joins them, \<open>.\<close> standing for no part.
\<close>

definition posix_parts :: "string \<Rightarrow> string list" where
  "posix_parts s = filter (\<lambda>p. p \<noteq> [] \<and> p \<noteq> ''.'') (split_on CHR ''/'' s)"

definition as_posix :: "string list \<Rightarrow> string" where
  "as_posix parts = (if parts = [] then ''.'' else join ''/'' parts)"

definition normalize_path :: "json \<Rightarrow> string result" where
  "normalize_path v = bind (text_of v ''dependency_path_invalid'') (\<lambda>s.
     if CHR 0x5C \<in> set s \<or> starts_with s ''/'' \<or> ends_with s ''/'' \<or> list_ex is_control s
     then dep_error ''dependency_path_invalid''
     else if s \<noteq> as_posix (posix_parts s) \<or> posix_parts s = [] \<or>
       list_ex (\<lambda>p. p \<in> set [[], ''.'', ''..'']) (posix_parts s)
     then dep_error ''dependency_path_invalid''
     else Inr s)"

definition good_path :: "string \<Rightarrow> bool" where
  "good_path s = (normalize_path (JStr s) = Inr s)"

definition paths_overlap :: "string \<Rightarrow> string \<Rightarrow> bool result" where
  "paths_overlap left right =
     bind (normalize_path (JStr left)) (\<lambda>l. bind (normalize_path (JStr right)) (\<lambda>r.
       let first = posix_parts l; second = posix_parts r; size = min (length first) (length second)
       in Inr (take size first = take size second)))"

lemma normalize_path_eq_Inr [result_simps]: "normalize_path v = Inr s \<longleftrightarrow> v = JStr s \<and> good_path s"
proof -
  have "v = JStr s" if "normalize_path v = Inr s"
    using that by (auto simp: normalize_path_def result_simps)
  then show ?thesis by (auto simp: good_path_def)
qed

text \<open>A path that passes is a nonempty sequence of names without \<open>.\<close> and \<open>..\<close>, joined by slashes.\<close>

lemma good_path_names:
  assumes "good_path s"
  shows "split_on CHR ''/'' s = posix_parts s \<and> posix_parts s \<noteq> [] \<and>
    (\<forall>p \<in> set (posix_parts s). p \<notin> {[], ''.'', ''..''} \<and> CHR ''/'' \<notin> set p)"
proof -
  have s: "s = join ''/'' (posix_parts s)" "posix_parts s \<noteq> []"
      "\<forall>p \<in> set (posix_parts s). p \<notin> {[], ''.'', ''..''}"
    using assms by (auto simp: good_path_def normalize_path_def result_simps as_posix_def list_ex_iff)
  have no_sep: "\<forall>p \<in> set (posix_parts s). CHR ''/'' \<notin> set p"
    using split_on_no_sep unfolding posix_parts_def by fastforce
  with s(2) have "split_on CHR ''/'' (join ''/'' (posix_parts s)) = posix_parts s"
    by (intro split_join) auto
  with s no_sep show ?thesis by auto
qed

lemma posix_parts_inj: "good_path s \<Longrightarrow> good_path t \<Longrightarrow> posix_parts s = posix_parts t \<Longrightarrow> s = t"
  by (metis good_path_names split_on_inj)

definition overlaps :: "string \<Rightarrow> string \<Rightarrow> bool" where
  "overlaps l r \<longleftrightarrow> prefix (posix_parts l) (posix_parts r) \<or> prefix (posix_parts r) (posix_parts l)"

lemma take_min_prefix:
  "take (min (length xs) (length ys)) xs = take (min (length xs) (length ys)) ys \<longleftrightarrow>
     prefix xs ys \<or> prefix ys xs"
  by (cases "length xs \<le> length ys") (auto simp: min_def prefix_def dest: sym, (metis append_take_drop_id)+)

lemma paths_overlap_eq:
  "good_path l \<Longrightarrow> good_path r \<Longrightarrow> paths_overlap l r = Inr (overlaps l r)"
  by (simp add: paths_overlap_def good_path_def Let_def take_min_prefix overlaps_def)

section \<open>Scopes\<close>

locale overlap =
  fixes meets :: "'p \<Rightarrow> 'p \<Rightarrow> bool" and legal :: "'p \<Rightarrow> bool"
  assumes meets_refl: "legal p \<Longrightarrow> meets p p"
    and meets_sym: "legal p \<Longrightarrow> legal q \<Longrightarrow> meets p q \<Longrightarrow> meets q p"
begin

text \<open>Scopes are pairs of the paths read and the paths written.\<close>

definition clash :: "'p set \<times> 'p set \<Rightarrow> 'p set \<times> 'p set \<Rightarrow> bool" where
  "clash a b \<longleftrightarrow> (\<exists>w \<in> snd a. \<exists>p \<in> fst b \<union> snd b. meets w p) \<or> (\<exists>w \<in> snd b. \<exists>r \<in> fst a. meets w r)"

definition legal_scope :: "'p set \<times> 'p set \<Rightarrow> bool" where
  "legal_scope a \<longleftrightarrow> Ball (fst a \<union> snd a) legal"

lemma clash_sym: "legal_scope a \<Longrightarrow> legal_scope b \<Longrightarrow> clash a b \<longleftrightarrow> clash b a"
  unfolding clash_def legal_scope_def using meets_sym by blast

text \<open>Scopes that do not clash share no path that one of them writes.\<close>

lemma no_clash_disjoint:
  "legal_scope a \<Longrightarrow> \<not> clash a b \<Longrightarrow> snd a \<inter> (fst b \<union> snd b) = {} \<and> fst a \<inter> snd b = {}"
  unfolding clash_def legal_scope_def using meets_refl by blast

lemma clash_self: "legal_scope a \<Longrightarrow> snd a \<noteq> {} \<Longrightarrow> clash a a"
  unfolding clash_def legal_scope_def using meets_refl by blast

end

interpretation path: overlap overlaps good_path
  by unfold_locales (auto simp: overlaps_def)

text \<open>\<open>[sorted(normalize_path(p) for p in paths)]\<close>: a list that is not a list cannot be iterated.\<close>

definition sorted_paths :: "json \<Rightarrow> string list result" where
  "sorted_paths v = (if is_list v then bind (mapR normalize_path (the_list v)) (\<lambda>ps. Inr (sort ps))
     else Inl TypeError)"

definition scopes :: "json \<Rightarrow> (string list \<times> string list) result" where
  "scopes item = bind (item_at item ''scope'') (\<lambda>scope.
     bind (item_at scope ''read'') (\<lambda>rs. bind (sorted_paths rs) (\<lambda>reads.
     bind (item_at scope ''write'') (\<lambda>ws. bind (sorted_paths ws) (\<lambda>writes.
       if \<not> distinct reads \<or> \<not> distinct writes then dep_error ''dependency_path_duplicate''
       else Inr (reads, writes))))))"

fun anyR :: "('a \<Rightarrow> bool result) \<Rightarrow> 'a list \<Rightarrow> bool result" where
  "anyR f [] = Inr False"
| "anyR f (x # xs) = bind (f x) (\<lambda>b. if b then Inr True else anyR f xs)"

lemma anyR_pure: "(\<And>x. x \<in> set xs \<Longrightarrow> f x = Inr (g x)) \<Longrightarrow> anyR f xs = Inr (\<exists>x\<in>set xs. g x)"
  by (induction xs) auto

definition scopes_conflict :: "json \<Rightarrow> json \<Rightarrow> bool result" where
  "scopes_conflict first second =
     bind (scopes first) (\<lambda>(first_reads, first_writes).
     bind (scopes second) (\<lambda>(second_reads, second_writes).
     bind (anyR (\<lambda>w. anyR (paths_overlap w) (second_reads @ second_writes)) first_writes) (\<lambda>hit.
       if hit then Inr True
       else anyR (\<lambda>w. anyR (paths_overlap w) first_reads) second_writes)))"

definition scope_sets :: "string list \<times> string list \<Rightarrow> string set \<times> string set" where
  "scope_sets s = (set (fst s), set (snd s))"

definition conflicting :: "string list \<times> string list \<Rightarrow> string list \<times> string list \<Rightarrow> bool" where
  "conflicting a b \<longleftrightarrow> path.clash (scope_sets a) (scope_sets b)"

definition good_scope :: "string list \<times> string list \<Rightarrow> bool" where
  "good_scope s \<longleftrightarrow> (\<forall>p \<in> set (fst s @ snd s). good_path p) \<and> sorted (fst s) \<and> sorted (snd s) \<and>
     distinct (fst s) \<and> distinct (snd s)"

lemma mapR_normalize:
  "mapR normalize_path vs = Inr qs \<longleftrightarrow> vs = map JStr qs \<and> list_all good_path qs"
proof (induction vs arbitrary: qs)
  case Nil
  then show ?case by (cases qs) auto
next
  case (Cons v vs)
  then show ?case by (cases qs) (auto simp: bind_eq_Inr normalize_path_eq_Inr)
qed

lemma sorted_paths_eq_Inr [result_simps]:
  "sorted_paths v = Inr ps \<longleftrightarrow> (\<exists>qs. v = JList (map JStr qs) \<and> list_all good_path qs \<and> ps = sort qs)"
  by (cases v) (auto simp: sorted_paths_def bind_eq_Inr mapR_normalize)

lemma scopes_good: "scopes item = Inr s \<Longrightarrow> good_scope s"
  by (auto simp: scopes_def result_simps good_scope_def list_all_iff)

lemma good_scope_legal: "good_scope s \<Longrightarrow> path.legal_scope (scope_sets s)"
  by (auto simp: good_scope_def path.legal_scope_def scope_sets_def)

lemma conflicting_sym: "good_scope a \<Longrightarrow> good_scope b \<Longrightarrow> conflicting a b \<longleftrightarrow> conflicting b a"
  unfolding conflicting_def by (intro path.clash_sym good_scope_legal)

lemma scopes_conflict_eq:
  assumes "scopes x = Inr a" "scopes y = Inr b"
  shows "scopes_conflict x y = Inr (conflicting a b)"
proof -
  obtain ra wa rb wb where ab: "a = (ra, wa)" "b = (rb, wb)" by (cases a, cases b)
  have good: "\<forall>p \<in> set (ra @ wa @ rb @ wb). good_path p"
    using scopes_good[OF assms(1)] scopes_good[OF assms(2)] ab by (auto simp: good_scope_def)
  have any: "anyR (paths_overlap w) ps = Inr (\<exists>p\<in>set ps. overlaps w p)"
    if "good_path w" "\<forall>p\<in>set ps. good_path p" for w ps
    using that by (intro anyR_pure) (simp add: paths_overlap_eq)
  have "anyR (\<lambda>w. anyR (paths_overlap w) (rb @ wb)) wa = Inr (\<exists>w\<in>set wa. \<exists>p\<in>set (rb @ wb). overlaps w p)"
    using good by (intro anyR_pure any) auto
  moreover have "anyR (\<lambda>w. anyR (paths_overlap w) ra) wb = Inr (\<exists>w\<in>set wb. \<exists>p\<in>set ra. overlaps w p)"
    using good by (intro anyR_pure any) auto
  ultimately show ?thesis
    using assms ab by (simp add: scopes_conflict_def conflicting_def path.clash_def scope_sets_def)
qed

end
