(* ===== verification/Dependencies.thy ===== *)
theory Dependencies
  imports WorkGraph_Validity Paths "HOL-Library.Product_Lexorder" "HOL-Library.Multiset"
begin

text \<open>
  Readiness, containment, artifact flow and parallel groups: the read-only half of
  \<open>scripts/workgraph_dependencies.py\<close>. A graph is first checked by \<open>validate_graph\<close>; the
  functions after it read the fields the validator has established. The lists of claims
  passed to \<open>reasons\<close> are the rows of a verified registry. A \<open>while\<close> loop is a partial function whose value is
  \<open>None\<close> when the loop does not end; on a validated graph it always ends.
\<close>

section \<open>Artifacts\<close>

text \<open>A dictionary whose keys are JSON values of an unchecked document.\<close>

fun pd_get :: "json \<Rightarrow> (json \<times> 'a) list \<Rightarrow> 'a option" where
  "pd_get k [] = None"
| "pd_get k ((j, x) # d) = (if py_eq k j then Some x else pd_get k d)"

fun pd_set :: "json \<Rightarrow> 'a \<Rightarrow> (json \<times> 'a) list \<Rightarrow> (json \<times> 'a) list" where
  "pd_set k x [] = [(k, x)]"
| "pd_set k x ((j, y) # d) = (if py_eq k j then (j, x) # d else (j, y) # pd_set k x d)"

text \<open>\<open>sorted\<close> on values of unknown type: texts, or numbers by their value\<close>

fun num_insert :: "json \<Rightarrow> json list \<Rightarrow> json list" where
  "num_insert x [] = [x]"
| "num_insert x (y # ys) = (if num_le x y then x # y # ys else y # num_insert x ys)"

definition py_sorted :: "json list \<Rightarrow> json list result" where
  "py_sorted vs = (if length vs \<le> 1 then Inr vs
     else if list_all is_str vs then Inr (map JStr (sort (map the_str vs)))
     else if list_all (\<lambda>v. num_value v \<noteq> None) vs then Inr (foldr num_insert vs [])
     else Inl TypeError)"

definition evidence_table :: "json \<Rightarrow> (json \<times> json) list result" where
  "evidence_table graph = foldR (\<lambda>d row.
     if is_obj row \<and> has_key row ''id'' then
       (if hashable (fld row ''id'') then Inr (pd_set (fld row ''id'') row d) else Inl TypeError)
     else Inr d) [] (the_list (fld graph ''evidence''))"

text \<open>\<open>rel.get(relation, [])\<close> of an item that may be anything, and the keys registered from it\<close>

definition relation_of :: "json \<Rightarrow> string \<Rightarrow> json list result" where
  "relation_of item relation =
     (if \<not> is_obj item then Inr []
      else let rel = (case get item ''relationships'' of None \<Rightarrow> JObj [] | Some r \<Rightarrow> r) in
        if \<not> is_obj rel then Inl AttributeError
        else case get rel relation of None \<Rightarrow> Inr [] | Some v \<Rightarrow> py_iter v)"

definition register :: "json \<Rightarrow> string \<Rightarrow> (json \<times> json list) list \<Rightarrow> (json \<times> json list) list result" where
  "register item relation d = bind (relation_of item relation) (\<lambda>ks. foldR (\<lambda>d key.
     if \<not> hashable key then Inl TypeError
     else case pd_get key d of None \<Rightarrow> Inr d
       | Some ids \<Rightarrow> bind (item_at item ''id'') (\<lambda>i. Inr (pd_set key (ids @ [i]) d))) d ks)"

definition artifact_tables :: "json \<Rightarrow> ((json \<times> json) list \<times> (json \<times> json list) list \<times> (json \<times> json list) list) result" where
  "artifact_tables graph = bind (evidence_table graph) (\<lambda>evidence.
     let none = map (\<lambda>(k, _). (k, [])) evidence in
     bind (foldR (\<lambda>(producers, consumers) item.
         bind (register item ''produces'' producers) (\<lambda>p.
         bind (register item ''consumes'' consumers) (\<lambda>c. Inr (p, c))))
       (none, none) (items_of graph)) (\<lambda>(producers, consumers). Inr (evidence, producers, consumers)))"

definition producer_kinds :: "string list" where
  "producer_kinds = [''artifact'', ''command_result'']"

definition pd_list :: "json \<Rightarrow> (json \<times> 'a list) list \<Rightarrow> 'a list" where
  "pd_list k d = (case pd_get k d of None \<Rightarrow> [] | Some xs \<Rightarrow> xs)"

text \<open>the keys that are consumed, not produced, and of a kind that needs a producer\<close>

definition missing_producers :: "(json \<times> json) list \<Rightarrow> (json \<times> json list) list \<Rightarrow> (json \<times> json list) list \<Rightarrow> json list result" where
  "missing_producers evidence producers consumers =
     bind (mapR (\<lambda>(key, values).
       if pd_list key consumers = [] \<or> values \<noteq> [] then Inr []
       else let kind = (case pd_get key evidence of None \<Rightarrow> JNull | Some row \<Rightarrow> fld row ''kind'') in
         if \<not> hashable kind then Inl TypeError
         else Inr (if in_strs kind producer_kinds then [key] else [])) producers)
     (\<lambda>kss. Inr (concat kss))"

definition artifact_map :: "json \<Rightarrow> json result" where
  "artifact_map graph = bind (artifact_tables graph) (\<lambda>(evidence, producers, consumers).
     bind (py_sorted (map fst (filter (\<lambda>(_, values). 1 < length values) producers))) (\<lambda>ambiguous.
     if ambiguous \<noteq> [] then Inl (DependencyError ''dependency_artifact_producer_ambiguous'' (Some (JList ambiguous)))
     else bind (missing_producers evidence producers consumers) (\<lambda>keys.
     bind (py_sorted keys) (\<lambda>missing.
     if missing \<noteq> [] then Inl (DependencyError ''dependency_artifact_producer_missing'' (Some (JList missing)))
     else bind (py_sorted (map fst evidence)) (\<lambda>ids.
     bind (mapR (\<lambda>key. bind (py_sorted (pd_list key producers)) (\<lambda>ps.
       bind (py_sorted (pd_list key consumers)) (\<lambda>cs.
       Inr (the_str key, JObj [(''producers'', JList ps), (''consumers'', JList cs)])))) ids)
     (\<lambda>rows. Inr (JObj rows)))))))"

section \<open>The checked graph and the satisfaction\<close>

fun caught :: "exn \<Rightarrow> bool" where
  "caught KeyError = True"
| "caught TypeError = True"
| "caught AttributeError = True"
| "caught _ = False"

definition early_artifact_check :: "json \<Rightarrow> unit result" where
  "early_artifact_check graph =
     (if is_list (fld graph ''work_items'') \<and> is_list (fld graph ''evidence'') then
        (case artifact_map graph of Inr _ \<Rightarrow> Inr () | Inl e \<Rightarrow> if caught e then Inr () else Inl e)
      else Inr ())"

definition validate_graph :: "json \<Rightarrow> json result" where
  "validate_graph graph =
     (if \<not> is_obj graph then dep_error ''dependency_graph_invalid''
      else bind (early_artifact_check graph) (\<lambda>_.
        bind (validate_document graph) (\<lambda>receipt.
        if fld receipt ''status'' \<noteq> JStr ''valid''
        then Inl (DependencyError ''dependency_graph_invalid'' (Some (fld receipt ''errors'')))
        else bind (eachR scopes (items_of graph)) (\<lambda>_. Inr receipt))))"

text \<open>\<open>{item["id"]: item for item in items}\<close>: of two equal ids the later wins.\<close>

definition item_of :: "json \<Rightarrow> string \<Rightarrow> json option" where
  "item_of graph i = map_of (rev (map (\<lambda>x. (item_id x, x)) (items_of graph))) i"

definition item_ids :: "json \<Rightarrow> string list" where
  "item_ids graph = sorted_set (map item_id (items_of graph))"

definition evidence_row :: "json \<Rightarrow> string \<Rightarrow> json option" where
  "evidence_row graph i = map_of (rev (map (\<lambda>e. (evidence_id e, e)) (evidence_of graph))) i"

definition sat_keys :: "string list" where
  "sat_keys = [''schema_version'', ''board_sha256'', ''satisfied_work_item_ids'']"

definition validate_satisfaction :: "json \<Rightarrow> json \<Rightarrow> string option \<Rightarrow> json result" where
  "validate_satisfaction graph value expected =
     (if \<not> keys_are value sat_keys then dep_error ''dependency_satisfaction_shape_invalid''
      else if \<not> is_int (fld value ''schema_version'')
      then dep_error ''dependency_satisfaction_version_invalid''
      else if the_int (fld value ''schema_version'') \<noteq> 1
      then dep_error ''dependency_satisfaction_version_unsupported''
      else bind (hash_of (fld value ''board_sha256'') ''dependency_board_hash_invalid'') (\<lambda>board.
        if expected \<noteq> None \<and> expected \<noteq> Some board then dep_error ''dependency_satisfaction_stale''
        else let ids = fld value ''satisfied_work_item_ids'' in
          if \<not> is_list ids \<or> list_ex (\<lambda>i. \<not> is_str i \<or> the_str i = []) (the_list ids)
          then dep_error ''dependency_satisfaction_ids_invalid''
          else if \<not> distinct (the_list ids) then dep_error ''dependency_satisfaction_ids_duplicate''
          else let unknown = sorted_diff (map the_str (the_list ids)) (item_ids graph) in
            if unknown \<noteq> []
            then Inl (DependencyError ''dependency_satisfaction_id_unknown'' (Some (JList (map JStr unknown))))
            else Inr value))"

definition satisfied_ids :: "json \<Rightarrow> string list" where
  "satisfied_ids sat = map the_str (the_list (fld sat ''satisfied_work_item_ids''))"

section \<open>Readiness\<close>

definition schedulable :: "string list" where
  "schedulable = [''queued'', ''blocked'', ''needs_revision'', ''needs_reassignment'', ''needs_parent_repair'']"

definition reason_messages :: "(string \<times> string) list" where
  "reason_messages = [
     (''already_satisfied'', ''This item is already satisfied and must not be scheduled again.''),
     (''status_not_schedulable'', ''The canonical status is not currently schedulable.''),
     (''dependency_unsatisfied'', ''A declared blocking dependency still needs Parent-reviewed satisfaction.''),
     (''artifact_rejected'', ''A required artifact was rejected and must be repaired or replaced.''),
     (''artifact_unvalidated'', ''A required artifact does not yet have validated digest-backed evidence.''),
     (''lease_active'', ''This item already has an active execution lease.''),
     (''lease_scope_conflict'', ''Another active lease overlaps this item's write scope.'')]"

definition reason :: "string \<Rightarrow> string \<Rightarrow> string \<Rightarrow> json" where
  "reason c reference action = JObj [(''code'', JStr c), (''reference'', JStr reference),
     (''message'', JStr (the (map_of reason_messages c))), (''next_action'', JStr action)]"

text \<open>\<open>{"scope": {"read": row["read_scope"], "write": row["write_scope"]}}\<close>\<close>

definition scope_item :: "json \<Rightarrow> json \<Rightarrow> json" where
  "scope_item reads writes = JObj [(''scope'', JObj [(''read'', reads), (''write'', writes)])]"

definition claim_conflict :: "json \<Rightarrow> json \<Rightarrow> bool result" where
  "claim_conflict candidate active = scopes_conflict
     (scope_item (fld candidate ''read_scope'') (fld candidate ''write_scope''))
     (scope_item (fld active ''read_scope'') (fld active ''write_scope''))"

definition scope_row :: "string list \<times> string list \<Rightarrow> json" where
  "scope_row s = JObj [(''read_scope'', JList (map JStr (fst s))), (''write_scope'', JList (map JStr (snd s)))]"

definition artifact_reasons :: "json \<Rightarrow> string \<Rightarrow> json list result" where
  "artifact_reasons graph artifact = (case evidence_row graph artifact of
     None \<Rightarrow> Inl KeyError
   | Some row \<Rightarrow> Inr (
       if fld row ''state'' = JStr ''rejected''
       then [reason ''artifact_rejected'' artifact ''repair_or_replace_artifact'']
       else if fld row ''state'' \<noteq> JStr ''validated'' \<or> fld row ''digest'' = JStr ''unknown''
       then [reason ''artifact_unvalidated'' artifact ''validate_artifact_with_digest''] else []))"

definition claim_reasons :: "json \<Rightarrow> string \<Rightarrow> json \<Rightarrow> json list result" where
  "claim_reasons item i row = (let cid = the_str (fld row ''claim_id'') in
     if fld row ''state'' \<noteq> JStr ''active'' then Inr []
     else if fld row ''work_item_id'' = JStr i
     then Inr [reason ''lease_active'' cid ''renew_release_or_recover_claim'']
     else bind (scopes item) (\<lambda>s. bind (claim_conflict (scope_row s) row) (\<lambda>hit.
       Inr (if hit then [reason ''lease_scope_conflict'' cid ''wait_release_or_recover_claim''] else []))))"

definition by_text :: "string \<Rightarrow> json \<Rightarrow> string" where
  "by_text k row = the_str (fld row k)"

definition reasons :: "json \<Rightarrow> json \<Rightarrow> string \<Rightarrow> json list \<Rightarrow> json list result" where
  "reasons graph sat i claims = (case item_of graph i of
     None \<Rightarrow> dep_error ''dependency_work_item_unknown''
   | Some item \<Rightarrow>
       bind (mapR (artifact_reasons graph) (sort (consumes (item_rels item)))) (\<lambda>artifacts.
       bind (mapR (claim_reasons item i) (sort_key (by_text ''claim_id'') claims)) (\<lambda>leases.
       Inr (sort_key (\<lambda>row. (by_text ''code'' row, by_text ''reference'' row)) (
         (if i \<in> set (satisfied_ids sat) then [reason ''already_satisfied'' i ''do_not_reschedule''] else []) @
         (if \<not> in_strs (fld item ''status'') schedulable
          then [reason ''status_not_schedulable'' (the_str (fld item ''status'')) ''wait_for_canonical_transition'']
          else []) @
         map (\<lambda>b. reason ''dependency_unsatisfied'' b ''supply_parent_reviewed_satisfaction'')
           (filter (\<lambda>b. b \<notin> set (satisfied_ids sat)) (sort (blocked_by (item_rels item)))) @
         concat artifacts @ concat leases)))))"

fun filterR :: "('a \<Rightarrow> bool result) \<Rightarrow> 'a list \<Rightarrow> 'a list result" where
  "filterR p [] = Inr []"
| "filterR p (x # xs) = bind (p x) (\<lambda>b. bind (filterR p xs) (\<lambda>ys. Inr (if b then x # ys else ys)))"

definition ready_ids :: "json \<Rightarrow> json \<Rightarrow> json list \<Rightarrow> string list result" where
  "ready_ids graph sat claims =
     filterR (\<lambda>i. bind (reasons graph sat i claims) (\<lambda>rs. Inr (rs = []))) (item_ids graph)"

definition ready_row :: "json \<Rightarrow> string \<Rightarrow> json" where
  "ready_row graph i = (let item = the (item_of graph i) in JObj [
     (''work_item_id'', JStr i), (''objective'', fld item ''objective''),
     (''clarity_tier'', fld item ''clarity_tier''),
     (''basis'', JStr ''all_dependency_artifact_status_and_lease_gates_satisfied''),
     (''next_action'', JStr ''request_parent_assignment_or_claim'')])"

definition ready :: "json \<Rightarrow> json \<Rightarrow> string option \<Rightarrow> json list \<Rightarrow> json result" where
  "ready graph satisfaction expected claims =
     bind (validate_graph graph) (\<lambda>_.
     bind (validate_satisfaction graph satisfaction expected) (\<lambda>sat.
     bind (ready_ids graph sat claims) (\<lambda>ids.
     Inr (JObj [(''schema_version'', JInt 1), (''status'', JStr ''ok''),
       (''board_sha256'', fld sat ''board_sha256''),
       (''ready_work_item_ids'', JList (map JStr ids)),
       (''next_ready'', JList (map (ready_row graph) ids))]))))"

definition explain_blocked :: "json \<Rightarrow> json \<Rightarrow> string \<Rightarrow> string option \<Rightarrow> json list \<Rightarrow> json result" where
  "explain_blocked graph satisfaction i expected claims =
     bind (validate_graph graph) (\<lambda>_.
     bind (validate_satisfaction graph satisfaction expected) (\<lambda>sat.
     bind (reasons graph sat i claims) (\<lambda>rs.
     Inr (JObj [(''schema_version'', JInt 1), (''status'', JStr ''ok''), (''work_item_id'', JStr i),
       (''board_sha256'', fld sat ''board_sha256''), (''blocked'', JBool (rs \<noteq> [])),
       (''reasons'', JList rs)]))))"

definition artifact_flow :: "json \<Rightarrow> json result" where
  "artifact_flow graph = bind (validate_graph graph) (\<lambda>_. bind (artifact_map graph) (\<lambda>m.
     Inr (JObj [(''schema_version'', JInt 1), (''status'', JStr ''ok''), (''artifacts'', m)])))"

section \<open>Containment\<close>

definition children_of :: "json \<Rightarrow> edges" where
  "children_of graph = map (\<lambda>i. (i, case item_of graph i of None \<Rightarrow> []
     | Some item \<Rightarrow> sort (parent_of (item_rels item)))) (remdups (map item_id (items_of graph)))"

text \<open>\<open>{child: parent for parent, values in children.items() for child in values}\<close>\<close>

definition parents_of :: "json \<Rightarrow> (string \<times> string) list" where
  "parents_of graph = rev (concat (map (\<lambda>(p, cs). map (\<lambda>c. (c, p)) cs) (children_of graph)))"

partial_function (option) descend :: "edges \<Rightarrow> (string \<times> nat) list \<Rightarrow> (string \<times> nat) list option" where
  "descend E queue = (case queue of
     [] \<Rightarrow> Some []
   | row # rest \<Rightarrow>
       Option.bind (descend E (rest @ map (\<lambda>c. (c, Suc (snd row))) (succs E (fst row))))
         (\<lambda>rows. Some (row # rows)))"

partial_function (option) ascend :: "(string \<times> string) list \<Rightarrow> string \<Rightarrow> nat \<Rightarrow> (string \<times> nat) list option" where
  "ascend P current depth = (case map_of P current of
     None \<Rightarrow> Some []
   | Some p \<Rightarrow> Option.bind (ascend P p (Suc depth)) (\<lambda>rows. Some ((p, Suc depth) # rows)))"

declare descend.simps [code] ascend.simps [code]

definition depth_row :: "string \<times> nat \<Rightarrow> json" where
  "depth_row r = JObj [(''work_item_id'', JStr (fst r)), (''depth'', JInt (int (snd r)))]"

definition containment_rows :: "json \<Rightarrow> string \<Rightarrow> string \<Rightarrow> (string \<times> nat) list result option" where
  "containment_rows graph i direction =
     (if direction = ''descendants'' then
        map_option Inr (descend (children_of graph) (map (\<lambda>c. (c, 1)) (succs (children_of graph) i)))
      else if direction = ''ancestors'' then map_option Inr (ascend (parents_of graph) i 0)
      else if direction = ''roots'' then
        Some (Inr (map (\<lambda>k. (k, 0)) (sorted_diff (item_ids graph) (map fst (parents_of graph)))))
      else Some (dep_error ''dependency_containment_direction_invalid''))"

definition containment :: "json \<Rightarrow> string \<Rightarrow> string \<Rightarrow> json result option" where
  "containment graph i direction = (case validate_graph graph of
     Inl e \<Rightarrow> Some (Inl e)
   | Inr _ \<Rightarrow> if item_of graph i = None then Some (dep_error ''dependency_work_item_unknown'')
     else map_option (\<lambda>r. bind r (\<lambda>rows. Inr (JObj [(''schema_version'', JInt 1), (''status'', JStr ''ok''),
         (''direction'', JStr direction), (''items'', JList (map depth_row rows))])))
       (containment_rows graph i direction))"

section \<open>Parallel groups\<close>

text \<open>The inner loop: the item joins the first group none of whose members it conflicts with.\<close>

fun place :: "('a \<Rightarrow> 'a \<Rightarrow> bool result) \<Rightarrow> 'a \<Rightarrow> 'a list list \<Rightarrow> 'a list list result" where
  "place conflict x [] = Inr [[x]]"
| "place conflict x (g # gs) = bind (anyR (conflict x) g) (\<lambda>hit.
     if hit then bind (place conflict x gs) (\<lambda>hs. Inr (g # hs)) else Inr ((g @ [x]) # gs))"

definition items_conflict :: "json \<Rightarrow> string \<Rightarrow> string \<Rightarrow> bool result" where
  "items_conflict graph i j = scopes_conflict (the (item_of graph i)) (the (item_of graph j))"

definition group_items :: "json \<Rightarrow> string list \<Rightarrow> string list list result" where
  "group_items graph ids = foldR (\<lambda>groups i. place (items_conflict graph) i groups) [] ids"

definition parallel_groups :: "json \<Rightarrow> json \<Rightarrow> string option \<Rightarrow> json list \<Rightarrow> json result" where
  "parallel_groups graph satisfaction expected claims =
     bind (ready graph satisfaction expected claims) (\<lambda>receipt.
     bind (group_items graph (map the_str (the_list (fld receipt ''ready_work_item_ids'')))) (\<lambda>groups.
     Inr (JObj [(''schema_version'', JInt 1), (''status'', JStr ''ok''),
       (''board_sha256'', fld receipt ''board_sha256''),
       (''groups'', JList (map (\<lambda>g. JList (map JStr g)) groups))])))"

end
