(* ===== verification/Readiness.thy ===== *)
theory Readiness
  imports Dependencies
begin

text \<open>
  Properties of the read-only functions on a checked graph: an item is ready exactly when its
  status, blockers, artifacts and the active leases allow it; containment ends and lists
  exactly the descendants; the parallel groups partition the ready items into sets without
  conflict.
\<close>

section \<open>Checked graphs\<close>

definition checked :: "json \<Rightarrow> bool" where
  "checked graph = (case validate_graph graph of Inl e \<Rightarrow> False | Inr r \<Rightarrow> True)"

lemma checked_facts:
  assumes "checked graph"
  shows "document_ok graph" and "x \<in> set (items_of graph) \<Longrightarrow> \<exists>s. scopes x = Inr s"
proof -
  from assms obtain r where r: "validate_graph graph = Inr r"
    by (auto simp: checked_def split: sum.splits)
  then have "reports_valid graph"
    by (auto simp: validate_graph_def result_simps reports_valid_def)
  then show "document_ok graph" by (simp add: valid_iff)
  show "\<exists>s. scopes x = Inr s" if "x \<in> set (items_of graph)"
    using r that by (fastforce simp: validate_graph_def result_simps)
qed

lemma checked_ids: "checked graph \<Longrightarrow> distinct (map item_id (items_of graph))"
  using checked_facts(1) unfolding document_ok_def by blast

lemma checked_links: "checked graph \<Longrightarrow> links_ok (items_of graph) (evidence_id ` set (evidence_of graph))"
  using checked_facts(1) unfolding document_ok_def by blast

lemma checked_item_clean:
  assumes "checked graph" "x \<in> set (items_of graph)"
  obtains i where "item_clean x i"
  using checked_facts(1)[OF assms(1)] assms(2) unfolding document_ok_def fields_ok_def
  by (metis in_set_conv_nth)

lemma map_of_rev_keyed:
  assumes "distinct (map f xs)"
  shows "map_of (rev (map (\<lambda>x. (f x, x)) xs)) k = Some x \<longleftrightarrow> x \<in> set xs \<and> f x = k"
proof -
  have "distinct (map fst (rev (map (\<lambda>x. (f x, x)) xs)))"
    using assms by (simp add: rev_map[symmetric] comp_def)
  then show ?thesis by (subst map_of_eq_Some_iff) auto
qed

lemma item_of_iff: "checked graph \<Longrightarrow> item_of graph i = Some x \<longleftrightarrow> x \<in> set (items_of graph) \<and> item_id x = i"
  unfolding item_of_def by (intro map_of_rev_keyed checked_ids)

lemma item_of_None: "checked graph \<Longrightarrow> item_of graph i = None \<longleftrightarrow> i \<notin> item_id ` set (items_of graph)"
proof (cases "item_of graph i")
  case None
  then show "checked graph \<Longrightarrow> ?thesis" using item_of_iff[of graph i] by auto
next
  case (Some x)
  then show "checked graph \<Longrightarrow> ?thesis" using item_of_iff[of graph i x] by auto
qed

lemma set_item_ids [simp]: "set (item_ids graph) = item_id ` set (items_of graph)"
  by (simp add: item_ids_def)

lemma evidence_row_iff:
  "checked graph \<Longrightarrow> evidence_row graph i = Some e \<longleftrightarrow> e \<in> set (evidence_of graph) \<and> evidence_id e = i"
  using checked_facts(1) unfolding evidence_row_def document_ok_def by (intro map_of_rev_keyed) blast

section \<open>Readiness\<close>

definition claim_scope :: "json \<Rightarrow> (string list \<times> string list) result" where
  "claim_scope row = scopes (scope_item (fld row ''read_scope'') (fld row ''write_scope''))"

definition claims_ok :: "json list \<Rightarrow> bool" where
  "claims_ok claims = list_all (\<lambda>row. case claim_scope row of Inl e \<Rightarrow> False | Inr s \<Rightarrow> True) claims"

definition validated_artifact :: "json \<Rightarrow> string \<Rightarrow> bool" where
  "validated_artifact graph a \<longleftrightarrow> (\<exists>e \<in> set (evidence_of graph). evidence_id e = a \<and>
     fld e ''state'' = JStr ''validated'' \<and> fld e ''digest'' \<noteq> JStr ''unknown'')"

text \<open>a lease that does not stand in the way of an item\<close>

definition lease_allows :: "json \<Rightarrow> json \<Rightarrow> bool" where
  "lease_allows item row \<longleftrightarrow> (fld row ''state'' = JStr ''active'' \<longrightarrow>
     fld row ''work_item_id'' \<noteq> JStr (item_id item) \<and>
     (\<exists>s t. scopes item = Inr s \<and> claim_scope row = Inr t \<and> \<not> conflicting s t))"

definition may_start :: "json \<Rightarrow> json \<Rightarrow> json list \<Rightarrow> json \<Rightarrow> bool" where
  "may_start graph sat claims item \<longleftrightarrow>
     item_id item \<notin> set (satisfied_ids sat) \<and> in_strs (fld item ''status'') schedulable \<and>
     set (blocked_by (item_rels item)) \<subseteq> set (satisfied_ids sat) \<and>
     (\<forall>a \<in> set (consumes (item_rels item)). validated_artifact graph a) \<and>
     (\<forall>row \<in> set claims. lease_allows item row)"

lemma claim_scope_row: "good_scope s \<Longrightarrow> claim_scope (scope_row s) = Inr s"
proof -
  assume s: "good_scope s"
  then have "sorted_paths (JList (map JStr (fst s))) = Inr (fst s)"
    "sorted_paths (JList (map JStr (snd s))) = Inr (snd s)"
    by (auto simp: sorted_paths_eq_Inr good_scope_def list_all_iff sorted_sort_id)
  with s show ?thesis
    by (simp add: claim_scope_def scopes_def scope_item_def scope_row_def item_at_def get_def
        fld_JObj_Cons good_scope_def)
qed

lemma claim_conflict_eq:
  "claim_scope a = Inr s \<Longrightarrow> claim_scope b = Inr t \<Longrightarrow> claim_conflict a b = Inr (conflicting s t)"
  unfolding claim_conflict_def claim_scope_def by (rule scopes_conflict_eq)

lemma mapR_pure: "(\<And>x. x \<in> set xs \<Longrightarrow> f x = Inr (g x)) \<Longrightarrow> mapR f xs = Inr (map g xs)"
  by (induction xs) auto

lemma artifact_reasons_pure:
  assumes "checked graph" "x \<in> set (items_of graph)" "a \<in> set (consumes (item_rels x))"
  shows "\<exists>rs. artifact_reasons graph a = Inr rs \<and> (rs = [] \<longleftrightarrow> validated_artifact graph a)"
proof -
  have "a \<in> Range (link consumes (items_of graph))" using assms(2,3) by (auto simp: link_def)
  then have "a \<in> evidence_id ` set (evidence_of graph)"
    using checked_links[OF assms(1)] unfolding links_ok_def by blast
  then obtain e where e: "evidence_row graph a = Some e" "e \<in> set (evidence_of graph)"
    using evidence_row_iff[OF assms(1)] by auto
  have uniq: "e' = e" if "e' \<in> set (evidence_of graph)" "evidence_id e' = a" for e'
    using that e evidence_row_iff[OF assms(1), of a] by (metis option.inject)
  have ea: "evidence_id e = a" using e evidence_row_iff[OF assms(1)] by blast
  have "validated_artifact graph a \<longleftrightarrow> fld e ''state'' = JStr ''validated'' \<and> fld e ''digest'' \<noteq> JStr ''unknown''"
    unfolding validated_artifact_def using e(2) ea uniq by blast
  then show ?thesis
    by (auto simp: artifact_reasons_def e(1))
qed

lemma claim_reasons_pure:
  assumes "scopes item = Inr s" "claims_ok claims" "row \<in> set claims"
  shows "\<exists>rs. claim_reasons item (item_id item) row = Inr rs \<and>
    (rs = [] \<longleftrightarrow> lease_allows item row)"
proof -
  from assms(2,3) obtain t where t: "claim_scope row = Inr t"
    by (cases "claim_scope row") (auto simp: claims_ok_def list_all_iff)
  note c = claim_conflict_eq[OF claim_scope_row[OF scopes_good[OF assms(1)]] t]
  show ?thesis
    by (auto simp: claim_reasons_def lease_allows_def Let_def assms(1) c t)
qed

lemma mapR_choice:
  assumes "\<And>x. x \<in> set xs \<Longrightarrow> \<exists>rs. f x = Inr rs \<and> (rs = [] \<longleftrightarrow> P x)"
  shows "\<exists>rss. mapR f xs = Inr rss \<and> (concat rss = [] \<longleftrightarrow> (\<forall>x\<in>set xs. P x))"
  using assms
proof (induction xs)
  case Nil
  then show ?case by simp
next
  case (Cons x xs)
  then obtain rss rs where "mapR f xs = Inr rss" "concat rss = [] \<longleftrightarrow> (\<forall>x\<in>set xs. P x)"
      "f x = Inr rs" "rs = [] \<longleftrightarrow> P x"
    by (metis list.set_intros)
  then show ?case by simp
qed

lemma reasons_complete:
  assumes "checked graph" "x \<in> set (items_of graph)" "claims_ok claims"
  obtains rs where "reasons graph sat (item_id x) claims = Inr rs"
    "rs = [] \<longleftrightarrow> may_start graph sat claims x"
proof -
  obtain s where s: "scopes x = Inr s" using checked_facts(2)[OF assms(1,2)] by blast
  have x: "item_of graph (item_id x) = Some x" using item_of_iff[OF assms(1)] assms(2) by blast
  from mapR_choice[of "sort (consumes (item_rels x))" "artifact_reasons graph" "validated_artifact graph"]
    artifact_reasons_pure[OF assms(1,2)]
  obtain arts where a: "mapR (artifact_reasons graph) (sort (consumes (item_rels x))) = Inr arts"
    "concat arts = [] \<longleftrightarrow> (\<forall>a\<in>set (sort (consumes (item_rels x))). validated_artifact graph a)"
    by auto
  from mapR_choice[of "sort_key (by_text ''claim_id'') claims" "claim_reasons x (item_id x)" "lease_allows x"]
    claim_reasons_pure[OF s assms(3)]
  obtain leases where l:
    "mapR (claim_reasons x (item_id x)) (sort_key (by_text ''claim_id'') claims) = Inr leases"
    "concat leases = [] \<longleftrightarrow> (\<forall>row\<in>set (sort_key (by_text ''claim_id'') claims). lease_allows x row)"
    by auto
  have sort_Nil: "sort_key f ys = [] \<longleftrightarrow> ys = []" for f :: "json \<Rightarrow> string \<times> string" and ys
    by (metis length_sort length_0_conv)
  show ?thesis
  proof (rule that)
    show "reasons graph sat (item_id x) claims = Inr (case reasons graph sat (item_id x) claims of Inr rs \<Rightarrow> rs)"
      by (simp add: reasons_def x a(1) l(1))
    show "(case reasons graph sat (item_id x) claims of Inr rs \<Rightarrow> rs) = [] \<longleftrightarrow> may_start graph sat claims x"
      using a(2) l(2)
      by (simp add: reasons_def x a(1) l(1) may_start_def filter_empty_conv sort_Nil subset_eq)
  qed
qed

lemma filterR_pure: "(\<And>x. x \<in> set xs \<Longrightarrow> p x = Inr (q x)) \<Longrightarrow> filterR p xs = Inr (filter q xs)"
  by (induction xs) auto

definition startable_ids :: "json \<Rightarrow> json \<Rightarrow> json list \<Rightarrow> string list" where
  "startable_ids graph sat claims =
     filter (\<lambda>i. \<exists>x \<in> set (items_of graph). item_id x = i \<and> may_start graph sat claims x) (item_ids graph)"

lemma ready_ids_eq:
  assumes "checked graph" "claims_ok claims"
  shows "ready_ids graph sat claims = Inr (startable_ids graph sat claims)"
  unfolding ready_ids_def startable_ids_def
proof (rule filterR_pure)
  fix i assume "i \<in> set (item_ids graph)"
  then obtain x where x: "x \<in> set (items_of graph)" "item_id x = i" by auto
  obtain rs where rs: "reasons graph sat i claims = Inr rs" "rs = [] \<longleftrightarrow> may_start graph sat claims x"
    using reasons_complete[OF assms(1) x(1) assms(2)] unfolding x(2) .
  have "y = x" if "y \<in> set (items_of graph)" "item_id y = i" for y
    using that x item_of_iff[OF assms(1)] by (metis option.inject)
  with x have "(\<exists>y \<in> set (items_of graph). item_id y = i \<and> may_start graph sat claims y) \<longleftrightarrow>
      may_start graph sat claims x" by blast
  with rs show "bind (reasons graph sat i claims) (\<lambda>rs. Inr (rs = [])) =
      Inr (\<exists>x \<in> set (items_of graph). item_id x = i \<and> may_start graph sat claims x)" by simp
qed

text \<open>
  C4: on a checked graph, with a valid satisfaction and the claims of a registry, \<open>ready\<close>
  always answers, and the ids it lists are, in order, exactly those of the items that are not
  satisfied, are in a schedulable status, have every blocker satisfied and every consumed
  artifact validated with a digest, and meet no active lease.
\<close>

theorem ready_exact:
  assumes "checked graph" "validate_satisfaction graph satisfaction expected = Inr sat" "claims_ok claims"
  shows "\<exists>receipt. ready graph satisfaction expected claims = Inr receipt \<and>
    fld receipt ''ready_work_item_ids'' = JList (map JStr (startable_ids graph sat claims)) \<and>
    set (startable_ids graph sat claims) = {item_id x | x. x \<in> set (items_of graph) \<and> may_start graph sat claims x} \<and>
    sorted (startable_ids graph sat claims) \<and> distinct (startable_ids graph sat claims)"
proof -
  from assms(1) obtain r where r: "validate_graph graph = Inr r"
    by (auto simp: checked_def split: sum.splits)
  have members: "set (startable_ids graph sat claims) =
      {item_id x | x. x \<in> set (items_of graph) \<and> may_start graph sat claims x}"
  proof (rule set_eqI)
    fix i
    have "i \<in> set (startable_ids graph sat claims) \<longleftrightarrow>
        i \<in> item_id ` set (items_of graph) \<and> (\<exists>x \<in> set (items_of graph). item_id x = i \<and> may_start graph sat claims x)"
      by (simp add: startable_ids_def)
    then show "i \<in> set (startable_ids graph sat claims) \<longleftrightarrow>
        i \<in> {item_id x | x. x \<in> set (items_of graph) \<and> may_start graph sat claims x}"
      unfolding mem_Collect_eq by (metis imageI)
  qed
  have "sorted (startable_ids graph sat claims)" "distinct (startable_ids graph sat claims)"
    unfolding startable_ids_def item_ids_def by (simp_all add: sorted_wrt_filter)
  moreover have "\<exists>receipt. ready graph satisfaction expected claims = Inr receipt \<and>
      fld receipt ''ready_work_item_ids'' = JList (map JStr (startable_ids graph sat claims))"
    by (simp add: ready_def r assms(2) ready_ids_eq[OF assms(1,3)] fld_JObj_Cons)
  ultimately show ?thesis using members by blast
qed

section \<open>Groups\<close>

text \<open>
  First-fit grouping against a symmetric conflict relation: nothing is lost or repeated, no
  group contains a conflict, and no two groups could be merged for a member placed later.
\<close>

locale first_fit =
  fixes conflict :: "'a \<Rightarrow> 'a \<Rightarrow> bool result" and clash :: "'a \<Rightarrow> 'a \<Rightarrow> bool" and known :: "'a set"
  assumes total: "x \<in> known \<Longrightarrow> y \<in> known \<Longrightarrow> conflict x y = Inr (clash x y)"
    and clash_sym: "x \<in> known \<Longrightarrow> y \<in> known \<Longrightarrow> clash x y \<longleftrightarrow> clash y x"
begin

lemma place_spec:
  assumes "x \<in> known" "set (concat gs) \<subseteq> known"
  shows "\<exists>hs. place conflict x gs = Inr hs \<and> mset (concat hs) = add_mset x (mset (concat gs)) \<and>
    (\<exists>as g bs. hs = as @ (g @ [x]) # bs \<and> (\<forall>h \<in> set as. \<exists>y \<in> set h. clash x y) \<and> (\<forall>y \<in> set g. \<not> clash x y) \<and>
       (gs = as @ g # bs \<or> gs = as \<and> g = [] \<and> bs = []))"
  using assms
proof (induction gs)
  case Nil
  then show ?case by (auto intro!: exI[of _ "[]"])
next
  case (Cons g gs)
  have hit: "anyR (conflict x) g = Inr (\<exists>y\<in>set g. clash x y)"
    using Cons.prems by (intro anyR_pure total) auto
  show ?case
  proof (cases "\<exists>y\<in>set g. clash x y")
    case True
    have sub: "set (concat gs) \<subseteq> known" using Cons.prems(2) by simp
    from Cons.IH[OF Cons.prems(1) sub] obtain hs as g' bs where IH: "place conflict x gs = Inr hs"
      "mset (concat hs) = add_mset x (mset (concat gs))" "hs = as @ (g' @ [x]) # bs"
      "\<forall>h \<in> set as. \<exists>y \<in> set h. clash x y" "\<forall>y \<in> set g'. \<not> clash x y"
      "gs = as @ g' # bs \<or> gs = as \<and> g' = [] \<and> bs = []"
      by blast
    show ?thesis
    proof (rule exI[of _ "g # hs"], intro conjI)
      show "place conflict x (g # gs) = Inr (g # hs)" using hit True IH(1) by simp
      show "mset (concat (g # hs)) = add_mset x (mset (concat (g # gs)))" using IH(2) by simp
      show "\<exists>as g' bs. g # hs = as @ (g' @ [x]) # bs \<and> (\<forall>h\<in>set as. \<exists>y\<in>set h. clash x y) \<and>
          (\<forall>y\<in>set g'. \<not> clash x y) \<and> (g # gs = as @ g' # bs \<or> g # gs = as \<and> g' = [] \<and> bs = [])"
        by (rule exI[of _ "g # as"], rule exI[of _ g'], rule exI[of _ bs]) (use True IH(3-6) in simp)
    qed
  next
    case False
    show ?thesis
    proof (rule exI[of _ "(g @ [x]) # gs"], intro conjI)
      show "place conflict x (g # gs) = Inr ((g @ [x]) # gs)" using hit False by simp
      show "mset (concat ((g @ [x]) # gs)) = add_mset x (mset (concat (g # gs)))" by simp
      show "\<exists>as g' bs. (g @ [x]) # gs = as @ (g' @ [x]) # bs \<and> (\<forall>h\<in>set as. \<exists>y\<in>set h. clash x y) \<and>
          (\<forall>y\<in>set g'. \<not> clash x y) \<and> (g # gs = as @ g' # bs \<or> g # gs = as \<and> g' = [] \<and> bs = [])"
        by (rule exI[of _ "[]"], rule exI[of _ g], rule exI[of _ gs]) (use False in simp)
    qed
  qed
qed

definition compatible :: "'a list \<Rightarrow> bool" where
  "compatible g \<longleftrightarrow> sorted_wrt (\<lambda>x y. \<not> clash x y) g"

lemma compatible_snoc:
  assumes "compatible g" "\<forall>y\<in>set g. \<not> clash x y" "x \<in> known" "set g \<subseteq> known"
  shows "compatible (g @ [x])"
  using assms clash_sym by (auto simp: compatible_def sorted_wrt_append)

lemma groups_spec:
  assumes "set xs \<subseteq> known" "set (concat gs) \<subseteq> known" "list_all compatible gs" "[] \<notin> set gs"
  shows "\<exists>hs. foldR (\<lambda>gs x. place conflict x gs) gs xs = Inr hs \<and>
    mset (concat hs) = mset (concat gs) + mset xs \<and> list_all compatible hs \<and> [] \<notin> set hs"
  using assms
proof (induction xs arbitrary: gs)
  case Nil
  then show ?case by simp
next
  case (Cons x xs)
  from Cons.prems have x: "x \<in> known" by simp
  from place_spec[OF x Cons.prems(2)] obtain hs as g bs where hs: "place conflict x gs = Inr hs"
    "mset (concat hs) = add_mset x (mset (concat gs))" "hs = as @ (g @ [x]) # bs"
    "\<forall>y \<in> set g. \<not> clash x y" and gs: "gs = as @ g # bs \<or> gs = as \<and> g = [] \<and> bs = []"
    by blast
  have members: "set (concat hs) \<subseteq> known"
    using hs(2) x Cons.prems(2) by (metis insert_subset set_mset_add_mset_insert set_mset_mset)
  have "compatible g \<and> set g \<subseteq> known"
    using gs Cons.prems by (auto simp: compatible_def)
  then have "compatible (g @ [x])" using compatible_snoc[OF _ hs(4) x] by blast
  then have "list_all compatible hs" "[] \<notin> set hs"
    using gs Cons.prems(3,4) hs(3) by auto
  from Cons.IH[OF _ members this] Cons.prems(1) hs(1,2) show ?case by auto
qed

end

text \<open>the conflict of two items of a graph\<close>

definition item_clash :: "json \<Rightarrow> string \<Rightarrow> string \<Rightarrow> bool" where
  "item_clash graph i j = (case (scopes (the (item_of graph i)), scopes (the (item_of graph j))) of
     (Inr s, Inr t) \<Rightarrow> conflicting s t | _ \<Rightarrow> False)"

definition known_items :: "json \<Rightarrow> string set" where
  "known_items graph = (if checked graph then item_id ` set (items_of graph) else {})"

lemma known_item:
  assumes "i \<in> known_items graph"
  obtains x s where "checked graph" "item_of graph i = Some x" "scopes x = Inr s"
proof -
  from assms have c: "checked graph" and "i \<in> item_id ` set (items_of graph)"
    by (auto simp: known_items_def split: if_splits)
  then obtain x where "x \<in> set (items_of graph)" "item_of graph i = Some x"
    using item_of_iff[OF c] by auto
  with checked_facts(2)[OF c] that[OF c] show ?thesis by blast
qed

interpretation board: first_fit "items_conflict graph" "item_clash graph" "known_items graph" for graph
proof (unfold_locales, goal_cases)
  case (1 i j)
  then obtain x s y t where "item_of graph i = Some x" "scopes x = Inr s" "item_of graph j = Some y" "scopes y = Inr t"
    by (metis known_item)
  then show ?case by (simp add: items_conflict_def item_clash_def scopes_conflict_eq split: prod.splits)
next
  case (2 i j)
  then obtain x s y t where "item_of graph i = Some x" "scopes x = Inr s" "item_of graph j = Some y" "scopes y = Inr t"
    by (metis known_item)
  then show ?case by (simp add: item_clash_def conflicting_sym[OF scopes_good scopes_good])
qed

text \<open>
  C5: on the same inputs \<open>parallel_groups\<close> always answers; its groups are nonempty, contain
  each ready item exactly once, and no two items of one group have scopes that conflict.
\<close>

theorem parallel_groups_safe:
  assumes "checked graph" "validate_satisfaction graph satisfaction expected = Inr sat" "claims_ok claims"
  shows "\<exists>receipt groups. parallel_groups graph satisfaction expected claims = Inr receipt \<and>
    fld receipt ''groups'' = JList (map (\<lambda>g. JList (map JStr g)) groups) \<and>
    mset (concat groups) = mset (startable_ids graph sat claims) \<and> [] \<notin> set groups \<and>
    (\<forall>g \<in> set groups. \<forall>i < length g. \<forall>j < length g. i \<noteq> j \<longrightarrow> \<not> item_clash graph (g ! i) (g ! j))"
proof -
  from assms(1) obtain r where r: "validate_graph graph = Inr r"
    by (auto simp: checked_def split: sum.splits)
  have known: "set (startable_ids graph sat claims) \<subseteq> known_items graph"
    using assms(1) by (auto simp: startable_ids_def known_items_def)
  obtain gs where gs: "group_items graph (startable_ids graph sat claims) = Inr gs"
    "mset (concat gs) = mset (startable_ids graph sat claims)" "list_all (board.compatible graph) gs" "[] \<notin> set gs"
    using board.groups_spec[OF known, of "[]"] by (auto simp: group_items_def)
  have pair: "\<not> item_clash graph (g ! i) (g ! j)"
    if g: "g \<in> set gs" and i: "i < length g" "j < length g" "i \<noteq> j" for g i j
  proof -
    have w: "sorted_wrt (\<lambda>x y. \<not> item_clash graph x y) g"
      using gs(3) g by (auto simp: list_all_iff board.compatible_def)
    have "set g \<subseteq> known_items graph"
      using gs(2) g known by (metis mset_eq_setD concat_eq_appendD in_set_conv_decomp set_concat UN_upper order_trans)
    then have mem: "g ! i \<in> known_items graph" "g ! j \<in> known_items graph" using i by auto
    show ?thesis
    proof (cases "i < j")
      case True
      then show ?thesis using w i by (auto simp: sorted_wrt_iff_nth_less)
    next
      case False
      then show ?thesis using w i board.clash_sym[OF mem] by (auto simp: sorted_wrt_iff_nth_less)
    qed
  qed
  have "parallel_groups graph satisfaction expected claims = Inr (JObj [(''schema_version'', JInt 1),
      (''status'', JStr ''ok''), (''board_sha256'', fld sat ''board_sha256''),
      (''groups'', JList (map (\<lambda>g. JList (map JStr g)) gs))])"
    by (simp add: parallel_groups_def ready_def r assms(2) ready_ids_eq[OF assms(1,3)] fld_JObj_Cons comp_def gs(1))
  then show ?thesis using gs(2,4) pair by (auto simp: fld_JObj_Cons)
qed

end
