(* ===== verification/Containment.thy ===== *)
theory Containment
  imports Readiness
begin

text \<open>
  The containment loops end on a checked graph: its \<open>parent_of\<close> relation is a forest (acyclic,
  at most one parent), which is what the locale \<open>forest\<close> asks for. The breadth-first loop then
  visits every strict descendant once, at its depth; the upward loop visits every strict
  ancestor once, nearest first.
\<close>

section \<open>Forests\<close>

definition succ_rel :: "edges \<Rightarrow> (string \<times> string) set" where
  "succ_rel E = {(a, b). b \<in> set (succs E a)}"

lemma finite_succ_rel: "finite (succ_rel E)"
proof -
  have "succ_rel E \<subseteq> set (map fst E) \<times> \<Union> (set ` snd ` set E)"
    by (auto simp: succ_rel_def succs_def split: option.splits dest!: sym[of "Some _"] map_of_SomeD)
      force+
  then show ?thesis by (rule finite_subset) auto
qed

locale forest =
  fixes E :: edges
  assumes acyclic: "acyclic (succ_rel E)"
    and one_parent: "(a, c) \<in> succ_rel E \<Longrightarrow> (b, c) \<in> succ_rel E \<Longrightarrow> a = b"
    and distinct_succs: "distinct (succs E a)"
begin

abbreviation (input) "r \<equiv> succ_rel E"

definition antichain :: "string set \<Rightarrow> bool" where
  "antichain S \<longleftrightarrow> (\<forall>x\<in>S. \<forall>y\<in>S. (x, y) \<notin> r\<^sup>+)"

lemma above_child:
  assumes "(x, c) \<in> r" "(y, c) \<in> r\<^sup>+"
  shows "(y, x) \<in> r\<^sup>*"
  using assms(2,1) by (cases rule: tranclE) (auto dest: one_parent trancl_into_rtrancl)

lemma children_antichain:
  assumes "antichain (insert x S)" "x \<notin> S"
  shows "antichain (S \<union> set (succs E x))" and "S \<inter> set (succs E x) = {}"
proof -
  have no_cycle: "(y, y) \<notin> r\<^sup>+" for y using acyclic by (simp add: acyclic_def)
  have child: "(x, c) \<in> r" if "c \<in> set (succs E x)" for c using that by (simp add: succ_rel_def)
  show "S \<inter> set (succs E x) = {}"
    using assms child unfolding antichain_def by blast
  show "antichain (S \<union> set (succs E x))"
    unfolding antichain_def
  proof (intro ballI notI)
    fix a b assume ab: "a \<in> S \<union> set (succs E x)" "b \<in> S \<union> set (succs E x)" "(a, b) \<in> r\<^sup>+"
    have xa: "(x, a) \<in> r" if "a \<notin> S" using ab(1) that child by blast
    show False
    proof (cases "b \<in> S")
      case True
      then show ?thesis
        using assms ab xa unfolding antichain_def by (metis insert_iff trancl_trans r_into_trancl)
    next
      case False
      then have "(a, x) \<in> r\<^sup>*" using ab above_child child by blast
      then show ?thesis
        using assms ab(1) xa no_cycle unfolding antichain_def
        by (metis insert_iff rtranclD r_into_trancl rtrancl_into_trancl2)
    qed
  qed
qed

lemma descend_spec:
  assumes "distinct (map fst Q)" "antichain (fst ` set Q)"
  shows "\<exists>R. descend E Q = Some R \<and> fst ` set R = r\<^sup>* `` (fst ` set Q) \<and> distinct (map fst R) \<and>
    (\<forall>(y, d) \<in> set R. \<exists>(x, d0) \<in> set Q. \<exists>n. d = d0 + n \<and> (x, y) \<in> r ^^ n)"
  using assms
proof (induction "card (r\<^sup>* `` (fst ` set Q))" arbitrary: Q rule: less_induct)
  case less
  show ?case
  proof (cases Q)
    case Nil
    then show ?thesis by (subst descend.simps) simp
  next
    case (Cons row rest)
    obtain x d where row: "row = (x, d)" by (cases row)
    let ?kids = "map (\<lambda>c. (c, Suc d)) (succs E x)"
    let ?Q = "rest @ ?kids"
    have x: "x \<notin> fst ` set rest" using less.prems(1) Cons row by auto
    have anti: "antichain (insert x (fst ` set rest))" using less.prems(2) Cons row by simp
    have anti': "antichain (fst ` set ?Q)" using children_antichain(1)[OF anti x] by (simp add: image_image image_Un)
    have dist': "distinct (map fst ?Q)"
      using less.prems(1) Cons children_antichain(2)[OF anti x] distinct_succs by (auto simp: comp_def)
    have reach: "r\<^sup>* `` (fst ` set Q) = insert x (r\<^sup>* `` (fst ` set ?Q))"
    proof -
      have "r\<^sup>* `` {x} = insert x (r\<^sup>* `` set (succs E x))"
        by (auto simp: succ_rel_def elim: converse_rtranclE intro: converse_rtrancl_into_rtrancl)
      moreover have "fst ` set Q = {x} \<union> fst ` set rest" "fst ` set ?Q = fst ` set rest \<union> set (succs E x)"
        using Cons row by (auto simp: image_Un image_image)
      ultimately show ?thesis by (simp only: Image_Un) blast
    qed
    have fresh: "x \<notin> r\<^sup>* `` (fst ` set ?Q)"
    proof
      assume "x \<in> r\<^sup>* `` (fst ` set ?Q)"
      then obtain y where y: "y \<in> fst ` set rest \<union> set (succs E x)" "(y, x) \<in> r\<^sup>*"
        by (auto simp: image_Un image_image)
      show False
      proof (cases "y \<in> fst ` set rest")
        case True
        with y(2) x anti show ?thesis unfolding antichain_def by (metis insert_iff rtranclD)
      next
        case False
        with y have "(x, x) \<in> r\<^sup>+" by (auto simp: succ_rel_def intro: rtrancl_into_trancl2)
        then show ?thesis using acyclic by (simp add: acyclic_def)
      qed
    qed
    have fin: "finite (r\<^sup>* `` (fst ` set ?Q))" using finite_succ_rel by (intro finite_rtrancl_Image) auto
    have "card (r\<^sup>* `` (fst ` set ?Q)) < card (r\<^sup>* `` (fst ` set Q))"
      unfolding reach using fin fresh by simp
    from less.hyps[OF this dist' anti'] obtain R where R: "descend E ?Q = Some R"
      "fst ` set R = r\<^sup>* `` (fst ` set ?Q)" "distinct (map fst R)"
      "\<forall>(y, d) \<in> set R. \<exists>(x, d0) \<in> set ?Q. \<exists>n. d = d0 + n \<and> (x, y) \<in> r ^^ n" by blast
    show ?thesis
    proof (rule exI[of _ "row # R"], intro conjI)
      show "descend E Q = Some (row # R)"
        by (subst descend.simps) (simp add: Cons row R(1)[simplified])
      show "fst ` set (row # R) = r\<^sup>* `` (fst ` set Q)" using R(2) row unfolding reach by simp
      show "distinct (map fst (row # R))" using R(2,3) row fresh by (simp add: image_iff)
      show "\<forall>(y, d) \<in> set (row # R). \<exists>(x, d0) \<in> set Q. \<exists>n. d = d0 + n \<and> (x, y) \<in> r ^^ n"
      proof (clarify)
        fix y e assume "(y, e) \<in> set (row # R)"
        then consider "(y, e) = row" | "(y, e) \<in> set R" by auto
        then show "\<exists>(x, d0) \<in> set Q. \<exists>n. e = d0 + n \<and> (x, y) \<in> r ^^ n"
        proof cases
          case 1
          then show ?thesis using Cons by (auto intro!: exI[of _ 0])
        next
          case 2
          with R(4) obtain z d0 n where z: "(z, d0) \<in> set ?Q" "e = d0 + n" "(z, y) \<in> r ^^ n" by blast
          show ?thesis
          proof (cases "(z, d0) \<in> set rest")
            case True
            then show ?thesis using z Cons by auto
          next
            case False
            with z(1) have "z \<in> set (succs E x)" "d0 = Suc d" by auto
            then have "(x, y) \<in> r ^^ Suc n" using z(3) relpow_Suc_I2[of x z r y n] by (simp add: succ_rel_def)
            with \<open>d0 = Suc d\<close> z(2) Cons row show ?thesis by (intro bexI[of _ "(x, d)"]) (auto intro!: exI[of _ "Suc n"])
          qed
        qed
      qed
    qed
  qed
qed

lemma descendants_spec:
  "\<exists>R. descend E (map (\<lambda>c. (c, 1)) (succs E x)) = Some R \<and> fst ` set R = r\<^sup>+ `` {x} \<and>
     distinct (map fst R) \<and> (\<forall>(y, d) \<in> set R. (x, y) \<in> r ^^ d)"
proof -
  let ?Q = "map (\<lambda>c. (c, 1::nat)) (succs E x)"
  have "antichain {x}" using acyclic by (simp add: antichain_def acyclic_def)
  from children_antichain(1)[of x "{}", OF this] have anti: "antichain (fst ` set ?Q)"
    by (simp add: image_image)
  have dist: "distinct (map fst ?Q)" using distinct_succs by (simp add: comp_def)
  from descend_spec[OF dist anti] obtain R where R: "descend E ?Q = Some R"
    "fst ` set R = r\<^sup>* `` (fst ` set ?Q)" "distinct (map fst R)"
    "\<forall>(y, d) \<in> set R. \<exists>(z, d0) \<in> set ?Q. \<exists>n. d = d0 + n \<and> (z, y) \<in> r ^^ n" by blast
  have "r\<^sup>* `` (fst ` set ?Q) = r\<^sup>+ `` {x}"
    by (auto simp: image_image succ_rel_def dest: tranclD intro: rtrancl_into_trancl2)
  moreover have "(x, y) \<in> r ^^ d" if "(y, d) \<in> set R" for y d
  proof -
    from bspec[OF R(4) that] obtain z n where "z \<in> set (succs E x)" "d = Suc n" "(z, y) \<in> r ^^ n"
      by auto
    then show ?thesis using relpow_Suc_I2[of x z r y n] by (simp add: succ_rel_def)
  qed
  ultimately show ?thesis
    using R(1-3) by (intro exI[of _ R] conjI) auto
qed

lemma ascend_spec:
  assumes "\<And>a c. map_of P c = Some a \<longleftrightarrow> (a, c) \<in> r"
  shows "\<exists>R. ascend P x n = Some R \<and> fst ` set R = {a. (a, x) \<in> r\<^sup>+} \<and>
    (\<forall>(a, d) \<in> set R. \<exists>k. d = n + k \<and> (a, x) \<in> r ^^ k) \<and> sorted_wrt (<) (map snd R)"
proof -
  have "wf r" using finite_acyclic_wf[OF finite_succ_rel acyclic] .
  then show ?thesis
  proof (induction x arbitrary: n rule: wf_induct_rule)
    case (less x)
    show ?case
    proof (cases "map_of P x")
      case None
      then have "(a, x) \<notin> r\<^sup>+" for a using assms by (metis option.distinct(1) tranclD2)
      with None show ?thesis by (subst ascend.simps) auto
    next
      case (Some p)
      then have p: "(p, x) \<in> r" using assms by blast
      from less[OF this, of "Suc n"] obtain R where R: "ascend P p (Suc n) = Some R"
        "fst ` set R = {a. (a, p) \<in> r\<^sup>+}"
        "\<forall>(a, d) \<in> set R. \<exists>k. d = Suc n + k \<and> (a, p) \<in> r ^^ k" "sorted_wrt (<) (map snd R)"
        by blast
      have up: "{a. (a, x) \<in> r\<^sup>+} = insert p {a. (a, p) \<in> r\<^sup>+}"
      proof (intro set_eqI)
        fix a
        have "(a, p) \<in> r\<^sup>*" if "(a, x) \<in> r\<^sup>+" using above_child[OF p that] .
        then show "a \<in> {a. (a, x) \<in> r\<^sup>+} \<longleftrightarrow> a \<in> insert p {a. (a, p) \<in> r\<^sup>+}"
          using p by (auto simp: rtrancl_eq_or_trancl)
      qed
      have depth: "\<exists>k. d = n + k \<and> (a, x) \<in> r ^^ k \<and> Suc n < d" if "(a, d) \<in> set R" for a d
      proof -
        from R(3) that obtain k where k: "d = Suc n + k" "(a, p) \<in> r ^^ k" by blast
        have "(a, p) \<in> r\<^sup>+" using R(2) that by force
        then have "k \<noteq> 0" using k(2) acyclic by (cases k) (auto simp: acyclic_def)
        then show ?thesis using k p by (intro exI[of _ "Suc k"]) (auto intro: relpow_Suc_I)
      qed
      show ?thesis
      proof (rule exI[of _ "(p, Suc n) # R"], intro conjI)
        show "ascend P x n = Some ((p, Suc n) # R)"
          by (subst ascend.simps) (simp add: Some R(1))
        show "fst ` set ((p, Suc n) # R) = {a. (a, x) \<in> r\<^sup>+}" using R(2) up by simp
        show "\<forall>(a, d) \<in> set ((p, Suc n) # R). \<exists>k. d = n + k \<and> (a, x) \<in> r ^^ k"
        proof (clarify)
          fix a d assume "(a, d) \<in> set ((p, Suc n) # R)"
          then consider "a = p" "d = Suc n" | "(a, d) \<in> set R" by auto
          then show "\<exists>k. d = n + k \<and> (a, x) \<in> r ^^ k"
          proof cases
            case 1
            then show ?thesis using p by (auto intro!: exI[of _ 1])
          next
            case 2
            then show ?thesis using depth by blast
          qed
        qed
        have "Suc n < d" if "(a, d) \<in> set R" for a d using depth[OF that] by blast
        then show "sorted_wrt (<) (map snd ((p, Suc n) # R))" using R(4) by auto
      qed
    qed
  qed
qed

end

section \<open>The containment of a graph\<close>

definition checked_children :: "json \<Rightarrow> edges" where
  "checked_children graph = (if checked graph then children_of graph else [])"

lemma map_of_graph: "map_of (map (\<lambda>i. (i, f i)) ks) k = (if k \<in> set ks then Some (f k) else None)"
  by (induction ks) auto

lemma succs_children_of: "checked graph \<Longrightarrow> succs (children_of graph) i = (case item_of graph i of None \<Rightarrow> []
    | Some x \<Rightarrow> sort (parent_of (item_rels x)))"
  using item_of_None[of graph i]
  by (auto simp: succs_def children_of_def map_of_graph split: option.splits)

lemma succ_rel_children:
  assumes "checked graph"
  shows "succ_rel (children_of graph) = link parent_of (items_of graph)"
proof -
  have "(a, b) \<in> succ_rel (children_of graph) \<longleftrightarrow>
      (\<exists>x. item_of graph a = Some x \<and> b \<in> set (parent_of (item_rels x)))" for a b
    by (cases "item_of graph a") (simp_all add: succ_rel_def succs_children_of[OF assms])
  then show ?thesis using item_of_iff[OF assms] by (auto simp: link_def)
qed

interpretation kids: forest "checked_children graph" for graph
proof (unfold_locales, goal_cases)
  case 1
  have "succ_rel [] = {}" by (simp add: succ_rel_def succs_def)
  then show ?case
    using checked_links[of graph] succ_rel_children[of graph]
    by (simp add: checked_children_def links_ok_def acyclic_def)
next
  case (2 a c b)
  then have "checked graph" by (auto simp: checked_children_def succ_rel_def succs_def split: if_splits)
  with 2 checked_links[OF this] show ?case
    by (auto simp: checked_children_def succ_rel_children links_ok_def single_valued_def)
next
  case (3 a)
  have "distinct (parent_of (item_rels x))" if "checked graph" "item_of graph a = Some x" for x
    using that item_of_iff item_clean_distinct by (metis checked_item_clean)
  then show ?case
    by (cases "checked graph"; cases "item_of graph a")
      (simp_all add: checked_children_def succs_children_of, simp_all add: succs_def)
qed

lemma map_of_functional:
  assumes "\<And>p q. (c, p) \<in> set xs \<Longrightarrow> (c, q) \<in> set xs \<Longrightarrow> p = q"
  shows "map_of xs c = Some p \<longleftrightarrow> (c, p) \<in> set xs"
proof
  assume "(c, p) \<in> set xs"
  then obtain q where "map_of xs c = Some q" by (metis weak_map_of_SomeI)
  with assms[OF \<open>(c, p) \<in> set xs\<close> map_of_SomeD[OF this]] show "map_of xs c = Some p" by simp
qed (rule map_of_SomeD)

lemma parents_of_rel:
  assumes "checked graph"
  shows "map_of (parents_of graph) c = Some p \<longleftrightarrow> (p, c) \<in> succ_rel (checked_children graph)"
proof -
  have mem: "(c, p) \<in> set (parents_of graph) \<longleftrightarrow> (p, c) \<in> succ_rel (children_of graph)" for c p
  proof -
    have "(c, p) \<in> set (parents_of graph) \<longleftrightarrow> (\<exists>cs. (p, cs) \<in> set (children_of graph) \<and> c \<in> set cs)"
      by (force simp: parents_of_def)
    also have "\<dots> \<longleftrightarrow> c \<in> set (succs (children_of graph) p)"
    proof -
      have "(p, cs) \<in> set (children_of graph) \<longleftrightarrow> map_of (children_of graph) p = Some cs" for cs
        by (auto simp: children_of_def map_of_graph)
      then show ?thesis by (cases "map_of (children_of graph) p") (simp_all add: succs_def)
    qed
    finally show ?thesis by (simp add: succ_rel_def)
  qed
  show ?thesis
    using kids.one_parent[of _ c graph] assms mem
    by (subst map_of_functional) (auto simp: checked_children_def)
qed

lemma containment_run:
  assumes "checked graph" "item_of graph i \<noteq> None"
    and "containment_rows graph i direction = Some (Inr rows)"
  shows "\<exists>receipt. containment graph i direction = Some (Inr receipt) \<and>
    fld receipt ''items'' = JList (map depth_row rows)"
proof -
  from assms(1) obtain r where "validate_graph graph = Inr r"
    by (auto simp: checked_def split: sum.splits)
  with assms(2,3) show ?thesis by (simp add: containment_def fld_JObj_Cons)
qed

text \<open>
  C6: on a checked graph both containment loops end. The descendants of an item are listed
  once each, exactly those below it in the \<open>parent_of\<close> relation, each with the length of its
  path; the ancestors are exactly the items above it, nearest first.
\<close>

theorem containment_exact:
  assumes "checked graph" "item_of graph i \<noteq> None"
  shows "\<exists>down up drows urows. containment graph i ''descendants'' = Some (Inr down) \<and>
    fld down ''items'' = JList (map depth_row drows) \<and> distinct (map fst drows) \<and>
    fst ` set drows = (link parent_of (items_of graph))\<^sup>+ `` {i} \<and>
    (\<forall>(j, d) \<in> set drows. (i, j) \<in> link parent_of (items_of graph) ^^ d) \<and>
    containment graph i ''ancestors'' = Some (Inr up) \<and>
    fld up ''items'' = JList (map depth_row urows) \<and>
    fst ` set urows = {j. (j, i) \<in> (link parent_of (items_of graph))\<^sup>+} \<and>
    sorted_wrt (<) (map snd urows)"
proof -
  have E: "checked_children graph = children_of graph" using assms(1) by (simp add: checked_children_def)
  from kids.descendants_spec[of graph i] obtain R where
    R: "descend (children_of graph) (map (\<lambda>c. (c, 1)) (succs (children_of graph) i)) = Some R"
    "fst ` set R = (link parent_of (items_of graph))\<^sup>+ `` {i}" "distinct (map fst R)"
    "\<forall>(y, d) \<in> set R. (i, y) \<in> link parent_of (items_of graph) ^^ d"
    unfolding E succ_rel_children[OF assms(1)] by blast
  from kids.ascend_spec[OF parents_of_rel[OF assms(1)], of i 0] obtain U where
    U: "ascend (parents_of graph) i 0 = Some U"
    "fst ` set U = {a. (a, i) \<in> (link parent_of (items_of graph))\<^sup>+}" "sorted_wrt (<) (map snd U)"
    unfolding E succ_rel_children[OF assms(1)] by blast
  from containment_run[OF assms, of "''descendants''" R] containment_run[OF assms, of "''ancestors''" U] R(1) U(1)
  obtain down up where "containment graph i ''descendants'' = Some (Inr down)"
    "fld down ''items'' = JList (map depth_row R)" "containment graph i ''ancestors'' = Some (Inr up)"
    "fld up ''items'' = JList (map depth_row U)"
    by (auto simp: containment_rows_def)
  with R U show ?thesis by blast
qed

end
