(* ===== verification/Board.thy ===== *)
theory Board
  imports Containment
begin

text \<open>
  A small board, used as the concrete input of the witnesses for the dependency functions and
  the claim registry: a goal with two tasks that write to different places, one of which
  consumes a validated artifact.
\<close>

definition board :: json where
  "board =
     JObj [(''schema_version'', JInt 1), (''graph_id'', JStr ''board''), (''evidence'', JList [JObj
     [(''id'', JStr ''EV-1''), (''kind'', JStr ''source_reference''), (''locator'', JStr ''a.md''),
     (''digest'', JStr ''sha256:0123456789abcdef0123456789abcdef0123456789abcdef0123456789abcdef''),
     (''state'', JStr ''validated''), (''claim_ids'', JList []), (''authority_effect'', JStr
     ''none''), (''acceptance_effect'', JStr ''none'')]]), (''work_items'', JList [JObj [(''id'',
     JStr ''W-GOAL''), (''kind'', JStr ''goal''), (''objective'', JStr ''Ship it.''), (''status'',
     JStr ''active''), (''clarity_tier'', JStr ''direct''), (''scope'', JObj [(''read'', JList [JStr
     ''docs'']), (''write'', JList [])]), (''done_condition'', JStr ''Shipped.''), (''validation'',
     JList [JObj [(''id'', JStr ''V''), (''kind'', JStr ''command''), (''instruction'', JStr
     ''run''), (''expected_result'', JStr ''0'')]]), (''relationships'', JObj [(''parent_of'', JList
     [JStr ''W-A'', JStr ''W-B'']), (''blocked_by'', JList []), (''related_to'', JList []),
     (''produces'', JList []), (''consumes'', JList [])])], JObj [(''id'', JStr ''W-A''), (''kind'',
     JStr ''task''), (''objective'', JStr ''Do a.''), (''status'', JStr ''queued''),
     (''clarity_tier'', JStr ''direct''), (''scope'', JObj [(''read'', JList [JStr ''docs/a'']),
     (''write'', JList [JStr ''src/a''])]), (''done_condition'', JStr ''Done.''), (''validation'',
     JList [JObj [(''id'', JStr ''V''), (''kind'', JStr ''command''), (''instruction'', JStr
     ''run''), (''expected_result'', JStr ''0'')]]), (''relationships'', JObj [(''parent_of'', JList
     []), (''blocked_by'', JList []), (''related_to'', JList []), (''produces'', JList []),
     (''consumes'', JList [JStr ''EV-1''])]), (''retry_policy'', JObj [(''max_attempts'', JInt 2),
     (''no_improvement_window'', JInt 1)])], JObj [(''id'', JStr ''W-B''), (''kind'', JStr
     ''task''), (''objective'', JStr ''Do b.''), (''status'', JStr ''queued''), (''clarity_tier'',
     JStr ''direct''), (''scope'', JObj [(''read'', JList []), (''write'', JList [JStr
     ''src/b''])]), (''done_condition'', JStr ''Done.''), (''validation'', JList [JObj [(''id'',
     JStr ''V''), (''kind'', JStr ''command''), (''instruction'', JStr ''run''),
     (''expected_result'', JStr ''0'')]])]])]"

definition board_satisfaction :: json where
  "board_satisfaction = JObj [(''schema_version'', JInt 1),
     (''board_sha256'', JStr (sha_prefix @ replicate 64 CHR ''a'')),
     (''satisfied_work_item_ids'', JList [])]"

lemma board_checked: "checked board"
  by code_simp

lemma board_satisfaction_ok: "validate_satisfaction board board_satisfaction None = Inr board_satisfaction"
  by code_simp

lemma board_item: "item_of board ''W-A'' \<noteq> None" "item_of board ''W-GOAL'' \<noteq> None"
  by code_simp+

section \<open>The properties of the read-only functions at the board\<close>

theorem ready_exact_witness:
  "\<exists>receipt. ready board board_satisfaction None [] = Inr receipt \<and>
     fld receipt ''ready_work_item_ids'' = JList (map JStr (startable_ids board board_satisfaction []))"
  using ready_exact[OF board_checked board_satisfaction_ok, of "[]"] by (auto simp: claims_ok_def)

theorem parallel_groups_safe_witness:
  "\<exists>receipt groups. parallel_groups board board_satisfaction None [] = Inr receipt \<and>
     fld receipt ''groups'' = JList (map (\<lambda>g. JList (map JStr g)) groups) \<and> [] \<notin> set groups"
  using parallel_groups_safe[OF board_checked board_satisfaction_ok, of "[]"] by (auto simp: claims_ok_def)

theorem containment_exact_witness:
  "\<exists>down rows. containment board ''W-GOAL'' ''descendants'' = Some (Inr down) \<and>
     fld down ''items'' = JList (map depth_row rows) \<and> distinct (map fst rows)"
  using containment_exact[OF board_checked board_item(2)] by blast

lemma board_groups:
  "parallel_groups board board_satisfaction None [] = Inr (JObj [(''schema_version'', JInt 1),
     (''status'', JStr ''ok''), (''board_sha256'', fld board_satisfaction ''board_sha256''),
     (''groups'', JList [JList [JStr ''W-A'', JStr ''W-B'']])])"
  by code_simp

end
