(* ===== verification/Registry.thy ===== *)
theory Registry
  imports Dependencies
begin

text \<open>
  The claim registry: the second half of \<open>scripts/workgraph_dependencies.py\<close>. A registry is a
  JSON document listing claims (leases on work items) with a fencing token each. An operation
  is a function from the registry to the registry and the row it returns; \<open>mutate\<close> is the
  locked read, verify, operate, verify, write cycle, its state the content of the file
  (\<open>None\<close> when there is no file). \<open>sha\<close> stands for \<open>hashlib.sha256(...).hexdigest()\<close>.
\<close>

section \<open>Holders and rows\<close>

definition holder_provenance :: "string list" where
  "holder_provenance = [''parent_assigned'', ''runtime_observed'', ''receipt_backed'']"

definition validate_holder :: "json \<Rightarrow> json result" where
  "validate_holder v =
     (if \<not> keys_are v [''role'', ''agent_id''] then dep_error ''dependency_holder_invalid''
      else bind (text_of (fld v ''role'') ''dependency_holder_role_invalid'') (\<lambda>_.
        let fact = fld v ''agent_id'' in
        if \<not> keys_are fact [''value'', ''provenance''] then dep_error ''dependency_holder_agent_id_invalid''
        else bind (text_of (fld fact ''value'') ''dependency_holder_agent_id_invalid'') (\<lambda>identity.
          if identity = ''unknown'' then dep_error ''dependency_holder_agent_id_unproved''
          else if \<not> hashable (fld fact ''provenance'') then Inl TypeError
          else if \<not> in_strs (fld fact ''provenance'') holder_provenance
          then dep_error ''dependency_holder_agent_id_unproved''
          else Inr v)))"

definition registry_keys :: "string list" where
  "registry_keys = [''schema_version'', ''next_fencing_token'', ''claims'']"

definition claim_keys :: "string list" where
  "claim_keys = [''claim_id'', ''request_id'', ''work_item_id'', ''holder'', ''attempt'', ''read_scope'',
     ''write_scope'', ''board_sha256'', ''acquired_at'', ''expires_at'', ''fencing_token'', ''state'',
     ''prior_claim_id'', ''outcome_history'']"

definition claim_states :: "string list" where
  "claim_states = [''active'', ''released'', ''failed'', ''recovered'']"

definition history_kinds :: "string list" where
  "history_kinds = [''claimed'', ''renewed'', ''released'', ''failed'', ''recovered'']"

definition history :: "string \<Rightarrow> json \<Rightarrow> json \<Rightarrow> json" where
  "history kind timestamp why = JObj [(''kind'', JStr kind), (''timestamp'', timestamp), (''reason'', why)]"

definition empty_registry :: json where
  "empty_registry = JObj [(''schema_version'', JInt 1), (''next_fencing_token'', JInt 1), (''claims'', JList [])]"

definition check_history_row :: "json \<Rightarrow> unit result" where
  "check_history_row row =
     (if \<not> keys_are row [''kind'', ''timestamp'', ''reason''] then dep_error ''dependency_registry_history_invalid''
      else if \<not> hashable (fld row ''kind'') then Inl TypeError
      else if \<not> in_strs (fld row ''kind'') history_kinds then dep_error ''dependency_registry_history_kind_invalid''
      else bind (time_of (fld row ''timestamp'') ''dependency_registry_history_time_invalid'') (\<lambda>_.
        bind (text_of (fld row ''reason'') ''dependency_registry_history_reason_invalid'') (\<lambda>_. Inr ())))"

definition check_scope :: "json \<Rightarrow> unit result" where
  "check_scope v =
     (if \<not> is_list v then dep_error ''dependency_claim_scope_invalid''
      else bind (mapR normalize_path (the_list v)) (\<lambda>ps.
        guard (the_list v = map JStr (sorted_set ps)) (DependencyError ''dependency_claim_scope_invalid'' None)))"

text \<open>The checks of one row after those of its two ids\<close>

definition check_row :: "json \<Rightarrow> unit result" where
  "check_row row =
     bind (text_of (fld row ''work_item_id'') ''dependency_claim_work_item_invalid'') (\<lambda>_.
     bind (validate_holder (fld row ''holder'')) (\<lambda>_.
     if \<not> positive_int (fld row ''attempt'') then dep_error ''dependency_claim_attempt_invalid''
     else if \<not> positive_int (fld row ''fencing_token'') then dep_error ''dependency_claim_token_invalid''
     else bind (check_scope (fld row ''read_scope'')) (\<lambda>_.
     bind (check_scope (fld row ''write_scope'')) (\<lambda>_.
     bind (hash_of (fld row ''board_sha256'') ''dependency_claim_board_hash_invalid'') (\<lambda>_.
     bind (time_of (fld row ''acquired_at'') ''dependency_claim_time_invalid'') (\<lambda>acquired.
     bind (time_of (fld row ''expires_at'') ''dependency_claim_time_invalid'') (\<lambda>expires.
     if expires \<le> acquired then dep_error ''dependency_claim_time_order_invalid''
     else if \<not> hashable (fld row ''state'') then Inl TypeError
     else if \<not> in_strs (fld row ''state'') claim_states then dep_error ''dependency_claim_state_invalid''
     else bind (if fld row ''prior_claim_id'' = JNull then Inr []
       else text_of (fld row ''prior_claim_id'') ''dependency_prior_claim_invalid'') (\<lambda>_.
     if \<not> is_list (fld row ''outcome_history'') \<or> the_list (fld row ''outcome_history'') = []
     then dep_error ''dependency_registry_history_invalid''
     else eachR check_history_row (the_list (fld row ''outcome_history''))))))))))"

section \<open>Verification\<close>

type_synonym seen_ids = "string list \<times> string list"

definition verify_row :: "seen_ids \<Rightarrow> json \<Rightarrow> seen_ids result" where
  "verify_row seen row = (case seen of (claim_ids, request_ids) \<Rightarrow>
     if \<not> keys_are row claim_keys then dep_error ''dependency_claim_shape_invalid''
     else bind (text_of (fld row ''claim_id'') ''dependency_claim_id_invalid'') (\<lambda>cid.
       bind (text_of (fld row ''request_id'') ''dependency_request_id_invalid'') (\<lambda>rid.
       if cid \<in> set claim_ids then dep_error ''dependency_claim_id_duplicate''
       else if rid \<in> set request_ids then dep_error ''dependency_request_id_duplicate''
       else bind (check_row row) (\<lambda>_. Inr (cid # claim_ids, rid # request_ids)))))"

definition token_of :: "json \<Rightarrow> int" where
  "token_of row = the_int (fld row ''fencing_token'')"

definition expected_last :: "string \<Rightarrow> string list" where
  "expected_last state = (if state = ''active'' then [''claimed'', ''renewed''] else [state])"

definition find_claim :: "json list \<Rightarrow> json \<Rightarrow> json option" where
  "find_claim claims cid = find (\<lambda>row. fld row ''claim_id'' = cid) claims"

definition check_lineage :: "json list \<Rightarrow> json \<Rightarrow> unit result" where
  "check_lineage claims row =
     bind (if fld row ''prior_claim_id'' = JNull then Inr ()
       else case find_claim claims (fld row ''prior_claim_id'') of
         None \<Rightarrow> dep_error ''dependency_prior_claim_missing''
       | Some prior \<Rightarrow>
           if token_of row \<le> token_of prior then dep_error ''dependency_registry_fencing_regression''
           else guard (fld prior ''work_item_id'' = fld row ''work_item_id'' \<and>
             the_int (fld row ''attempt'') = the_int (fld prior ''attempt'') + 1)
             (DependencyError ''dependency_claim_lineage_invalid'' None))
     (\<lambda>_. guard (in_strs (fld (last (the_list (fld row ''outcome_history''))) ''kind'')
         (expected_last (the_str (fld row ''state''))))
       (DependencyError ''dependency_claim_history_state_mismatch'' None))"

definition is_active :: "json \<Rightarrow> bool" where
  "is_active row = (fld row ''state'' = JStr ''active'')"

definition check_pair :: "json \<Rightarrow> json \<Rightarrow> unit result" where
  "check_pair first second =
     (if fld first ''work_item_id'' = fld second ''work_item_id''
      then dep_error ''dependency_registry_active_conflict''
      else bind (claim_conflict first second) (\<lambda>hit.
        guard (\<not> hit) (DependencyError ''dependency_registry_active_conflict'' None)))"

fun check_active :: "json list \<Rightarrow> unit result" where
  "check_active [] = Inr ()"
| "check_active (row # rows) = bind (eachR (check_pair row) rows) (\<lambda>_. check_active rows)"

definition claims_of :: "json \<Rightarrow> json list" where
  "claims_of registry = the_list (fld registry ''claims'')"

definition next_token :: "json \<Rightarrow> int" where
  "next_token registry = the_int (fld registry ''next_fencing_token'')"

definition verify_registry :: "json \<Rightarrow> json result" where
  "verify_registry v =
     (if \<not> keys_are v registry_keys then dep_error ''dependency_registry_shape_invalid''
      else if fld v ''schema_version'' \<noteq> JInt 1 then dep_error ''dependency_registry_version_invalid''
      else if \<not> positive_int (fld v ''next_fencing_token'') then dep_error ''dependency_registry_token_invalid''
      else if \<not> is_list (fld v ''claims'') then dep_error ''dependency_registry_claims_invalid''
      else let claims = claims_of v; tokens = map token_of claims in
        bind (foldR verify_row ([], []) claims) (\<lambda>_.
        if tokens \<noteq> sort tokens \<or> \<not> distinct tokens then dep_error ''dependency_registry_fencing_regression''
        else if tokens \<noteq> [] \<and> next_token v \<le> fold max tokens 0
        then dep_error ''dependency_registry_next_token_stale''
        else bind (eachR (check_lineage claims) claims) (\<lambda>_.
          bind (check_active (filter is_active claims)) (\<lambda>_.
          Inr (JObj [(''schema_version'', JInt 1), (''status'', JStr ''valid''),
            (''claim_count'', JInt (int (length claims))), (''head_fencing_token'', JInt (fold max tokens 0))])))))"

section \<open>Operations\<close>

text \<open>\<open>f"{request_id}\\0{item_id}\\0{token}"\<close>, hashed\<close>

definition claim_id_of :: "(string \<Rightarrow> string) \<Rightarrow> string \<Rightarrow> string \<Rightarrow> int \<Rightarrow> string" where
  "claim_id_of sha request item token =
     ''claim-'' @ take 24 (sha (request @ [CHR 0x00] @ item @ [CHR 0x00] @ dec_int token))"

definition set_claims :: "json list \<Rightarrow> json \<Rightarrow> json" where
  "set_claims rows registry = upd ''claims'' (JList rows) registry"

text \<open>Every active claim that excludes the new row\<close>

fun check_free :: "json \<Rightarrow> json list \<Rightarrow> unit result" where
  "check_free row [] = Inr ()"
| "check_free row (active # rest) =
     (if \<not> is_active active then check_free row rest
      else bind (if fld active ''work_item_id'' = fld row ''work_item_id'' then Inr True
        else claim_conflict row active) (\<lambda>hit.
        if hit then Inl (DependencyError ''dependency_claim_conflict'' (Some (fld active ''claim_id'')))
        else check_free row rest))"

text \<open>The arguments a new claim takes from its request\<close>

record claim_request =
  request :: string
  holder :: json
  board_hash :: string
  now_text :: string
  seconds :: int

definition expiry :: "string \<Rightarrow> int \<Rightarrow> string result" where
  "expiry now duration = time_text_result
     (bind (time_of (JStr now) ''dependency_timestamp_invalid'') (\<lambda>t. add_seconds t duration))"

definition claim_row :: "string \<Rightarrow> claim_request \<Rightarrow> string \<Rightarrow> int \<Rightarrow> string list \<times> string list \<Rightarrow> string \<Rightarrow> int \<Rightarrow> json \<Rightarrow> string \<Rightarrow> json" where
  "claim_row cid q item attempt s expires token prior why = JObj [
     (''claim_id'', JStr cid), (''request_id'', JStr (request q)), (''work_item_id'', JStr item),
     (''holder'', holder q), (''attempt'', JInt attempt),
     (''read_scope'', JList (map JStr (fst s))), (''write_scope'', JList (map JStr (snd s))),
     (''board_sha256'', JStr (board_hash q)), (''acquired_at'', JStr (now_text q)),
     (''expires_at'', JStr expires), (''fencing_token'', JInt token), (''state'', JStr ''active''),
     (''prior_claim_id'', prior),
     (''outcome_history'', JList [history ''claimed'' (JStr (now_text q)) (JStr why)])]"

definition new_claim :: "(string \<Rightarrow> string) \<Rightarrow> json \<Rightarrow> json \<Rightarrow> claim_request \<Rightarrow> int \<Rightarrow> json \<Rightarrow> string \<Rightarrow> (json \<times> json) result" where
  "new_claim sha registry item q attempt prior why =
     (let token = next_token registry; registry' = upd ''next_fencing_token'' (JInt (token + 1)) registry in
      bind (scopes item) (\<lambda>s.
      bind (expiry (now_text q) (seconds q)) (\<lambda>expires.
      let row = claim_row (claim_id_of sha (request q) (item_id item) token) q (item_id item) attempt s
        expires token prior why in
      bind (check_free row (claims_of registry)) (\<lambda>_.
      Inr (set_claims (claims_of registry @ [row]) registry', row)))))"

definition duration_of :: "json \<Rightarrow> int result" where
  "duration_of v = (if is_int v \<and> 1 \<le> the_int v \<and> the_int v \<le> 86400 then Inr (the_int v)
     else dep_error ''dependency_claim_duration_invalid'')"

definition check_current :: "json \<Rightarrow> json \<Rightarrow> string \<Rightarrow> json \<Rightarrow> unit result" where
  "check_current row h board token = bind (validate_holder h) (\<lambda>h.
     if \<not> py_eq (fld row ''holder'') h then dep_error ''dependency_claim_holder_mismatch''
     else if fld row ''board_sha256'' \<noteq> JStr board then dep_error ''dependency_claim_board_hash_mismatch''
     else if \<not> is_int token then dep_error ''dependency_claim_token_invalid''
     else guard (fld row ''fencing_token'' = token) (DependencyError ''dependency_claim_fenced'' None))"

definition mutate :: "json option \<Rightarrow> (json \<Rightarrow> (json \<times> json) result) \<Rightarrow> (json \<times> json) result" where
  "mutate file operation =
     bind (case file of None \<Rightarrow> Inr empty_registry | Some v \<Rightarrow> bind (verify_registry v) (\<lambda>_. Inr v)) (\<lambda>registry.
     bind (operation registry) (\<lambda>(registry', row).
     bind (verify_registry registry') (\<lambda>_. Inr (registry', row))))"

text \<open>the fields in which a repeated request must agree with the row it made\<close>

definition same_request :: "json \<Rightarrow> claim_request \<Rightarrow> string \<Rightarrow> string list \<times> string list \<Rightarrow> bool" where
  "same_request existing q expires s \<longleftrightarrow>
     py_eq (fld existing ''holder'') (holder q) \<and> fld existing ''board_sha256'' = JStr (board_hash q) \<and>
     fld existing ''acquired_at'' = JStr (now_text q) \<and> fld existing ''expires_at'' = JStr expires \<and>
     fld existing ''read_scope'' = JList (map JStr (fst s)) \<and> fld existing ''write_scope'' = JList (map JStr (snd s))"

definition find_request :: "json list \<Rightarrow> string \<Rightarrow> json option" where
  "find_request claims rid = find (\<lambda>row. fld row ''request_id'' = JStr rid) claims"

definition claim_op :: "(string \<Rightarrow> string) \<Rightarrow> json \<Rightarrow> claim_request \<Rightarrow> json \<Rightarrow> (json \<times> json) result" where
  "claim_op sha item q registry = (case find_request (claims_of registry) (request q) of
     Some existing \<Rightarrow>
       bind (expiry (now_text q) (seconds q)) (\<lambda>expires. bind (scopes item) (\<lambda>s.
       if fld existing ''work_item_id'' = JStr (item_id item) \<and> same_request existing q expires s
       then Inr (registry, existing) else dep_error ''dependency_request_id_reused''))
   | None \<Rightarrow> new_claim sha registry item q 1 JNull ''initial_claim'')"

text \<open>The checks on the untrusted arguments, in the order each operation makes them\<close>

definition claim :: "(string \<Rightarrow> string) \<Rightarrow> json option \<Rightarrow> json \<Rightarrow> json \<Rightarrow> string \<Rightarrow> json \<Rightarrow> json \<Rightarrow> json \<Rightarrow> json \<Rightarrow> string option \<Rightarrow> (json \<times> json) result" where
  "claim sha file graph satisfaction i request_id h now duration expected =
     bind (validate_graph graph) (\<lambda>_.
     bind (validate_satisfaction graph satisfaction expected) (\<lambda>sat.
     bind (validate_holder h) (\<lambda>h.
     bind (text_of request_id ''dependency_request_id_invalid'') (\<lambda>rid.
     bind (time_of now ''dependency_timestamp_invalid'') (\<lambda>_.
     bind (duration_of duration) (\<lambda>d.
     bind (reasons graph sat i []) (\<lambda>rs.
     if rs \<noteq> [] then Inl (DependencyError ''dependency_work_item_not_ready'' (Some (JList rs)))
     else mutate file (claim_op sha (the (item_of graph i))
       \<lparr>request = rid, holder = h, board_hash = the_str (fld sat ''board_sha256''),
        now_text = the_str now, seconds = d\<rparr>))))))))"

fun replace_claim :: "json \<Rightarrow> json \<Rightarrow> json list \<Rightarrow> json list" where
  "replace_claim cid row' [] = []"
| "replace_claim cid row' (row # rows) =
     (if fld row ''claim_id'' = cid then row' # rows else row # replace_claim cid row' rows)"

definition add_history :: "json \<Rightarrow> json \<Rightarrow> json" where
  "add_history entry row = upd ''outcome_history'' (JList (the_list (fld row ''outcome_history'') @ [entry])) row"

text \<open>The gates shared by the operations on an active claim\<close>

definition check_live :: "json \<Rightarrow> int \<Rightarrow> unit result" where
  "check_live row t =
     (if \<not> is_active row then dep_error ''dependency_claim_not_active''
      else bind (time_of (fld row ''acquired_at'') ''dependency_timestamp_invalid'') (\<lambda>acquired.
        if t < acquired then dep_error ''dependency_clock_reversal''
        else bind (time_of (fld row ''expires_at'') ''dependency_timestamp_invalid'') (\<lambda>expires.
          if expires \<le> t then dep_error ''dependency_claim_expired'' else Inr ())))"

definition renew_op :: "string \<Rightarrow> json \<Rightarrow> string \<Rightarrow> json \<Rightarrow> json \<Rightarrow> int \<Rightarrow> int \<Rightarrow> json \<Rightarrow> (json \<times> json) result" where
  "renew_op cid h board token now t d registry = (case find_claim (claims_of registry) (JStr cid) of
     None \<Rightarrow> dep_error ''dependency_claim_unknown''
   | Some row \<Rightarrow>
       bind (check_current row h board token) (\<lambda>_.
       bind (check_live row t) (\<lambda>_.
       bind (time_text_result (add_seconds t d)) (\<lambda>e.
       let row' = add_history (history ''renewed'' now (JStr ''lease_renewed''))
         (upd ''expires_at'' (JStr e) row) in
       Inr (set_claims (replace_claim (JStr cid) row' (claims_of registry)) registry, row')))))"

definition renew :: "json option \<Rightarrow> string \<Rightarrow> json \<Rightarrow> json \<Rightarrow> json \<Rightarrow> json \<Rightarrow> json \<Rightarrow> (json \<times> json) result" where
  "renew file cid h board token now duration =
     bind (hash_of board ''dependency_claim_board_hash_invalid'') (\<lambda>b.
     bind (time_of now ''dependency_timestamp_invalid'') (\<lambda>t.
     bind (duration_of duration) (\<lambda>d. mutate file (renew_op cid h b token now t d))))"

definition end_claim :: "string \<Rightarrow> json \<Rightarrow> json \<Rightarrow> json \<Rightarrow> json" where
  "end_claim state now why row = add_history (history state now why) (upd ''state'' (JStr state) row)"

definition release_op :: "string \<Rightarrow> json \<Rightarrow> string \<Rightarrow> json \<Rightarrow> json \<Rightarrow> int \<Rightarrow> json \<Rightarrow> (json \<times> json) result" where
  "release_op cid h board token now t registry = (case find_claim (claims_of registry) (JStr cid) of
     None \<Rightarrow> dep_error ''dependency_claim_unknown''
   | Some row \<Rightarrow>
       bind (check_current row h board token) (\<lambda>_.
       bind (check_live row t) (\<lambda>_.
       let row' = end_claim ''released'' now (JStr ''lease_released'') row in
       Inr (set_claims (replace_claim (JStr cid) row' (claims_of registry)) registry, row'))))"

definition release :: "json option \<Rightarrow> string \<Rightarrow> json \<Rightarrow> json \<Rightarrow> json \<Rightarrow> json \<Rightarrow> (json \<times> json) result" where
  "release file cid h board token now =
     bind (hash_of board ''dependency_claim_board_hash_invalid'') (\<lambda>b.
     bind (time_of now ''dependency_timestamp_invalid'') (\<lambda>t.
     mutate file (release_op cid h b token now t)))"

text \<open>\<open>item.get("retry_policy", {}).get("max_attempts", 1)\<close> of a validated item\<close>

definition max_attempts :: "json \<Rightarrow> int" where
  "max_attempts item = (if has_key item ''retry_policy''
     then the_int (fld (fld item ''retry_policy'') ''max_attempts'') else 1)"

definition attempt_of :: "json \<Rightarrow> int" where
  "attempt_of row = the_int (fld row ''attempt'')"

text \<open>
  A retry or recovery repeated with the same request id: the row it made is returned when the
  request, the prior claim's last outcome (\<open>ended\<close>) and the fence agree.
\<close>

definition replay_successor :: "json \<Rightarrow> string \<Rightarrow> claim_request \<Rightarrow> json \<Rightarrow> (json \<Rightarrow> bool) \<Rightarrow> json \<Rightarrow> json \<Rightarrow> (json \<times> json) result" where
  "replay_successor graph cid q ended fence existing registry =
     bind (expiry (now_text q) (seconds q)) (\<lambda>expires.
     case item_of graph (the_str (fld existing ''work_item_id'')) of
       None \<Rightarrow> dep_error ''dependency_request_id_reused''
     | Some item \<Rightarrow> bind (scopes item) (\<lambda>s.
         (case find_claim (claims_of registry) (JStr cid) of
           None \<Rightarrow> dep_error ''dependency_request_id_reused''
         | Some prior \<Rightarrow>
             if fld existing ''prior_claim_id'' = JStr cid \<and> same_request existing q expires s \<and>
                fence prior \<and> py_eq (last (the_list (fld prior ''outcome_history''))) ended
             then Inr (registry, existing) else dep_error ''dependency_request_id_reused'')))"

text \<open>The claim that ends and the one that replaces it\<close>

definition succeed_claim :: "(string \<Rightarrow> string) \<Rightarrow> json \<Rightarrow> string \<Rightarrow> claim_request \<Rightarrow> string \<Rightarrow> json \<Rightarrow> string \<Rightarrow> json \<Rightarrow> json \<Rightarrow> (json \<times> json) result" where
  "succeed_claim sha graph cid q state why_ended why_new row registry =
     (case item_of graph (the_str (fld row ''work_item_id'')) of
       None \<Rightarrow> Inl KeyError
     | Some item \<Rightarrow>
         if max_attempts item \<le> attempt_of row then dep_error ''dependency_retry_exhausted''
         else let row' = end_claim state (JStr (now_text q)) why_ended row in
           new_claim sha (set_claims (replace_claim (JStr cid) row' (claims_of registry)) registry)
             item q (attempt_of row + 1) (JStr cid) why_new)"

definition retry_op :: "(string \<Rightarrow> string) \<Rightarrow> json \<Rightarrow> string \<Rightarrow> claim_request \<Rightarrow> json \<Rightarrow> json \<Rightarrow> string \<Rightarrow> int \<Rightarrow> json \<Rightarrow> (json \<times> json) result" where
  "retry_op sha graph cid q h token why t registry =
     (case find_request (claims_of registry) (request q) of
       Some existing \<Rightarrow> replay_successor graph cid q (history ''failed'' (JStr (now_text q)) (JStr why))
         (\<lambda>prior. py_eq (fld prior ''fencing_token'') token) existing registry
     | None \<Rightarrow> (case find_claim (claims_of registry) (JStr cid) of
         None \<Rightarrow> dep_error ''dependency_claim_unknown''
       | Some row \<Rightarrow>
           bind (check_current row h (board_hash q) token) (\<lambda>_.
           bind (check_live row t) (\<lambda>_.
           succeed_claim sha graph cid q ''failed'' (JStr why) ''retry_after_failure'' row registry))))"

definition retry :: "(string \<Rightarrow> string) \<Rightarrow> json option \<Rightarrow> json \<Rightarrow> string \<Rightarrow> json \<Rightarrow> json \<Rightarrow> json \<Rightarrow> json \<Rightarrow> json \<Rightarrow> json \<Rightarrow> json \<Rightarrow> (json \<times> json) result" where
  "retry sha file graph cid request_id h board token now duration why =
     bind (validate_graph graph) (\<lambda>_.
     bind (validate_holder h) (\<lambda>h.
     bind (hash_of board ''dependency_claim_board_hash_invalid'') (\<lambda>b.
     bind (time_of now ''dependency_timestamp_invalid'') (\<lambda>t.
     bind (duration_of duration) (\<lambda>d.
     bind (text_of request_id ''dependency_request_id_invalid'') (\<lambda>rid.
     bind (text_of why ''dependency_retry_reason_invalid'') (\<lambda>w.
     mutate file (retry_op sha graph cid
       \<lparr>request = rid, holder = h, board_hash = b, now_text = the_str now, seconds = d\<rparr> h token w t))))))))"

text \<open>the gates of a recovery: the claim is active and has expired\<close>

definition check_expired :: "json \<Rightarrow> string \<Rightarrow> int \<Rightarrow> unit result" where
  "check_expired row board t =
     (if \<not> is_active row then dep_error ''dependency_claim_not_active''
      else if fld row ''board_sha256'' \<noteq> JStr board then dep_error ''dependency_claim_board_hash_mismatch''
      else bind (time_of (fld row ''acquired_at'') ''dependency_timestamp_invalid'') (\<lambda>acquired.
        if t < acquired then dep_error ''dependency_clock_reversal''
        else bind (time_of (fld row ''expires_at'') ''dependency_timestamp_invalid'') (\<lambda>expires.
          if t < expires then dep_error ''dependency_claim_not_expired'' else Inr ())))"

definition recover_op :: "(string \<Rightarrow> string) \<Rightarrow> json \<Rightarrow> string \<Rightarrow> claim_request \<Rightarrow> int \<Rightarrow> json \<Rightarrow> (json \<times> json) result" where
  "recover_op sha graph cid q t registry =
     (case find_request (claims_of registry) (request q) of
       Some existing \<Rightarrow> replay_successor graph cid q
         (history ''recovered'' (JStr (now_text q)) (JStr ''expired_claim_replaced'')) (\<lambda>_. True) existing registry
     | None \<Rightarrow> (case find_claim (claims_of registry) (JStr cid) of
         None \<Rightarrow> dep_error ''dependency_claim_unknown''
       | Some row \<Rightarrow>
           bind (check_expired row (board_hash q) t) (\<lambda>_.
           succeed_claim sha graph cid q ''recovered'' (JStr ''expired_claim_replaced'')
             ''stale_claim_recovery'' row registry)))"

definition recover :: "(string \<Rightarrow> string) \<Rightarrow> json option \<Rightarrow> json \<Rightarrow> string \<Rightarrow> json \<Rightarrow> json \<Rightarrow> json \<Rightarrow> json \<Rightarrow> json \<Rightarrow> (json \<times> json) result" where
  "recover sha file graph cid request_id h board now duration =
     bind (validate_graph graph) (\<lambda>_.
     bind (validate_holder h) (\<lambda>h.
     bind (hash_of board ''dependency_claim_board_hash_invalid'') (\<lambda>b.
     bind (time_of now ''dependency_timestamp_invalid'') (\<lambda>t.
     bind (duration_of duration) (\<lambda>d.
     bind (text_of request_id ''dependency_request_id_invalid'') (\<lambda>rid.
     mutate file (recover_op sha graph cid
       \<lparr>request = rid, holder = h, board_hash = b, now_text = the_str now, seconds = d\<rparr> t)))))))"

end
