(* ===== verification/Registry_Verify.thy ===== *)
theory Registry_Verify
  imports Registry Readiness
begin

text \<open>
  What \<open>verify_registry\<close> accepts, read as a predicate on the list of claims: well-formed rows,
  unique ids, strictly increasing fencing tokens below the next one, consistent lineage, and
  active claims that are pairwise separate. Each operation of the registry keeps it.
\<close>

section \<open>Rows\<close>

definition cid_of :: "json \<Rightarrow> string" where
  "cid_of row = the_str (fld row ''claim_id'')"

definition rid_of :: "json \<Rightarrow> string" where
  "rid_of row = the_str (fld row ''request_id'')"

definition row_ok :: "json \<Rightarrow> bool" where
  "row_ok row \<longleftrightarrow> keys_are row claim_keys \<and> nonblank (fld row ''claim_id'') \<and>
     nonblank (fld row ''request_id'') \<and> check_row row = Inr ()"

text \<open>two claims that can be active together\<close>

definition separate :: "json \<Rightarrow> json \<Rightarrow> bool" where
  "separate a b \<longleftrightarrow> fld a ''work_item_id'' \<noteq> fld b ''work_item_id'' \<and>
     (\<forall>s t. claim_scope a = Inr s \<longrightarrow> claim_scope b = Inr t \<longrightarrow> \<not> conflicting s t)"

definition exclusive :: "json list \<Rightarrow> bool" where
  "exclusive rows \<longleftrightarrow> sorted_wrt (\<lambda>a b. is_active a \<longrightarrow> is_active b \<longrightarrow> separate a b) rows"

definition registry_ok :: "json \<Rightarrow> bool" where
  "registry_ok v \<longleftrightarrow> keys_are v registry_keys \<and> fld v ''schema_version'' = JInt 1 \<and>
     positive_int (fld v ''next_fencing_token'') \<and> is_list (fld v ''claims'') \<and>
     (\<forall>row \<in> set (claims_of v). row_ok row) \<and>
     distinct (map cid_of (claims_of v)) \<and> distinct (map rid_of (claims_of v)) \<and>
     sorted_wrt (<) (map token_of (claims_of v)) \<and>
     (\<forall>row \<in> set (claims_of v). token_of row < next_token v) \<and>
     (\<forall>row \<in> set (claims_of v). check_lineage (claims_of v) row = Inr ()) \<and>
     exclusive (claims_of v)"

lemma check_scope_eq_Inr:
  "check_scope v = Inr u \<longleftrightarrow> (\<exists>ps. v = JList (map JStr ps) \<and> list_all good_path ps \<and> sorted ps \<and> distinct ps)"
proof -
  have "(\<exists>qs. vs = map JStr qs \<and> list_all good_path qs \<and> vs = map JStr (sorted_set qs)) \<longleftrightarrow>
      (\<exists>ps. vs = map JStr ps \<and> list_all good_path ps \<and> sorted ps \<and> distinct ps)" for vs
  proof
    assume "\<exists>qs. vs = map JStr qs \<and> list_all good_path qs \<and> vs = map JStr (sorted_set qs)"
    then obtain qs where "vs = map JStr qs" "list_all good_path qs" "vs = map JStr (sorted_set qs)" by blast
    then show "\<exists>ps. vs = map JStr ps \<and> list_all good_path ps \<and> sorted ps \<and> distinct ps"
      by (intro exI[of _ "sorted_set qs"]) (auto simp: list_all_iff)
  next
    assume "\<exists>ps. vs = map JStr ps \<and> list_all good_path ps \<and> sorted ps \<and> distinct ps"
    then show "\<exists>qs. vs = map JStr qs \<and> list_all good_path qs \<and> vs = map JStr (sorted_set qs)"
      by (auto simp: sorted_set_def distinct_remdups_id sorted_sort_id)
  qed
  then show ?thesis
    by (cases v) (auto simp: check_scope_def result_simps mapR_normalize)
qed

lemma check_row_eq_Inr:
  "check_row row = Inr u \<longleftrightarrow>
     nonblank (fld row ''work_item_id'') \<and> (\<exists>h. validate_holder (fld row ''holder'') = Inr h) \<and>
     positive_int (fld row ''attempt'') \<and> positive_int (fld row ''fencing_token'') \<and>
     check_scope (fld row ''read_scope'') = Inr () \<and> check_scope (fld row ''write_scope'') = Inr () \<and>
     (\<exists>s. fld row ''board_sha256'' = JStr s \<and> sha_text s) \<and>
     (\<exists>a e c d. time_of (fld row ''acquired_at'') c = Inr a \<and> time_of (fld row ''expires_at'') d = Inr e \<and> a < e) \<and>
     (\<exists>s. fld row ''state'' = JStr s \<and> s \<in> set claim_states) \<and>
     (fld row ''prior_claim_id'' = JNull \<or> nonblank (fld row ''prior_claim_id'')) \<and>
     is_list (fld row ''outcome_history'') \<and> the_list (fld row ''outcome_history'') \<noteq> [] \<and>
     (\<forall>h \<in> set (the_list (fld row ''outcome_history'')). check_history_row h = Inr ())"
proof -
  have state: "hashable v \<and> in_strs v S \<longleftrightarrow> (\<exists>s. v = JStr s \<and> s \<in> set S)" for v S
    by (cases v) (auto simp: hashable_def in_strs_def)
  have str: "(\<exists>s. text_of v c = Inr s) \<longleftrightarrow> nonblank v" for v c
    by (auto simp: text_of_def)
  have prior: "(\<exists>s. (if v = JNull then Inr [] else text_of v c) = Inr s) \<longleftrightarrow> v = JNull \<or> nonblank v" for v c
    using str[of v c] by auto
  show ?thesis
    unfolding check_row_def bind_eq_Inr if_raise_eq_Inr hash_of_eq_Inr eachR_eq_Inr
    using state[of "fld row ''state''" claim_states] str[of "fld row ''work_item_id''"]
      prior[of "fld row ''prior_claim_id''"]
    by (auto simp: not_le time_of_eq_Inr)
qed

lemma row_scope:
  assumes "row_ok row"
  obtains s where "claim_scope row = Inr s" "good_scope s"
    "fld row ''read_scope'' = JList (map JStr (fst s))" "fld row ''write_scope'' = JList (map JStr (snd s))"
proof -
  from assms obtain rs ws where
    r: "fld row ''read_scope'' = JList (map JStr rs)" "list_all good_path rs" "sorted rs" "distinct rs" and
    w: "fld row ''write_scope'' = JList (map JStr ws)" "list_all good_path ws" "sorted ws" "distinct ws"
    by (auto simp: row_ok_def check_row_eq_Inr check_scope_eq_Inr)
  then have good: "good_scope (rs, ws)" by (auto simp: good_scope_def list_all_iff)
  from claim_scope_row[OF this] have "claim_scope row = Inr (rs, ws)"
    by (simp add: claim_scope_def scope_row_def fld_JObj_Cons r(1) w(1))
  with good that r w show ?thesis by simp
qed

lemma separate_sym: "row_ok a \<Longrightarrow> row_ok b \<Longrightarrow> separate a b \<longleftrightarrow> separate b a"
  using conflicting_sym unfolding separate_def by (metis row_scope sum.inject(2))

lemma check_pair_eq_Inr:
  assumes "row_ok a" "row_ok b"
  shows "check_pair a b = Inr u \<longleftrightarrow> separate a b"
proof -
  obtain s where s: "claim_scope a = Inr s" using row_scope[OF assms(1)] by blast
  obtain t where t: "claim_scope b = Inr t" using row_scope[OF assms(2)] by blast
  show ?thesis by (auto simp: check_pair_def separate_def claim_conflict_eq[OF s t] s t result_simps)
qed

lemma check_active_eq_Inr:
  assumes "\<forall>row \<in> set rows. row_ok row"
  shows "check_active (filter is_active rows) = Inr u \<longleftrightarrow> exclusive rows"
  using assms
proof (induction rows)
  case Nil
  then show ?case by (simp add: exclusive_def)
next
  case (Cons a rows)
  have "eachR (check_pair a) (filter is_active rows) = Inr () \<longleftrightarrow>
      (\<forall>b \<in> set rows. is_active b \<longrightarrow> separate a b)"
    using Cons.prems by (auto simp: result_simps check_pair_eq_Inr)
  moreover have "check_active (filter is_active rows) = Inr u \<longleftrightarrow> exclusive rows"
    using Cons by simp
  ultimately show ?case by (auto simp: exclusive_def result_simps)
qed

section \<open>The whole registry\<close>

lemma verify_row_eq_Inr:
  "verify_row (cids, rids) row = Inr s \<longleftrightarrow> row_ok row \<and> cid_of row \<notin> set cids \<and> rid_of row \<notin> set rids \<and>
     s = (cid_of row # cids, rid_of row # rids)"
  by (auto simp: verify_row_def row_ok_def cid_of_def rid_of_def result_simps elim!: nonblankE)

lemma verify_rows_eq_Inr:
  "(\<exists>s. foldR verify_row (cids, rids) rows = Inr s) \<longleftrightarrow>
     (\<forall>row \<in> set rows. row_ok row) \<and> distinct (map cid_of rows) \<and> distinct (map rid_of rows) \<and>
     set (map cid_of rows) \<inter> set cids = {} \<and> set (map rid_of rows) \<inter> set rids = {}"
proof (induction rows arbitrary: cids rids)
  case Nil
  then show ?case by simp
next
  case (Cons row rows)
  have "(\<exists>s. foldR verify_row (cids, rids) (row # rows) = Inr s) \<longleftrightarrow>
      row_ok row \<and> cid_of row \<notin> set cids \<and> rid_of row \<notin> set rids \<and>
      (\<exists>s. foldR verify_row (cid_of row # cids, rid_of row # rids) rows = Inr s)"
    by (auto simp: bind_eq_Inr verify_row_eq_Inr)
  then show ?case unfolding Cons.IH by auto
qed

lemma fold_max_less: "fold max xs (a::int) < n \<longleftrightarrow> a < n \<and> (\<forall>x\<in>set xs. x < n)"
  by (induction xs arbitrary: a) auto

lemma strictly_sorted: "tokens = sort tokens \<and> distinct tokens \<longleftrightarrow> sorted_wrt (<) (tokens :: int list)"
  by (metis sorted_sort sorted_sort_id strict_sorted_iff)

lemma verify_iff: "(\<exists>r. verify_registry v = Inr r) \<longleftrightarrow> registry_ok v"
proof -
  have tokens: "positive_int (fld v ''next_fencing_token'') \<Longrightarrow>
      \<not> (map token_of rows \<noteq> [] \<and> next_token v \<le> fold max (map token_of rows) 0) \<longleftrightarrow>
      (\<forall>row \<in> set rows. token_of row < next_token v)" for rows
    using fold_max_less[of "map token_of rows" 0 "next_token v"]
    by (cases rows) (auto simp: positive_int_def next_token_def not_le)
  have sorted: "\<not> (tokens \<noteq> sort tokens \<or> \<not> distinct tokens) \<longleftrightarrow> sorted_wrt (<) tokens" for tokens :: "int list"
    using strictly_sorted by blast
  have rows: "(\<exists>s. foldR verify_row ([], []) rows = Inr s) \<longleftrightarrow>
      (\<forall>row \<in> set rows. row_ok row) \<and> distinct (map cid_of rows) \<and> distinct (map rid_of rows)" for rows
    unfolding verify_rows_eq_Inr by simp
  have "(\<exists>r. verify_registry v = Inr r) \<longleftrightarrow>
      keys_are v registry_keys \<and> fld v ''schema_version'' = JInt 1 \<and>
      positive_int (fld v ''next_fencing_token'') \<and> is_list (fld v ''claims'') \<and>
      (\<exists>s. foldR verify_row ([], []) (claims_of v) = Inr s) \<and>
      sorted_wrt (<) (map token_of (claims_of v)) \<and>
      \<not> (map token_of (claims_of v) \<noteq> [] \<and> next_token v \<le> fold max (map token_of (claims_of v)) 0) \<and>
      (\<forall>row \<in> set (claims_of v). check_lineage (claims_of v) row = Inr ()) \<and>
      (\<exists>u. check_active (filter is_active (claims_of v)) = Inr u)"
    unfolding verify_registry_def Let_def sorted[symmetric] by (auto simp: result_simps)
  also have "\<dots> \<longleftrightarrow> registry_ok v"
    unfolding rows registry_ok_def using tokens[of "claims_of v"] check_active_eq_Inr[of "claims_of v"] by blast
  finally show ?thesis .
qed

section \<open>Adding a row\<close>

lemma claims_of_set_claims [simp]: "claims_of (set_claims rows v) = rows"
  by (simp add: claims_of_def set_claims_def fld_upd)

lemma fld_set_claims: "fld (set_claims rows v) k = (if k = ''claims'' then JList rows else fld v k)"
  by (simp add: set_claims_def fld_upd)

lemma next_token_set_claims [simp]: "next_token (set_claims rows v) = next_token v"
  by (simp add: next_token_def set_claims_def fld_upd)

lemma claims_of_upd [simp]: "k \<noteq> ''claims'' \<Longrightarrow> claims_of (upd k x v) = claims_of v"
  by (simp add: claims_of_def fld_upd)

lemma next_token_upd [simp]: "next_token (upd ''next_fencing_token'' (JInt n) v) = n"
  by (simp add: next_token_def fld_upd)

lemma keys_registry_upd:
  "keys_are v registry_keys \<Longrightarrow> k \<in> set registry_keys \<Longrightarrow> keys_are (upd k x v) registry_keys"
  by (rule keys_are_upd)

lemma check_free_eq_Inr:
  assumes "row_ok row" "\<forall>a \<in> set rows. row_ok a"
  shows "check_free row rows = Inr u \<longleftrightarrow> (\<forall>a \<in> set rows. is_active a \<longrightarrow> separate a row)"
  using assms(2)
proof (induction rows)
  case Nil
  then show ?case by simp
next
  case (Cons a rows)
  then obtain s t where s: "claim_scope row = Inr s" "claim_scope a = Inr t"
    using row_scope assms(1) by (metis list.set_intros(1))
  have "(if fld a ''work_item_id'' = fld row ''work_item_id'' then Inr True else claim_conflict row a)
      = Inr (\<not> separate row a)"
    using s by (auto simp: separate_def claim_conflict_eq)
  then have "check_free row (a # rows) = (if is_active a \<and> \<not> separate row a
      then Inl (DependencyError ''dependency_claim_conflict'' (Some (fld a ''claim_id''))) else check_free row rows)"
    by simp
  then show ?case using Cons separate_sym[OF assms(1), of a] by auto
qed

lemma find_append: "find P (xs @ ys) = (case find P xs of None \<Rightarrow> find P ys | Some x \<Rightarrow> Some x)"
  by (induction xs) auto

lemma check_lineage_append:
  "check_lineage rows row = Inr () \<Longrightarrow> check_lineage (rows @ rest) row = Inr ()"
  by (auto simp: check_lineage_def result_simps find_claim_def find_append split: if_splits option.splits)

lemma registry_add:
  assumes "registry_ok v" "row_ok row" "token_of row = next_token v"
    "cid_of row \<notin> set (map cid_of (claims_of v))" "rid_of row \<notin> set (map rid_of (claims_of v))"
    "check_free row (claims_of v) = Inr ()" "check_lineage (claims_of v @ [row]) row = Inr ()"
  shows "registry_ok (set_claims (claims_of v @ [row]) (upd ''next_fencing_token'' (JInt (next_token v + 1)) v))"
proof -
  let ?v = "set_claims (claims_of v @ [row]) (upd ''next_fencing_token'' (JInt (next_token v + 1)) v)"
  have "\<forall>a \<in> set (claims_of v). is_active a \<longrightarrow> separate a row"
    using assms(1,2,6) check_free_eq_Inr[OF assms(2)] by (auto simp: registry_ok_def)
  then have "exclusive (claims_of ?v)"
    using assms(1) by (auto simp: registry_ok_def exclusive_def sorted_wrt_append)
  moreover have "keys_are ?v registry_keys \<and> fld ?v ''schema_version'' = JInt 1 \<and>
      positive_int (fld ?v ''next_fencing_token'') \<and> is_list (fld ?v ''claims'')"
    using assms(1) unfolding set_claims_def
    by (auto simp: registry_ok_def fld_upd positive_int_def next_token_def registry_keys_def intro!: keys_are_upd)
  moreover have "\<forall>a \<in> set (claims_of ?v). check_lineage (claims_of ?v) a = Inr ()"
    using assms(1,7) check_lineage_append by (auto simp: registry_ok_def)
  ultimately show ?thesis
    using assms(1-5) by (auto simp: registry_ok_def sorted_wrt_append)
qed

section \<open>Changing a row\<close>

text \<open>A changed row that keeps its place: everything but its state, times and history\<close>

definition place_keys :: "string list" where
  "place_keys = [''claim_id'', ''request_id'', ''work_item_id'', ''fencing_token'', ''attempt'',
     ''prior_claim_id'', ''read_scope'', ''write_scope'']"

definition keeps_place :: "json \<Rightarrow> json \<Rightarrow> bool" where
  "keeps_place row row' \<longleftrightarrow> (\<forall>k \<in> set place_keys. fld row' k = fld row k) \<and> (is_active row' \<longrightarrow> is_active row)"

lemma in_place_keys [simp]:
  "''claim_id'' \<in> set place_keys" "''request_id'' \<in> set place_keys" "''work_item_id'' \<in> set place_keys"
  "''fencing_token'' \<in> set place_keys" "''attempt'' \<in> set place_keys" "''prior_claim_id'' \<in> set place_keys"
  "''read_scope'' \<in> set place_keys" "''write_scope'' \<in> set place_keys"
  by (simp_all add: place_keys_def)

lemma replace_claim_map:
  assumes "distinct (map cid_of rows)" "\<forall>row \<in> set rows. row_ok row"
  shows "replace_claim (JStr cid) row' rows =
    map (\<lambda>row. if cid_of row = cid then row' else row) rows"
  using assms
proof (induction rows)
  case Nil
  then show ?case by simp
next
  case (Cons a rows)
  then have a: "fld a ''claim_id'' = JStr cid \<longleftrightarrow> cid_of a = cid"
    by (auto simp: row_ok_def cid_of_def elim!: nonblankE)
  have "map (\<lambda>row. if cid_of row = cid then row' else row) rows = rows" if "cid_of a = cid"
    using Cons.prems(1) that by (intro map_idI) (auto simp: image_iff)
  with Cons a show ?case by auto
qed

lemma find_claim_iff:
  assumes "registry_ok v"
  shows "find_claim (claims_of v) (JStr cid) = Some row \<longleftrightarrow> row \<in> set (claims_of v) \<and> cid_of row = cid"
proof -
  have id: "fld a ''claim_id'' = JStr (cid_of a)" if "a \<in> set (claims_of v)" for a
    using assms that by (auto simp: registry_ok_def row_ok_def cid_of_def elim!: nonblankE)
  have uniq: "a = b" if "a \<in> set (claims_of v)" "b \<in> set (claims_of v)" "cid_of a = cid_of b" for a b
    using assms that by (auto simp: registry_ok_def distinct_map dest: inj_onD)
  show ?thesis
  proof (cases "find_claim (claims_of v) (JStr cid)")
    case None
    then have "cid_of a \<noteq> cid" if "a \<in> set (claims_of v)" for a
      using that id by (auto simp: find_claim_def find_None_iff)
    with None show ?thesis by auto
  next
    case (Some a)
    then have "a \<in> set (claims_of v)" "fld a ''claim_id'' = JStr cid"
      by (auto simp: find_claim_def find_Some_iff)
    with id have a: "a \<in> set (claims_of v)" "cid_of a = cid" by fastforce+
    with Some uniq show ?thesis by auto
  qed
qed

lemma separate_cong:
  assumes "fld a' ''work_item_id'' = fld a ''work_item_id''" "fld b' ''work_item_id'' = fld b ''work_item_id''"
    "claim_scope a' = claim_scope a" "claim_scope b' = claim_scope b"
  shows "separate a' b' \<longleftrightarrow> separate a b"
  using assms by (simp add: separate_def)

lemma registry_change:
  assumes v: "registry_ok v" and found: "find_claim (claims_of v) (JStr cid) = Some row"
    and row': "row_ok row'" "keeps_place row row'" "in_strs (fld (last (the_list (fld row' ''outcome_history''))) ''kind'')
         (expected_last (the_str (fld row' ''state'')))"
  shows "registry_ok (set_claims (replace_claim (JStr cid) row' (claims_of v)) v)"
proof -
  define f where "f = (\<lambda>a. if cid_of a = cid then row' else a)"
  define rows where "rows = claims_of v"
  note ok = v[unfolded registry_ok_def, folded rows_def]
  have rows': "replace_claim (JStr cid) row' rows = map f rows"
    using ok unfolding f_def by (intro replace_claim_map) blast+
  have row: "row \<in> set rows" "cid_of row = cid" using found find_claim_iff[OF v] unfolding rows_def by blast+
  have f: "fld (f a) k = fld a k" if "a \<in> set rows" "k \<in> set place_keys" for a k
  proof (cases "cid_of a = cid")
    case True
    then have "a = row" using ok row that(1) by (auto simp: distinct_map dest: inj_onD)
    with True row'(2) that(2) show ?thesis unfolding f_def keeps_place_def by simp
  qed (simp add: f_def)
  have active: "is_active a" if "a \<in> set rows" "is_active (f a)" for a
  proof (cases "cid_of a = cid")
    case True
    then have "a = row" using ok row that(1) by (auto simp: distinct_map dest: inj_onD)
    then show ?thesis using row'(2) that(2) True unfolding f_def keeps_place_def by simp
  qed (use that in \<open>simp add: f_def\<close>)
  have ids: "map cid_of (map f rows) = map cid_of rows" "map rid_of (map f rows) = map rid_of rows"
    "map token_of (map f rows) = map token_of rows"
    using f by (auto simp: cid_of_def rid_of_def token_of_def)
  have good: "\<forall>a \<in> set (map f rows). row_ok a" using ok row'(1) by (auto simp: f_def)
  have scope: "claim_scope (f a) = claim_scope a" if "a \<in> set rows" for a
    using f[OF that] by (simp add: claim_scope_def)
  have excl: "exclusive (map f rows)"
  proof -
    have "exclusive rows" using ok by blast
    then show ?thesis
      unfolding exclusive_def sorted_wrt_map
      by (rule sorted_wrt_mono_rel[rotated]) (use active f scope in \<open>auto simp: separate_def\<close>)
  qed
  have lineage: "check_lineage (map f rows) (f a) = Inr ()" if a: "a \<in> set rows" for a
  proof -
    have old: "check_lineage rows a = Inr ()" using ok a by blast
    have find: "find_claim (map f rows) p = map_option f (find_claim rows p)" for p
      using f unfolding find_claim_def by (induction rows) auto
    have member: "b \<in> set rows" if "find_claim rows p = Some b" for b p
      using that by (auto simp: find_claim_def find_Some_iff)
    have last: "in_strs (fld (last (the_list (fld (f a) ''outcome_history''))) ''kind'')
         (expected_last (the_str (fld (f a) ''state'')))"
      using old row'(3) by (auto simp: f_def check_lineage_def result_simps)
    show ?thesis
    proof (cases "fld a ''prior_claim_id'' = JNull")
      case True
      then show ?thesis using last f[OF a] by (simp add: check_lineage_def result_simps)
    next
      case False
      with old obtain b where b: "find_claim rows (fld a ''prior_claim_id'') = Some b" "\<not> token_of a \<le> token_of b"
        "fld b ''work_item_id'' = fld a ''work_item_id''"
        "the_int (fld a ''attempt'') = the_int (fld b ''attempt'') + 1"
        by (auto simp: check_lineage_def result_simps split: option.splits if_splits)
      then show ?thesis
        using False last f[OF a] f[OF member[OF b(1)]]
        by (simp add: check_lineage_def result_simps find token_of_def)
    qed
  qed
  have keys: "keys_are (set_claims (map f rows) v) registry_keys"
    using ok unfolding set_claims_def by (intro keys_are_upd) (auto simp: registry_keys_def)
  have below: "\<forall>a \<in> set (map f rows). token_of a < next_token v"
    using ok f by (auto simp: token_of_def)
  show ?thesis
    unfolding registry_ok_def rows_def[symmetric] rows' claims_of_set_claims next_token_set_claims ids
    using ok good keys below lineage excl by (simp add: fld_set_claims)
qed

end
