(* ===== verification/Transitions.thy ===== *)
theory Transitions
  imports Effects
begin

text \<open>
  Runs of a step relation. A component whose every step keeps an invariant and goes forward in
  a preorder keeps both along any run; the components instantiate the locale with their own
  steps and order, and their properties of reachable states rest on its facts.
\<close>

locale forward =
  fixes step :: "'s \<Rightarrow> 's \<Rightarrow> bool" and ok :: "'s \<Rightarrow> bool" and before :: "'s \<Rightarrow> 's \<Rightarrow> bool"
  assumes step_ok: "ok s \<Longrightarrow> step s t \<Longrightarrow> ok t"
    and step_before: "ok s \<Longrightarrow> step s t \<Longrightarrow> before s t"
    and before_refl: "before s s"
    and before_trans: "before s t \<Longrightarrow> before t u \<Longrightarrow> before s u"
begin

lemma run:
  assumes "step\<^sup>*\<^sup>* s t" "ok s"
  shows "ok t \<and> before s t"
  using assms
proof (induction rule: rtranclp_induct)
  case base
  then show ?case by (simp add: before_refl)
next
  case (step t u)
  then show ?case using step_ok step_before before_trans by blast
qed

lemma run_ok: "step\<^sup>*\<^sup>* s t \<Longrightarrow> ok s \<Longrightarrow> ok t"
  using run by blast

lemma run_before: "step\<^sup>*\<^sup>* s t \<Longrightarrow> ok s \<Longrightarrow> before s t"
  using run by blast

end

end
