(* ===== verification/Registry_Safety.thy ===== *)
theory Registry_Safety
  imports Registry_Verify Transitions
begin

text \<open>
  The registry as a lease service. Every operation with checked arguments turns a verified
  registry into one that verifies again (unless two claims hash to one id), and along any
  sequence of operations the claims keep their place, ended claims stay ended and new claims
  get larger fencing tokens.
\<close>

section \<open>New claims\<close>

lemma parse_time_not_blank: "parse_time s = Some t \<Longrightarrow> \<not> blank s"
  by (cases s) (auto simp: parse_time_def is_digit_def split: option.splits if_splits)

lemma expiry_eq_Inr:
  assumes "expiry now d = Inr e" "1 \<le> d"
  obtains t u where "parse_time now = Some t" "\<not> blank now" "u = t + d * 1000000" "e = time_text u"
    "parse_time e = Some u" "t < u" "\<not> blank e"
proof -
  from assms(1) obtain t u where t: "parse_time now = Some t" "\<not> blank now" "add_seconds t d = Inr u" "e = time_text u"
    by (auto simp: expiry_def result_simps)
  have "parse_time e = Some u" using add_seconds_text[OF t(1,3)] assms(2) t(4) by simp
  moreover have "u = t + d * 1000000" using t(3) by (auto simp: add_seconds_def Let_def split: if_splits)
  ultimately show ?thesis using that t assms(2) parse_time_not_blank by auto
qed

lemma claim_row_fields [simp]:
  "fld (claim_row cid q item attempt s e token prior why) ''claim_id'' = JStr cid"
  "fld (claim_row cid q item attempt s e token prior why) ''request_id'' = JStr (request q)"
  "fld (claim_row cid q item attempt s e token prior why) ''work_item_id'' = JStr item"
  "fld (claim_row cid q item attempt s e token prior why) ''holder'' = holder q"
  "fld (claim_row cid q item attempt s e token prior why) ''attempt'' = JInt attempt"
  "fld (claim_row cid q item attempt s e token prior why) ''read_scope'' = JList (map JStr (fst s))"
  "fld (claim_row cid q item attempt s e token prior why) ''write_scope'' = JList (map JStr (snd s))"
  "fld (claim_row cid q item attempt s e token prior why) ''board_sha256'' = JStr (board_hash q)"
  "fld (claim_row cid q item attempt s e token prior why) ''acquired_at'' = JStr (now_text q)"
  "fld (claim_row cid q item attempt s e token prior why) ''expires_at'' = JStr e"
  "fld (claim_row cid q item attempt s e token prior why) ''fencing_token'' = JInt token"
  "fld (claim_row cid q item attempt s e token prior why) ''state'' = JStr ''active''"
  "fld (claim_row cid q item attempt s e token prior why) ''prior_claim_id'' = prior"
  "fld (claim_row cid q item attempt s e token prior why) ''outcome_history'' =
     JList [history ''claimed'' (JStr (now_text q)) (JStr why)]"
  by (simp_all add: claim_row_def fld_JObj_Cons)

lemma history_row_ok:
  "kind \<in> set history_kinds \<Longrightarrow> parse_time now = Some t \<Longrightarrow> \<not> blank why \<Longrightarrow>
     check_history_row (history kind (JStr now) (JStr why)) = Inr ()"
  using parse_time_not_blank[of now]
  by (simp add: check_history_row_def history_def keys_are_def keys_def fld_JObj_Cons time_of_def text_of_def)

text \<open>What a request must satisfy; the operations check it before they touch the registry.\<close>

definition request_ok :: "claim_request \<Rightarrow> bool" where
  "request_ok q \<longleftrightarrow> \<not> blank (request q) \<and> (\<exists>h. validate_holder (holder q) = Inr h) \<and>
     sha_text (board_hash q) \<and> 1 \<le> seconds q"

lemma claim_id_not_blank: "\<not> blank (claim_id_of sha r i n)"
  by (simp add: claim_id_of_def code_def)

lemma claim_row_ok:
  assumes "request_ok q" "\<not> blank item" "1 \<le> attempt" "good_scope s" "expiry (now_text q) (seconds q) = Inr e"
    "1 \<le> token" "prior = JNull \<or> nonblank prior" "\<not> blank why"
  shows "row_ok (claim_row (claim_id_of sha r i n) q item attempt s e token prior why)" (is "row_ok ?row")
proof -
  obtain t u where t: "parse_time (now_text q) = Some t" "\<not> blank (now_text q)" "parse_time e = Some u" "t < u" "\<not> blank e"
    using expiry_eq_Inr[OF assms(5)] assms(1) unfolding request_ok_def by metis
  have scope: "check_scope (JList (map JStr (fst s))) = Inr ()" "check_scope (JList (map JStr (snd s))) = Inr ()"
    using assms(4) unfolding check_scope_eq_Inr by (auto simp: good_scope_def list_all_iff)
  have times: "\<exists>a e' c d. time_of (JStr (now_text q)) c = Inr a \<and> time_of (JStr e) d = Inr e' \<and> a < e'"
    using t by (auto simp: time_of_def text_of_def)
  have hist: "check_history_row (history ''claimed'' (JStr (now_text q)) (JStr why)) = Inr ()"
    by (rule history_row_ok[OF _ t(1) assms(8)]) (simp add: history_kinds_def)
  have "keys_are ?row claim_keys" by (simp add: claim_row_def keys_are_def keys_def claim_keys_def)
  moreover have "check_row ?row = Inr ()"
    unfolding check_row_eq_Inr
    using assms scope times hist
    by (simp add: request_ok_def positive_int_def claim_states_def)
  ultimately show ?thesis
    using assms(1) claim_id_not_blank by (simp add: row_ok_def request_ok_def)
qed

lemma find_request_None:
  assumes "registry_ok v" "find_request (claims_of v) rid = None"
  shows "rid \<notin> set (map rid_of (claims_of v))"
proof
  assume "rid \<in> set (map rid_of (claims_of v))"
  then obtain row where "row \<in> set (claims_of v)" "rid_of row = rid" by auto
  then have "fld row ''request_id'' = JStr rid"
    using assms(1) by (auto simp: registry_ok_def row_ok_def rid_of_def elim!: nonblankE)
  with \<open>row \<in> set (claims_of v)\<close> assms(2) show False by (auto simp: find_request_def find_None_iff)
qed

text \<open>The prior claim that a successor names\<close>

definition prior_ok :: "json \<Rightarrow> json \<Rightarrow> string \<Rightarrow> int \<Rightarrow> bool" where
  "prior_ok v prior item attempt \<longleftrightarrow> prior = JNull \<or>
     (\<exists>row \<in> set (claims_of v). prior = JStr (cid_of row) \<and> fld row ''work_item_id'' = JStr item \<and>
        attempt = attempt_of row + 1)"

lemma new_claim_ok:
  assumes v: "registry_ok v" and q: "request_ok q" and item: "\<not> blank (item_id item)" and attempt: "1 \<le> attempt"
    and prior: "prior_ok v prior (item_id item) attempt" and why: "\<not> blank why"
    and fresh: "request q \<notin> set (map rid_of (claims_of v))" "cid_of row \<notin> set (map cid_of (claims_of v))"
    and new: "new_claim sha v item q attempt prior why = Inr (v', row)"
  shows "registry_ok v' \<and> claims_of v' = claims_of v @ [row] \<and> next_token v' = next_token v + 1 \<and>
    token_of row = next_token v \<and> attempt_of row = attempt \<and> fld row ''work_item_id'' = JStr (item_id item)"
proof -
  from new obtain s e where s: "scopes item = Inr s" "expiry (now_text q) (seconds q) = Inr e"
    and row: "row = claim_row (claim_id_of sha (request q) (item_id item) (next_token v)) q (item_id item)
      attempt s e (next_token v) prior why"
    and free: "check_free row (claims_of v) = Inr ()"
    and v': "v' = set_claims (claims_of v @ [row]) (upd ''next_fencing_token'' (JInt (next_token v + 1)) v)"
    by (auto simp: new_claim_def Let_def result_simps)
  have nt: "1 \<le> next_token v" using v by (auto simp: registry_ok_def positive_int_def next_token_def)
  have prior_text: "prior = JNull \<or> nonblank prior"
    using prior v by (auto simp: prior_ok_def registry_ok_def row_ok_def cid_of_def elim!: nonblankE)
  have ok: "row_ok row"
    unfolding row using q item attempt scopes_good[OF s(1)] s(2) nt prior_text why by (intro claim_row_ok) auto
  have token: "token_of row = next_token v" by (simp add: row token_of_def)
  have hist: "in_strs (fld (last (the_list (fld row ''outcome_history''))) ''kind'')
      (expected_last (the_str (fld row ''state'')))"
    by (simp add: row history_def fld_JObj_Cons expected_last_def)
  have lineage: "check_lineage (claims_of v @ [row]) row = Inr ()"
  proof (cases "prior = JNull")
    case True
    then show ?thesis using hist by (simp add: check_lineage_def row guard_def)
  next
    case False
    with prior obtain p where p: "p \<in> set (claims_of v)" "prior = JStr (cid_of p)"
      "fld p ''work_item_id'' = JStr (item_id item)" "attempt = attempt_of p + 1"
      by (auto simp: prior_ok_def)
    then have "find_claim (claims_of v) prior = Some p" using find_claim_iff[OF v] by simp
    then have "find_claim (claims_of v @ [row]) prior = Some p" by (simp add: find_claim_def find_append)
    moreover have "token_of p < next_token v" using v p(1) by (auto simp: registry_ok_def)
    ultimately show ?thesis
      using hist p(3,4) token False by (simp add: check_lineage_def row guard_def attempt_of_def)
  qed
  have "rid_of row = request q" by (simp add: row rid_of_def)
  with registry_add[OF v ok token fresh(2) _ free lineage] fresh(1)
  have "registry_ok v'" by (simp add: v')
  then show ?thesis by (simp add: v' token) (simp add: row attempt_of_def)
qed

section \<open>Changed claims\<close>

lemma add_history_fields [simp]:
  "k \<noteq> ''outcome_history'' \<Longrightarrow> fld (add_history h row) k = fld row k"
  "fld (add_history h row) ''outcome_history'' = JList (the_list (fld row ''outcome_history'') @ [h])"
  by (simp_all add: add_history_def fld_upd)

lemma keys_claim_upd: "keys_are row claim_keys \<Longrightarrow> k \<in> set claim_keys \<Longrightarrow> keys_are (upd k x row) claim_keys"
  by (rule keys_are_upd)

lemma end_claim_ok:
  assumes "row_ok row" "is_active row" "state \<in> set [''released'', ''failed'', ''recovered'']"
    "parse_time now = Some t" "\<not> blank why"
  shows "row_ok (end_claim state (JStr now) (JStr why) row)"
    and "keeps_place row (end_claim state (JStr now) (JStr why) row)"
    and "in_strs (fld (last (the_list (fld (end_claim state (JStr now) (JStr why) row) ''outcome_history''))) ''kind'')
      (expected_last (the_str (fld (end_claim state (JStr now) (JStr why) row) ''state'')))"
    and "\<not> is_active (end_claim state (JStr now) (JStr why) row)"
proof -
  let ?row = "end_claim state (JStr now) (JStr why) row"
  have f: "fld ?row k = fld row k" if "k \<noteq> ''state''" "k \<noteq> ''outcome_history''" for k
    using that by (simp add: end_claim_def fld_upd)
  have s: "fld ?row ''state'' = JStr state" by (simp add: end_claim_def fld_upd)
  have h: "fld ?row ''outcome_history'' = JList (the_list (fld row ''outcome_history'') @
      [history state (JStr now) (JStr why)])"
    by (simp add: end_claim_def fld_upd)
  have state: "state \<in> set claim_states" "state \<in> set history_kinds" "state \<noteq> ''active''"
    using assms(3) by (auto simp: claim_states_def history_kinds_def)
  have "keys_are ?row claim_keys"
    using assms(1) unfolding row_ok_def end_claim_def add_history_def
    by (intro keys_are_upd) (simp_all add: claim_keys_def)
  then show "row_ok ?row"
    using assms(1) history_row_ok[OF state(2) assms(4,5)] state(1)
    unfolding row_ok_def check_row_eq_Inr h s
    by (simp add: f)
  show "keeps_place row ?row" using assms(2) by (simp add: keeps_place_def place_keys_def f)
  show "in_strs (fld (last (the_list (fld ?row ''outcome_history''))) ''kind'')
      (expected_last (the_str (fld ?row ''state'')))"
    using state(3) by (simp add: h s history_def fld_JObj_Cons expected_last_def)
  show "\<not> is_active ?row" using state(3) by (simp add: is_active_def s)
qed

lemma renewed_claim_ok:
  assumes "row_ok row" "is_active row" "parse_time now = Some t" "1 \<le> d" "add_seconds t d = Inr u"
    "time_of (fld row ''acquired_at'') c = Inr a" "a \<le> t"
  defines "row' \<equiv> add_history (history ''renewed'' (JStr now) (JStr ''lease_renewed''))
    (upd ''expires_at'' (JStr (time_text u)) row)"
  shows "row_ok row'" and "keeps_place row row'"
    and "in_strs (fld (last (the_list (fld row' ''outcome_history''))) ''kind'')
      (expected_last (the_str (fld row' ''state'')))"
proof -
  have f: "fld row' k = fld row k" if "k \<noteq> ''expires_at''" "k \<noteq> ''outcome_history''" for k
    using that by (simp add: row'_def fld_upd)
  have e: "fld row' ''expires_at'' = JStr (time_text u)" by (simp add: row'_def fld_upd)
  have h: "fld row' ''outcome_history'' = JList (the_list (fld row ''outcome_history'') @
      [history ''renewed'' (JStr now) (JStr ''lease_renewed'')])"
    by (simp add: row'_def fld_upd)
  have u: "parse_time (time_text u) = Some u" using add_seconds_text[OF assms(3,5)] assms(4) by simp
  have "t < u" using assms(4,5) by (auto simp: add_seconds_def Let_def split: if_splits)
  then have times: "\<exists>a e c d. time_of (fld row' ''acquired_at'') c = Inr a \<and> time_of (fld row' ''expires_at'') d = Inr e \<and> a < e"
    using assms(6,7) u parse_time_not_blank[OF u] by (auto simp: f e time_of_eq_Inr)
  have hist: "check_history_row (history ''renewed'' (JStr now) (JStr ''lease_renewed'')) = Inr ()"
    by (rule history_row_ok[OF _ assms(3)]) (simp_all add: history_kinds_def code_def)
  have "keys_are row' claim_keys"
    using assms(1) unfolding row_ok_def row'_def add_history_def
    by (intro keys_are_upd) (simp_all add: claim_keys_def)
  then show "row_ok row'"
    using assms(1) hist times unfolding row_ok_def check_row_eq_Inr h
    by (simp add: f)
  show "keeps_place row row'" using assms(2) by (simp add: keeps_place_def place_keys_def f is_active_def)
  show "in_strs (fld (last (the_list (fld row' ''outcome_history''))) ''kind'')
      (expected_last (the_str (fld row' ''state'')))"
    using assms(2) by (simp add: h f history_def fld_JObj_Cons expected_last_def is_active_def)
qed

section \<open>Operations\<close>

text \<open>The operations the five entry points run under the lock, with checked arguments\<close>

inductive registry_op :: "(string \<Rightarrow> string) \<Rightarrow> json \<Rightarrow> (json \<Rightarrow> (json \<times> json) result) \<Rightarrow> bool"
  for sha graph where
  op_claim: "checked graph \<Longrightarrow> item_of graph i = Some item \<Longrightarrow> request_ok q \<Longrightarrow>
    registry_op sha graph (claim_op sha item q)"
| op_renew: "parse_time now = Some t \<Longrightarrow> 1 \<le> d \<Longrightarrow>
    registry_op sha graph (renew_op cid h b token (JStr now) t d)"
| op_release: "parse_time now = Some t \<Longrightarrow>
    registry_op sha graph (release_op cid h b token (JStr now) t)"
| op_retry: "checked graph \<Longrightarrow> request_ok q \<Longrightarrow> parse_time (now_text q) = Some t \<Longrightarrow> \<not> blank why \<Longrightarrow>
    registry_op sha graph (retry_op sha graph cid q h token why t)"
| op_recover: "checked graph \<Longrightarrow> request_ok q \<Longrightarrow> parse_time (now_text q) = Some t \<Longrightarrow>
    registry_op sha graph (recover_op sha graph cid q t)"

definition unique_ids :: "json \<Rightarrow> bool" where
  "unique_ids v = distinct (map cid_of (claims_of v))"

definition advances :: "json \<Rightarrow> json \<Rightarrow> bool" where
  "advances v v' \<longleftrightarrow> next_token v \<le> next_token v' \<and>
     (\<forall>row \<in> set (claims_of v). \<exists>row' \<in> set (claims_of v'). keeps_place row row') \<and>
     (\<forall>row' \<in> set (claims_of v'). (\<exists>row \<in> set (claims_of v). keeps_place row row') \<or> next_token v \<le> token_of row')"

lemma keeps_place_refl: "keeps_place row row"
  by (simp add: keeps_place_def)

lemma keeps_place_trans: "keeps_place a b \<Longrightarrow> keeps_place b c \<Longrightarrow> keeps_place a c"
  by (simp add: keeps_place_def)

lemma advances_refl: "advances v v"
  unfolding advances_def using keeps_place_refl by auto

lemma keeps_token: "keeps_place a b \<Longrightarrow> token_of b = token_of a"
  by (simp add: keeps_place_def token_of_def)

lemma advances_trans:
  assumes "advances u v" "advances v w"
  shows "advances u w"
  unfolding advances_def
proof (intro conjI ballI)
  show "next_token u \<le> next_token w" using assms by (simp add: advances_def)
  show "\<exists>c \<in> set (claims_of w). keeps_place a c" if "a \<in> set (claims_of u)" for a
    using assms that keeps_place_trans unfolding advances_def by meson
  show "(\<exists>a \<in> set (claims_of u). keeps_place a c) \<or> next_token u \<le> token_of c" if "c \<in> set (claims_of w)" for c
  proof (cases "\<exists>b \<in> set (claims_of v). keeps_place b c")
    case True
    then obtain b where b: "b \<in> set (claims_of v)" "keeps_place b c" by blast
    then show ?thesis using assms(1) keeps_place_trans keeps_token unfolding advances_def by metis
  next
    case False
    then show ?thesis using assms that unfolding advances_def by force
  qed
qed

lemma advances_append:
  assumes "claims_of v' = claims_of v @ [row]" "next_token v' = next_token v + 1" "token_of row = next_token v"
  shows "advances v v'"
  using assms keeps_place_refl unfolding advances_def by auto

lemma change_claim:
  assumes v: "registry_ok v" and found: "find_claim (claims_of v) (JStr cid) = Some row"
    and row': "row_ok row'" "keeps_place row row'"
      "in_strs (fld (last (the_list (fld row' ''outcome_history''))) ''kind'')
         (expected_last (the_str (fld row' ''state'')))"
  defines "v' \<equiv> set_claims (replace_claim (JStr cid) row' (claims_of v)) v"
  shows "registry_ok v'" and "advances v v'" and "map cid_of (claims_of v') = map cid_of (claims_of v)"
    and "map rid_of (claims_of v') = map rid_of (claims_of v)" and "row' \<in> set (claims_of v')"
    and "next_token v' = next_token v" and "\<forall>a \<in> set (claims_of v'). \<exists>b \<in> set (claims_of v). keeps_place b a"
proof -
  show "registry_ok v'" unfolding v'_def by (rule registry_change[OF v found row'])
  have row: "row \<in> set (claims_of v)" "cid_of row = cid" using found find_claim_iff[OF v] by blast+
  let ?f = "\<lambda>a. if cid_of a = cid then row' else a"
  have rows: "claims_of v' = map ?f (claims_of v)"
    unfolding v'_def using v by (simp add: registry_ok_def replace_claim_map)
  have f: "keeps_place a (?f a)" if "a \<in> set (claims_of v)" for a
    using that row row'(2) v keeps_place_refl by (auto simp: registry_ok_def distinct_map dest: inj_onD)
  then show "\<forall>a \<in> set (claims_of v'). \<exists>b \<in> set (claims_of v). keeps_place b a"
    unfolding rows set_map by blast
  moreover have "\<forall>a \<in> set (claims_of v). \<exists>b \<in> set (claims_of v'). keeps_place a b"
    using f unfolding rows set_map by blast
  ultimately show "advances v v'" by (simp add: advances_def v'_def)
  have "cid_of (?f a) = cid_of a \<and> rid_of (?f a) = rid_of a" if "a \<in> set (claims_of v)" for a
    using f[OF that] by (simp add: keeps_place_def cid_of_def rid_of_def)
  then show "map cid_of (claims_of v') = map cid_of (claims_of v)"
    "map rid_of (claims_of v') = map rid_of (claims_of v)" unfolding rows by (simp_all add: comp_def)
  show "row' \<in> set (claims_of v')" using row by (force simp: rows)
  show "next_token v' = next_token v" by (simp add: v'_def)
qed

text \<open>What every operation does to a verified registry\<close>

definition op_effect :: "json \<Rightarrow> json \<Rightarrow> bool" where
  "op_effect v v' \<longleftrightarrow> registry_ok v' \<and> advances v v'"

lemma item_id_not_blank:
  assumes "checked graph" "item_of graph i = Some item"
  shows "\<not> blank (item_id item)" "item_id item = i"
proof -
  have "item \<in> set (items_of graph)" "item_id item = i" using assms item_of_iff by blast+
  then obtain k where "item_clean item k" using checked_item_clean[OF assms(1)] by blast
  then show "\<not> blank (item_id item)" using item_clean_obj item_clean_id by fastforce
  show "item_id item = i" by fact
qed

lemma claim_op_effect:
  assumes "registry_ok v" "checked graph" "item_of graph i = Some item" "request_ok q"
    "claim_op sha item q v = Inr (v', row)" "unique_ids v'"
  shows "op_effect v v'"
proof (cases "find_request (claims_of v) (request q)")
  case (Some existing)
  with assms(5) have "v' = v" by (auto simp: claim_op_def result_simps)
  with assms(1) advances_refl show ?thesis by (simp add: op_effect_def)
next
  case None
  with assms(5) have new: "new_claim sha v item q 1 JNull ''initial_claim'' = Inr (v', row)"
    by (simp add: claim_op_def)
  then have "cid_of row \<notin> set (map cid_of (claims_of v))"
    using assms(6) by (auto simp: new_claim_def Let_def result_simps unique_ids_def)
  from new_claim_ok[OF assms(1,4) item_id_not_blank(1)[OF assms(2,3)] _ _ _ find_request_None[OF assms(1) None] this new]
  show ?thesis
    using advances_append by (simp add: op_effect_def prior_ok_def code_def)
qed

lemma succeed_claim_effect:
  assumes v: "registry_ok v" and graph: "checked graph" and q: "request_ok q"
    and t: "parse_time (now_text q) = Some t" and state: "state \<in> set [''failed'', ''recovered'']"
    and why: "\<not> blank why" "\<not> blank why_new" and found: "find_claim (claims_of v) (JStr cid) = Some row"
    and active: "is_active row" and rid: "request q \<notin> set (map rid_of (claims_of v))"
    and run: "succeed_claim sha graph cid q state (JStr why) why_new row v = Inr (v', new)" and ids: "unique_ids v'"
  shows "op_effect v v' \<and> (\<exists>item. item_of graph (the_str (fld row ''work_item_id'')) = Some item \<and>
    attempt_of new \<le> max_attempts item \<and> attempt_of new = attempt_of row + 1 \<and>
    fld new ''work_item_id'' = fld row ''work_item_id'' \<and> new \<in> set (claims_of v') \<and>
    (\<forall>a \<in> set (claims_of v'). a = new \<or> (\<exists>b \<in> set (claims_of v). keeps_place b a)))"
proof -
  from run obtain item where item: "item_of graph (the_str (fld row ''work_item_id'')) = Some item"
    by (auto simp: succeed_claim_def split: option.splits)
  define row' where "row' = end_claim state (JStr (now_text q)) (JStr why) row"
  define w where "w = set_claims (replace_claim (JStr cid) row' (claims_of v)) v"
  from run item have attempts: "\<not> max_attempts item \<le> attempt_of row"
    and new: "new_claim sha w item q (attempt_of row + 1) (JStr cid) why_new = Inr (v', new)"
    by (auto simp: succeed_claim_def Let_def w_def row'_def split: if_splits)
  have row: "row \<in> set (claims_of v)" "cid_of row = cid" using found find_claim_iff[OF v] by blast+
  have row_ok: "row_ok row" using v row(1) by (simp add: registry_ok_def)
  then have wid: "fld row ''work_item_id'' = JStr (item_id item)" "1 \<le> attempt_of row"
    using item_id_not_blank(2)[OF graph item]
    by (auto simp: row_ok_def check_row_eq_Inr attempt_of_def positive_int_def elim!: nonblankE)
  have "state \<in> set [''released'', ''failed'', ''recovered'']" using state by auto
  note ended = end_claim_ok[OF row_ok active this t why(1), folded row'_def]
  note w = change_claim[OF v found ended(1-3), folded w_def]
  have prior: "prior_ok w (JStr cid) (item_id item) (attempt_of row + 1)"
    using w(5) ended(2) row(2) wid(1) unfolding prior_ok_def
    by (intro disjI2 bexI[of _ row']) (auto simp: keeps_place_def cid_of_def attempt_of_def)
  have rid': "request q \<notin> set (map rid_of (claims_of w))" using rid w(4) by simp
  have cid': "cid_of new \<notin> set (map cid_of (claims_of w))"
    using new ids by (auto simp: new_claim_def Let_def result_simps unique_ids_def)
  have "1 \<le> attempt_of row + 1" using wid(2) by simp
  from new_claim_ok[OF w(1) q item_id_not_blank(1)[OF graph item] this prior why(2) rid' cid' new]
  have v': "registry_ok v'" "claims_of v' = claims_of w @ [new]" "next_token v' = next_token w + 1"
    "token_of new = next_token w" "attempt_of new = attempt_of row + 1" "fld new ''work_item_id'' = JStr (item_id item)"
    by blast+
  have "advances w v'" using advances_append[OF v'(2-4)] .
  then have "op_effect v v'" using v'(1) advances_trans[OF w(2)] by (simp add: op_effect_def)
  then show ?thesis using item attempts v' w(7) wid(1) by auto
qed

lemma check_live_eq_Inr:
  "check_live row t = Inr u \<longleftrightarrow> is_active row \<and>
     (\<exists>a e c d. time_of (fld row ''acquired_at'') c = Inr a \<and> time_of (fld row ''expires_at'') d = Inr e \<and>
        a \<le> t \<and> t < e)"
  by (auto simp: check_live_def result_simps)

lemma check_expired_eq_Inr:
  "check_expired row b t = Inr u \<longleftrightarrow> is_active row \<and> fld row ''board_sha256'' = JStr b \<and>
     (\<exists>a e c d. time_of (fld row ''acquired_at'') c = Inr a \<and> time_of (fld row ''expires_at'') d = Inr e \<and>
        a \<le> t \<and> e \<le> t)"
  by (auto simp: check_expired_def result_simps)

lemma row_in: "registry_ok v \<Longrightarrow> find_claim (claims_of v) (JStr cid) = Some row \<Longrightarrow> row_ok row"
  using find_claim_iff[of v cid row] by (simp add: registry_ok_def)

lemma renew_op_effect:
  assumes "registry_ok v" "parse_time now = Some t" "1 \<le> d"
    "renew_op cid h b token (JStr now) t d v = Inr (v', row')"
  shows "op_effect v v'"
proof -
  from assms(4) obtain row u where row: "find_claim (claims_of v) (JStr cid) = Some row"
    "check_live row t = Inr ()" "add_seconds t d = Inr u"
    and v': "v' = set_claims (replace_claim (JStr cid) (add_history (history ''renewed'' (JStr now) (JStr ''lease_renewed''))
         (upd ''expires_at'' (JStr (time_text u)) row)) (claims_of v)) v"
    by (auto simp: renew_op_def Let_def result_simps split: option.splits)
  from row(2) obtain a c where "is_active row" "time_of (fld row ''acquired_at'') c = Inr a" "a \<le> t"
    by (auto simp: check_live_eq_Inr)
  note new = renewed_claim_ok[OF row_in[OF assms(1) row(1)] this(1) assms(2,3) row(3) this(2,3)]
  from change_claim(1,2)[OF assms(1) row(1) new] show ?thesis by (simp add: op_effect_def v')
qed

lemma release_op_effect:
  assumes "registry_ok v" "parse_time now = Some t" "release_op cid h b token (JStr now) t v = Inr (v', row')"
  shows "op_effect v v'"
proof -
  from assms(3) obtain row where row: "find_claim (claims_of v) (JStr cid) = Some row" "check_live row t = Inr ()"
    and v': "v' = set_claims (replace_claim (JStr cid) (end_claim ''released'' (JStr now) (JStr ''lease_released'') row)
      (claims_of v)) v"
    by (auto simp: release_op_def Let_def result_simps split: option.splits)
  have "is_active row" using row(2) by (simp add: check_live_eq_Inr)
  from end_claim_ok(1-3)[OF row_in[OF assms(1) row(1)] this _ assms(2), of "''released''" "''lease_released''"]
    change_claim(1,2)[OF assms(1) row(1)]
  show ?thesis by (simp add: op_effect_def v' code_def)
qed

lemma replay_unchanged: "replay_successor graph cid q ended fence existing v = Inr (v', row) \<Longrightarrow> v' = v"
  by (auto simp: replay_successor_def result_simps split: option.splits if_splits)

lemma retry_op_effect:
  assumes "registry_ok v" "checked graph" "request_ok q" "parse_time (now_text q) = Some t" "\<not> blank why"
    "retry_op sha graph cid q h token why t v = Inr (v', new)" "unique_ids v'"
  shows "op_effect v v'"
proof (cases "find_request (claims_of v) (request q)")
  case (Some existing)
  with assms(6) have "v' = v" using replay_unchanged by (auto simp: retry_op_def)
  with assms(1) advances_refl show ?thesis by (simp add: op_effect_def)
next
  case None
  with assms(6) obtain row where row: "find_claim (claims_of v) (JStr cid) = Some row" "check_live row t = Inr ()"
    "succeed_claim sha graph cid q ''failed'' (JStr why) ''retry_after_failure'' row v = Inr (v', new)"
    by (auto simp: retry_op_def result_simps split: option.splits)
  have "is_active row" using row(2) by (simp add: check_live_eq_Inr)
  from succeed_claim_effect[OF assms(1-4) _ assms(5) _ row(1) this find_request_None[OF assms(1) None] row(3) assms(7)]
  show ?thesis by (simp add: code_def)
qed

lemma recover_op_effect:
  assumes "registry_ok v" "checked graph" "request_ok q" "parse_time (now_text q) = Some t"
    "recover_op sha graph cid q t v = Inr (v', new)" "unique_ids v'"
  shows "op_effect v v'"
proof (cases "find_request (claims_of v) (request q)")
  case (Some existing)
  with assms(5) have "v' = v" using replay_unchanged by (auto simp: recover_op_def)
  with assms(1) advances_refl show ?thesis by (simp add: op_effect_def)
next
  case None
  with assms(5) obtain row where row: "find_claim (claims_of v) (JStr cid) = Some row"
    "check_expired row (board_hash q) t = Inr ()"
    "succeed_claim sha graph cid q ''recovered'' (JStr ''expired_claim_replaced'') ''stale_claim_recovery'' row v = Inr (v', new)"
    by (auto simp: recover_op_def result_simps split: option.splits)
  have "is_active row" using row(2) by (simp add: check_expired_eq_Inr)
  from succeed_claim_effect[OF assms(1-4) _ _ _ row(1) this find_request_None[OF assms(1) None] row(3) assms(6)]
  show ?thesis by (simp add: code_def)
qed

lemma registry_op_effect:
  "registry_op sha graph op \<Longrightarrow> registry_ok v \<Longrightarrow> op v = Inr (v', row) \<Longrightarrow> unique_ids v' \<Longrightarrow> op_effect v v'"
  by (induction rule: registry_op.induct)
    (blast intro: claim_op_effect renew_op_effect release_op_effect retry_op_effect recover_op_effect)+

section \<open>Runs\<close>

text \<open>One successful call of an entry point on the registry file\<close>

definition registry_step :: "(string \<Rightarrow> string) \<Rightarrow> json \<Rightarrow> json \<Rightarrow> json \<Rightarrow> bool" where
  "registry_step sha graph v v' \<longleftrightarrow> (\<exists>op row. registry_op sha graph op \<and> mutate (Some v) op = Inr (v', row))"

lemma mutate_Some:
  "mutate (Some v) op = Inr (v', row) \<longleftrightarrow> registry_ok v \<and> op v = Inr (v', row) \<and> registry_ok v'"
  by (auto simp: mutate_def result_simps verify_iff[symmetric])

lemma registry_ok_unique: "registry_ok v \<Longrightarrow> unique_ids v"
  by (simp add: registry_ok_def unique_ids_def)

interpretation leases: forward "registry_step sha graph" registry_ok advances for sha graph
proof
  fix v v' assume "registry_ok v" "registry_step sha graph v v'"
  then obtain op row where op: "registry_op sha graph op" "op v = Inr (v', row)" "registry_ok v'"
    by (auto simp: registry_step_def mutate_Some)
  show "registry_ok v'" by (fact op(3))
  show "advances v v'"
    using registry_op_effect[OF op(1) \<open>registry_ok v\<close> op(2) registry_ok_unique[OF op(3)]] by (simp add: op_effect_def)
next
  show "advances v v" for v by (rule advances_refl)
  show "advances u v \<Longrightarrow> advances v w \<Longrightarrow> advances u w" for u v w by (rule advances_trans)
qed

end
