(* ===== verification/Registry_Properties.thy ===== *)
theory Registry_Properties
  imports Registry_Safety Board
begin

text \<open>
  The promises of the claim registry to the agents that use it, stated on the five entry
  points, with their witnesses at the board.
\<close>

section \<open>The entry points run operations\<close>

inductive registry_call :: "(string \<Rightarrow> string) \<Rightarrow> json \<Rightarrow> json option \<Rightarrow> json \<Rightarrow> json \<Rightarrow> bool" for sha graph where
  call_claim: "claim sha file graph satisfaction i rid h now duration expected = Inr (v, row) \<Longrightarrow>
    registry_call sha graph file v row"
| call_renew: "renew file cid h b token now duration = Inr (v, row) \<Longrightarrow> registry_call sha graph file v row"
| call_release: "release file cid h b token now = Inr (v, row) \<Longrightarrow> registry_call sha graph file v row"
| call_retry: "retry sha file graph cid rid h b token now duration why = Inr (v, row) \<Longrightarrow>
    registry_call sha graph file v row"
| call_recover: "recover sha file graph cid rid h b now duration = Inr (v, row) \<Longrightarrow>
    registry_call sha graph file v row"

lemma validate_holder_same: "validate_holder v = Inr h \<Longrightarrow> h = v"
  by (auto simp: validate_holder_def Let_def result_simps)

lemma duration_of_eq_Inr: "duration_of v = Inr d \<longleftrightarrow> v = JInt d \<and> 1 \<le> d \<and> d \<le> 86400"
  by (cases v) (auto simp: duration_of_def)

lemma satisfaction_hash: "validate_satisfaction graph s e = Inr sat \<Longrightarrow>
    sat = s \<and> (\<exists>b. fld s ''board_sha256'' = JStr b \<and> sha_text b)"
  by (auto simp: validate_satisfaction_def Let_def result_simps)

definition the_request :: "string \<Rightarrow> json \<Rightarrow> string \<Rightarrow> string \<Rightarrow> int \<Rightarrow> claim_request" where
  "the_request rid h b now d = \<lparr>request = rid, holder = h, board_hash = b, now_text = now, seconds = d\<rparr>"

lemma request_ok_intro:
  "\<not> blank rid \<Longrightarrow> validate_holder h = Inr h' \<Longrightarrow> sha_text b \<Longrightarrow> 1 \<le> d \<Longrightarrow> request_ok (the_request rid h b now d)"
  by (auto simp: request_ok_def the_request_def)

lemma checked_intro: "validate_graph graph = Inr r \<Longrightarrow> checked graph"
  by (simp add: checked_def)

lemma claim_runs:
  assumes "claim sha file graph satisfaction i rid h now duration expected = Inr (v, row)"
  obtains item r s b d where "checked graph" "item_of graph i = Some item"
    "request_ok (the_request r h b s d)" "mutate file (claim_op sha item (the_request r h b s d)) = Inr (v, row)"
    "rid = JStr r" "now = JStr s" "fld satisfaction ''board_sha256'' = JStr b" "duration = JInt d"
proof -
  from assms obtain g sat h' r t d where *: "validate_graph graph = Inr g"
    "validate_satisfaction graph satisfaction expected = Inr sat" "validate_holder h = Inr h'"
    "text_of rid ''dependency_request_id_invalid'' = Inr r" "time_of now ''dependency_timestamp_invalid'' = Inr t"
    "duration_of duration = Inr d" "reasons graph sat i [] = Inr []"
    "mutate file (claim_op sha (the (item_of graph i)) (the_request r h' (the_str (fld sat ''board_sha256'')) (the_str now) d)) = Inr (v, row)"
    by (auto simp: claim_def bind_eq_Inr the_request_def split: if_splits)
  from *(7) obtain item where item: "item_of graph i = Some item"
    by (auto simp: reasons_def split: option.splits)
  from satisfaction_hash[OF *(2)] obtain b where b: "sat = satisfaction" "fld satisfaction ''board_sha256'' = JStr b" "sha_text b"
    by blast
  have h: "h' = h" using validate_holder_same[OF *(3)] .
  have rid: "rid = JStr r" "\<not> blank r" using *(4) by (auto simp: text_of_eq_Inr)
  have d: "duration = JInt d" "1 \<le> d" using *(6) by (auto simp: duration_of_eq_Inr)
  obtain s where s: "now = JStr s" using *(5) by (auto simp: time_of_eq_Inr)
  show ?thesis
    by (rule that[OF checked_intro[OF *(1)] item request_ok_intro[OF rid(2) *(3) b(3) d(2)] _ rid(1) s b(2) d(1)])
      (use *(8) item b h s in simp)
qed

lemma now_text_the_request [simp]: "now_text (the_request r h b s d) = s" "request (the_request r h b s d) = r"
  "board_hash (the_request r h b s d) = b" "seconds (the_request r h b s d) = d" "holder (the_request r h b s d) = h"
  by (simp_all add: the_request_def)

lemma retry_runs:
  assumes "retry sha file graph cid rid h b token now duration why = Inr (v, row)"
  obtains r s t bb d w where "checked graph" "request_ok (the_request r h bb s d)" "parse_time s = Some t" "\<not> blank w"
    "mutate file (retry_op sha graph cid (the_request r h bb s d) h token w t) = Inr (v, row)"
    "rid = JStr r" "now = JStr s"
proof -
  from assms obtain g h' bb t d r w where *: "validate_graph graph = Inr g" "validate_holder h = Inr h'"
    "hash_of b ''dependency_claim_board_hash_invalid'' = Inr bb" "time_of now ''dependency_timestamp_invalid'' = Inr t"
    "duration_of duration = Inr d" "text_of rid ''dependency_request_id_invalid'' = Inr r"
    "text_of why ''dependency_retry_reason_invalid'' = Inr w"
    "mutate file (retry_op sha graph cid (the_request r h' bb (the_str now) d) h' token w t) = Inr (v, row)"
    unfolding retry_def bind_eq_Inr the_request_def by blast
  have h: "h' = h" using validate_holder_same[OF *(2)] .
  have "rid = JStr r" "\<not> blank r" "\<not> blank w" "sha_text bb" "1 \<le> d"
    using *(3,5-7) by (auto simp: text_of_eq_Inr hash_of_eq_Inr duration_of_eq_Inr)
  moreover obtain s where "now = JStr s" "parse_time s = Some t" using *(4) by (auto simp: time_of_eq_Inr)
  ultimately show ?thesis
    using that[OF checked_intro[OF *(1)] request_ok_intro[OF _ *(2)]] *(8) h by simp
qed

lemma recover_runs:
  assumes "recover sha file graph cid rid h b now duration = Inr (v, row)"
  obtains r s t bb d where "checked graph" "request_ok (the_request r h bb s d)" "parse_time s = Some t"
    "mutate file (recover_op sha graph cid (the_request r h bb s d) t) = Inr (v, row)"
    "rid = JStr r" "now = JStr s"
proof -
  from assms obtain g h' bb t d r where *: "validate_graph graph = Inr g" "validate_holder h = Inr h'"
    "hash_of b ''dependency_claim_board_hash_invalid'' = Inr bb" "time_of now ''dependency_timestamp_invalid'' = Inr t"
    "duration_of duration = Inr d" "text_of rid ''dependency_request_id_invalid'' = Inr r"
    "mutate file (recover_op sha graph cid (the_request r h' bb (the_str now) d) t) = Inr (v, row)"
    unfolding recover_def bind_eq_Inr the_request_def by blast
  have h: "h' = h" using validate_holder_same[OF *(2)] .
  have "rid = JStr r" "\<not> blank r" "sha_text bb" "1 \<le> d"
    using *(3,5,6) by (auto simp: text_of_eq_Inr hash_of_eq_Inr duration_of_eq_Inr)
  moreover obtain s where "now = JStr s" "parse_time s = Some t" using *(4) by (auto simp: time_of_eq_Inr)
  ultimately show ?thesis
    using that[OF checked_intro[OF *(1)] request_ok_intro[OF _ *(2)]] *(7) h by simp
qed

lemma call_is_op:
  assumes "registry_call sha graph file v row"
  shows "\<exists>op. registry_op sha graph op \<and> mutate file op = Inr (v, row)"
  using assms
proof (cases rule: registry_call.cases)
  case (call_claim satisfaction i rid h now duration expected)
  then show ?thesis by (elim claim_runs) (blast intro: op_claim)
next
  case (call_renew cid h b token now duration)
  then show ?thesis
    by (auto simp: renew_def bind_eq_Inr time_of_eq_Inr duration_of_eq_Inr intro: op_renew)
next
  case (call_release cid h b token now)
  then show ?thesis
    by (auto simp: release_def bind_eq_Inr time_of_eq_Inr intro: op_release)
next
  case (call_retry cid rid h b token now duration why)
  then show ?thesis by (elim retry_runs) (metis now_text_the_request(1) op_retry)
next
  case (call_recover cid rid h b now duration)
  then show ?thesis by (elim recover_runs) (metis now_text_the_request(1) op_recover)
qed

lemma call_is_step: "registry_call sha graph (Some v) v' row \<Longrightarrow> registry_step sha graph v v'"
  using call_is_op by (fastforce simp: registry_step_def)

section \<open>Concrete registries\<close>

definition demo_sha :: "string \<Rightarrow> string" where
  "demo_sha s = replicate 24 (last s) @ replicate 40 CHR ''a''"

definition demo_holder :: "string \<Rightarrow> json" where
  "demo_holder name = JObj [(''role'', JStr ''Worker''),
     (''agent_id'', JObj [(''value'', JStr name), (''provenance'', JStr ''parent_assigned'')])]"

definition demo_request :: "string \<Rightarrow> string \<Rightarrow> claim_request" where
  "demo_request rid now = the_request rid (demo_holder ''agent-1'') (sha_prefix @ replicate 64 CHR ''a'') now 60"

definition demo_claim :: "json option \<Rightarrow> string \<Rightarrow> string \<Rightarrow> (json \<times> json) result" where
  "demo_claim file i rid = claim demo_sha file board board_satisfaction i (JStr rid) (demo_holder ''agent-1'')
     (JStr ''2026-01-01T00:00:00Z'') (JInt 60) None"

text \<open>the registry after both tasks of the board have been claimed, and after one was released\<close>

definition demo_row :: "string \<Rightarrow> string \<Rightarrow> int \<Rightarrow> string list \<times> string list \<Rightarrow> json" where
  "demo_row rid i token s = claim_row (claim_id_of demo_sha rid i token) (demo_request rid ''2026-01-01T00:00:00Z'')
     i 1 s ''2026-01-01T00:01:00Z'' token JNull ''initial_claim''"

definition demo_registry :: json where
  "demo_registry = JObj [(''schema_version'', JInt 1), (''next_fencing_token'', JInt 3), (''claims'', JList [
     demo_row ''req-1'' ''W-A'' 1 ([''docs/a''], [''src/a'']), demo_row ''req-2'' ''W-B'' 2 ([], [''src/b''])])]"

lemma demo_registry_ok: "\<exists>r. verify_registry demo_registry = Inr r"
proof -
  have "case verify_registry demo_registry of Inl _ \<Rightarrow> False | Inr _ \<Rightarrow> True" by code_simp
  then show ?thesis by (auto split: sum.splits)
qed

lemma demo_claims: "length (claims_of demo_registry) = 2" "is_active (claims_of demo_registry ! 0)"
  "is_active (claims_of demo_registry ! 1)"
  by (simp_all add: demo_registry_def claims_of_def fld_JObj_Cons demo_row_def is_active_def)

lemma demo_claim_runs: "demo_claim (Some demo_registry) ''W-B'' ''req-2'' = Inr (demo_registry, claims_of demo_registry ! 1)"
  by code_simp

section \<open>Exclusion\<close>

text \<open>
  C7: in a verified registry two different active claims are on different work items, and no
  path written by one overlaps a path read or written by the other.
\<close>

theorem verified_claims_exclusive:
  assumes "verify_registry v = Inr r" "i < length (claims_of v)" "j < length (claims_of v)" "i \<noteq> j"
    "is_active (claims_of v ! i)" "is_active (claims_of v ! j)"
  shows "fld (claims_of v ! i) ''work_item_id'' \<noteq> fld (claims_of v ! j) ''work_item_id'' \<and>
    (\<forall>p \<in> set (string_entries (fld (claims_of v ! i) ''write_scope'')).
      \<forall>q \<in> set (string_entries (fld (claims_of v ! j) ''read_scope'')) \<union>
             set (string_entries (fld (claims_of v ! j) ''write_scope'')). \<not> overlaps p q)"
proof -
  have v: "registry_ok v" using assms(1) verify_iff by blast
  let ?a = "claims_of v ! i" and ?b = "claims_of v ! j"
  have rows: "row_ok ?a" "row_ok ?b" using v assms(2,3) by (auto simp: registry_ok_def)
  have sep: "separate ?a ?b"
  proof (cases "i < j")
    case True
    then show ?thesis using v assms by (auto simp: registry_ok_def exclusive_def sorted_wrt_iff_nth_less)
  next
    case False
    then have "separate ?b ?a" using v assms by (auto simp: registry_ok_def exclusive_def sorted_wrt_iff_nth_less)
    then show ?thesis using separate_sym[OF rows] by simp
  qed
  obtain s where s: "claim_scope ?a = Inr s" "good_scope s"
    "fld ?a ''read_scope'' = JList (map JStr (fst s))" "fld ?a ''write_scope'' = JList (map JStr (snd s))"
    using row_scope[OF rows(1)] by blast
  obtain t where t: "claim_scope ?b = Inr t" "good_scope t"
    "fld ?b ''read_scope'' = JList (map JStr (fst t))" "fld ?b ''write_scope'' = JList (map JStr (snd t))"
    using row_scope[OF rows(2)] by blast
  have entries: "set (string_entries (JList (map JStr ps))) \<subseteq> set ps" for ps
    by (auto simp: string_entries_def)
  have "\<not> conflicting s t" using sep s(1) t(1) by (simp add: separate_def)
  then have "\<forall>p \<in> set (snd s). \<forall>q \<in> set (fst t) \<union> set (snd t). \<not> overlaps p q"
    by (auto simp: conflicting_def path.clash_def scope_sets_def)
  then show ?thesis using sep entries unfolding s(3,4) t(3,4) by (auto simp: separate_def dest!: subsetD[OF entries])
qed

theorem verified_claims_exclusive_witness:
  "fld (claims_of demo_registry ! 0) ''work_item_id'' \<noteq> fld (claims_of demo_registry ! 1) ''work_item_id''"
  using verified_claims_exclusive[of demo_registry _ 0 1] demo_registry_ok demo_claims by fastforce

section \<open>Operations never corrupt the registry\<close>


definition demo_release :: "json \<Rightarrow> (json \<times> json) result" where
  "demo_release = release_op (claim_id_of demo_sha ''req-1'' ''W-A'' 1) (demo_holder ''agent-1'')
     (sha_prefix @ replicate 64 CHR ''a'') (JInt 1) (JStr ''2026-01-01T00:00:30Z'') 63902908830000000"

definition released_registry :: json where
  "released_registry = (case demo_release demo_registry of Inr (v, _) \<Rightarrow> v | Inl _ \<Rightarrow> JNull)"

lemma demo_release_runs: "\<exists>row. demo_release demo_registry = Inr (released_registry, row)"
proof -
  have "case demo_release demo_registry of Inl _ \<Rightarrow> False | Inr _ \<Rightarrow> True" by code_simp
  then show ?thesis by (auto simp: released_registry_def split: sum.splits)
qed

lemma demo_release_op: "registry_op sha graph demo_release"
proof -
  have "parse_time ''2026-01-01T00:00:30Z'' = Some 63902908830000000" by code_simp
  then show ?thesis unfolding demo_release_def by (rule op_release)
qed

lemma released_ids: "distinct (map cid_of (claims_of released_registry))"
  by code_simp


section \<open>Fencing\<close>

text \<open>any sequence of successful calls on the registry file\<close>

definition registry_calls :: "(string \<Rightarrow> string) \<Rightarrow> json \<Rightarrow> json \<Rightarrow> json \<Rightarrow> bool" where
  "registry_calls sha graph = (\<lambda>v v'. \<exists>row. registry_call sha graph (Some v) v' row)\<^sup>*\<^sup>*"

lemma calls_advance:
  assumes "registry_ok v" "registry_calls sha graph v v'"
  shows "registry_ok v' \<and> advances v v'"
proof -
  have "(registry_step sha graph)\<^sup>*\<^sup>* v v'"
    using assms(2) unfolding registry_calls_def
    by (rule mono_rtranclp[rule_format, rotated]) (auto intro: call_is_step)
  then show ?thesis using leases.run assms(1) by blast
qed

lemma keeps_place_same: "keeps_place a b \<Longrightarrow> cid_of b = cid_of a \<and> fld b ''work_item_id'' = fld a ''work_item_id'' \<and>
    token_of b = token_of a \<and> attempt_of b = attempt_of a \<and> (is_active b \<longrightarrow> is_active a)"
  by (simp add: keeps_place_def cid_of_def token_of_def attempt_of_def)

text \<open>
  C9: along any sequence of successful calls no claim disappears or changes its work item,
  attempt or fencing token, a claim that has ended never becomes active again, and every
  claim made later has a larger fencing token than all the claims there were.
\<close>

theorem fencing_tokens_increase:
  assumes "verify_registry v = Inr r" "registry_calls sha graph v v'"
  shows "(\<forall>row \<in> set (claims_of v). \<exists>row' \<in> set (claims_of v'). cid_of row' = cid_of row \<and>
      fld row' ''work_item_id'' = fld row ''work_item_id'' \<and> token_of row' = token_of row \<and>
      attempt_of row' = attempt_of row \<and> (is_active row' \<longrightarrow> is_active row)) \<and>
    (\<forall>row' \<in> set (claims_of v'). cid_of row' \<notin> cid_of ` set (claims_of v) \<longrightarrow>
      (\<forall>row \<in> set (claims_of v). token_of row < token_of row'))"
proof -
  have v: "registry_ok v" using assms(1) verify_iff by blast
  have adv: "advances v v'" using calls_advance[OF v assms(2)] by blast
  have new: "token_of row < token_of row'"
    if "row' \<in> set (claims_of v')" "cid_of row' \<notin> cid_of ` set (claims_of v)" "row \<in> set (claims_of v)" for row row'
  proof -
    have "next_token v \<le> token_of row'"
      using adv that(1,2) keeps_place_same unfolding advances_def by (metis image_eqI)
    moreover have "token_of row < next_token v" using v that(3) by (simp add: registry_ok_def)
    ultimately show ?thesis by simp
  qed
  show ?thesis using adv new keeps_place_same unfolding advances_def by metis
qed

lemma demo_calls: "registry_calls demo_sha board demo_registry demo_registry"
  using demo_claim_runs unfolding registry_calls_def demo_claim_def by (blast intro: call_claim)

theorem fencing_tokens_increase_witness:
  "\<exists>row' \<in> set (claims_of demo_registry). cid_of row' = cid_of (claims_of demo_registry ! 0) \<and>
     token_of row' = token_of (claims_of demo_registry ! 0)"
proof -
  have "claims_of demo_registry ! 0 \<in> set (claims_of demo_registry)" using demo_claims(1) by simp
  then show ?thesis using fencing_tokens_increase[OF _ demo_calls] demo_registry_ok by metis
qed

lemma ended_claim_later:
  assumes "registry_ok v" "registry_calls sha graph v v'" "row \<in> set (claims_of v)" "\<not> is_active row"
    "find_claim (claims_of v') (JStr (cid_of row)) = Some row'"
  shows "\<not> is_active row'"
proof -
  have v': "registry_ok v'" "advances v v'" using calls_advance[OF assms(1,2)] by blast+
  obtain later where "later \<in> set (claims_of v')" "keeps_place row later"
    using v'(2) assms(3) unfolding advances_def by blast
  moreover from this have "later = row'"
    using find_claim_iff[OF v'(1), of "cid_of row" later] keeps_place_same assms(5) by simp
  ultimately show ?thesis using assms(4) keeps_place_same by blast
qed

text \<open>
  C10: the holder of a claim that has ended can do nothing with it any more: whatever calls
  succeeded since, a renewal or release of it is refused, and a retry or recovery of it
  changes nothing (it can at most replay an answer given before).
\<close>

theorem ended_claim_is_fenced_off:
  assumes "verify_registry v = Inr r" "registry_calls sha graph v v'"
    "row \<in> set (claims_of v)" "\<not> is_active row"
  shows "(\<exists>e. renew (Some v') (cid_of row) h b token now duration = Inl e) \<and>
    (\<exists>e. release (Some v') (cid_of row) h b token now = Inl e) \<and>
    (retry sha (Some v') graph (cid_of row) rid h b token now duration why = Inr (w, answer) \<longrightarrow> w = v') \<and>
    (recover sha (Some v') graph (cid_of row) rid h b now duration = Inr (w, answer) \<longrightarrow> w = v')"
proof -
  have v: "registry_ok v" using assms(1) verify_iff by blast
  have ended: "\<not> is_active row'" if "find_claim (claims_of v') (JStr (cid_of row)) = Some row'" for row'
    using ended_claim_later[OF v assms(2-4) that] .
  have live: "check_live row' t \<noteq> Inr u" "check_expired row' bb t \<noteq> Inr u"
    if "find_claim (claims_of v') (JStr (cid_of row)) = Some row'" for row' t u bb
    using ended[OF that] by (simp_all add: check_live_eq_Inr check_expired_eq_Inr)
  have refused: "renew (Some v') (cid_of row) h b token now duration \<noteq> Inr x"
    "release (Some v') (cid_of row) h b token now \<noteq> Inr x" for x
    using live by (auto simp: renew_def release_def renew_op_def release_op_def mutate_def bind_eq_Inr
        split: option.splits prod.splits)
  have "w = v'" if run: "retry sha (Some v') graph (cid_of row) rid h b token now duration why = Inr (w, answer)"
  proof -
    obtain q t y where "retry_op sha graph (cid_of row) q h token y t v' = Inr (w, answer)"
      using retry_runs[OF run] by (metis mutate_Some)
    then show ?thesis
      using live replay_unchanged by (auto simp: retry_op_def bind_eq_Inr split: option.splits)
  qed
  moreover have "w = v'" if run: "recover sha (Some v') graph (cid_of row) rid h b now duration = Inr (w, answer)"
  proof -
    obtain q t where "recover_op sha graph (cid_of row) q t v' = Inr (w, answer)"
      using recover_runs[OF run] by (metis mutate_Some)
    then show ?thesis
      using live replay_unchanged by (auto simp: recover_op_def bind_eq_Inr split: option.splits)
  qed
  ultimately show ?thesis using refused by (metis sumE)
qed

lemma released_registry_ok: "\<exists>r. verify_registry released_registry = Inr r"
proof -
  have "registry_ok demo_registry" using demo_registry_ok verify_iff by blast
  then show ?thesis
    using registry_op_effect[OF demo_release_op] demo_release_runs released_ids
    by (auto simp: op_effect_def unique_ids_def verify_iff)
qed

lemma released_row: "claims_of released_registry ! 0 \<in> set (claims_of released_registry)"
  "\<not> is_active (claims_of released_registry ! 0)"
proof -
  have "length (claims_of released_registry) = 2" by code_simp
  then show "claims_of released_registry ! 0 \<in> set (claims_of released_registry)" by simp
  show "\<not> is_active (claims_of released_registry ! 0)" by code_simp
qed

theorem ended_claim_is_fenced_off_witness:
  "\<exists>e. renew (Some released_registry) (cid_of (claims_of released_registry ! 0)) (demo_holder ''agent-1'')
     JNull (JInt 1) (JStr ''2026-01-01T00:00:40Z'') (JInt 60) = Inl e"
proof -
  have "registry_calls demo_sha board released_registry released_registry" by (simp add: registry_calls_def)
  from ended_claim_is_fenced_off[OF _ this released_row] released_registry_ok show ?thesis by blast
qed

section \<open>Expiry, retries and recovery\<close>

text \<open>the last instant before which a claim may be renewed\<close>

definition expires_of :: "json \<Rightarrow> int option" where
  "expires_of row = parse_time (the_str (fld row ''expires_at''))"

text \<open>the claim that a successor row replaces, and the item both are on\<close>

definition succession :: "json \<Rightarrow> json \<Rightarrow> string \<Rightarrow> json \<Rightarrow> json \<Rightarrow> json \<Rightarrow> bool" where
  "succession graph v cid new old item \<longleftrightarrow>
     old \<in> set (claims_of v) \<and> cid_of old = cid \<and> is_active old \<and>
     item_of graph (the_str (fld old ''work_item_id'')) = Some item \<and>
     fld new ''work_item_id'' = fld old ''work_item_id'' \<and> token_of old < token_of new \<and>
     attempt_of new = attempt_of old + 1 \<and> attempt_of new \<le> max_attempts item"

lemma succession_intro:
  assumes "registry_ok v" "checked graph" "request_ok q" "parse_time (now_text q) = Some t"
    "find_request (claims_of v) (request q) = None" "find_claim (claims_of v) (JStr cid) = Some row"
    "is_active row" "state \<in> set [''failed'', ''recovered'']" "\<not> blank y" "\<not> blank y'"
    "succeed_claim sha graph cid q state (JStr y) y' row v = Inr (w, new)" "unique_ids w"
  shows "\<exists>item. succession graph v cid new row item"
proof -
  from succeed_claim_effect[OF assms(1,2,3,4,8-10,6,7) find_request_None[OF assms(1,5)] assms(11,12)]
  obtain item where item: "item_of graph (the_str (fld row ''work_item_id'')) = Some item"
    "attempt_of new \<le> max_attempts item" "attempt_of new = attempt_of row + 1"
    "fld new ''work_item_id'' = fld row ''work_item_id''"
    by (auto simp: op_effect_def)
  have row: "row \<in> set (claims_of v)" "cid_of row = cid" using assms(6) find_claim_iff[OF assms(1)] by blast+
  have "token_of new = next_token v"
    using assms(11) by (auto simp: succeed_claim_def new_claim_def Let_def bind_eq_Inr token_of_def
      split: option.splits if_splits)
  moreover have "token_of row < next_token v" using assms(1) row(1) by (simp add: registry_ok_def)
  ultimately have "token_of row < token_of new" by simp
  with item row assms(7) show ?thesis unfolding succession_def by blast
qed

lemma mutated_ids: "mutate (Some v) op = Inr (w, new) \<Longrightarrow> unique_ids w"
  using registry_ok_unique by (simp add: mutate_Some)

lemma recover_takes_over:
  assumes v: "registry_ok v" and "w \<noteq> v" "parse_time s = Some t"
    and run: "recover sha (Some v) graph cid rid h b (JStr s) duration = Inr (w, new)"
  shows "\<exists>old item e. succession graph v cid new old item \<and> expires_of old = Some e \<and> e \<le> t"
proof -
  from run obtain q where q: "checked graph" "request_ok q" "now_text q = s"
    "mutate (Some v) (recover_op sha graph cid q t) = Inr (w, new)"
    by (elim recover_runs) (use assms(3) in auto)
  then have op: "recover_op sha graph cid q t v = Inr (w, new)" by (simp add: mutate_Some)
  have none: "find_request (claims_of v) (request q) = None"
    using op assms(2) replay_unchanged by (auto simp: recover_op_def split: option.splits)
  with op obtain row where row: "find_claim (claims_of v) (JStr cid) = Some row"
    "check_expired row (board_hash q) t = Inr ()"
    "succeed_claim sha graph cid q ''recovered'' (JStr ''expired_claim_replaced'') ''stale_claim_recovery'' row v = Inr (w, new)"
    by (auto simp: recover_op_def bind_eq_Inr split: option.splits)
  from row(2) obtain e where e: "is_active row" "expires_of row = Some e" "e \<le> t"
    by (auto simp: check_expired_eq_Inr expires_of_def time_of_eq_Inr)
  have "\<exists>item. succession graph v cid new row item"
    by (rule succession_intro[OF v q(1,2) _ none row(1) e(1) _ _ _ row(3) mutated_ids[OF q(4)]])
      (simp_all add: q(3) assms(3) code_def)
  with e show ?thesis by blast
qed

lemma retry_takes_over:
  assumes v: "registry_ok v" and "w \<noteq> v" "parse_time s = Some t"
    and run: "retry sha (Some v) graph cid rid h b token (JStr s) duration why = Inr (w, new)"
  shows "\<exists>old item e. succession graph v cid new old item \<and> expires_of old = Some e \<and> t < e \<and>
    fld old ''fencing_token'' = token"
proof -
  from run obtain q y where q: "checked graph" "request_ok q" "now_text q = s" "\<not> blank y"
    "mutate (Some v) (retry_op sha graph cid q h token y t) = Inr (w, new)"
    by (elim retry_runs) (use assms(3) in auto)
  then have op: "retry_op sha graph cid q h token y t v = Inr (w, new)" by (simp add: mutate_Some)
  have none: "find_request (claims_of v) (request q) = None"
    using op assms(2) replay_unchanged by (auto simp: retry_op_def split: option.splits)
  with op obtain row where row: "find_claim (claims_of v) (JStr cid) = Some row"
    "check_current row h (board_hash q) token = Inr ()" "check_live row t = Inr ()"
    "succeed_claim sha graph cid q ''failed'' (JStr y) ''retry_after_failure'' row v = Inr (w, new)"
    by (auto simp: retry_op_def bind_eq_Inr split: option.splits)
  from row(3) obtain e where e: "is_active row" "expires_of row = Some e" "t < e"
    by (auto simp: check_live_eq_Inr expires_of_def time_of_eq_Inr)
  have "fld row ''fencing_token'' = token" using row(2) by (auto simp: check_current_def result_simps)
  moreover have "\<exists>item. succession graph v cid new row item"
    by (rule succession_intro[OF v q(1,2) _ none row(1) e(1) _ q(4) _ row(4) mutated_ids[OF q(5)]])
      (simp_all add: q(3) assms(3) code_def)
  ultimately show ?thesis using e by blast
qed

text \<open>
  C11: a recovery that changes the registry takes over an active claim that has expired by the
  given time, and a retry one that has not, which it holds by the current fencing token; the
  new claim is on the same work item with a larger token and the next attempt, which never
  exceeds the limit of the item's retry policy.
\<close>

theorem takeover_bounded:
  assumes "verify_registry v = Inr r" "w \<noteq> v" "parse_time s = Some t"
    "recover sha (Some v) graph cid rid h b (JStr s) duration = Inr (w, new) \<or>
     retry sha (Some v) graph cid rid h b token (JStr s) duration why = Inr (w, new)"
  shows "\<exists>old item e. old \<in> set (claims_of v) \<and> cid_of old = cid \<and> is_active old \<and> expires_of old = Some e \<and>
    (if t < e then fld old ''fencing_token'' = token
     else recover sha (Some v) graph cid rid h b (JStr s) duration = Inr (w, new)) \<and>
    item_of graph (the_str (fld old ''work_item_id'')) = Some item \<and>
    fld new ''work_item_id'' = fld old ''work_item_id'' \<and> token_of old < token_of new \<and>
    attempt_of new = attempt_of old + 1 \<and> attempt_of new \<le> max_attempts item"
  using assms(4)
proof
  have v: "registry_ok v" using assms(1) verify_iff by blast
  show ?thesis if run: "recover sha (Some v) graph cid rid h b (JStr s) duration = Inr (w, new)"
    using recover_takes_over[OF v assms(2,3) run] run unfolding succession_def by (metis not_less)
  show ?thesis if "retry sha (Some v) graph cid rid h b token (JStr s) duration why = Inr (w, new)"
    using retry_takes_over[OF v assms(2,3) that] unfolding succession_def by metis
qed

definition demo_recover :: "(json \<times> json) result" where
  "demo_recover = recover demo_sha (Some demo_registry) board (claim_id_of demo_sha ''req-1'' ''W-A'' 1)
     (JStr ''req-3'') (demo_holder ''agent-2'') (JStr (sha_prefix @ replicate 64 CHR ''a''))
     (JStr ''2026-01-01T00:02:00Z'') (JInt 60)"

lemma demo_recover_runs: "\<exists>w new. demo_recover = Inr (w, new) \<and> w \<noteq> demo_registry"
proof -
  have "case demo_recover of Inl _ \<Rightarrow> False | Inr (w, _) \<Rightarrow> length (claims_of w) = 3" by code_simp
  then show ?thesis using demo_claims(1) by (auto split: sum.splits)
qed

theorem takeover_bounded_witness:
  "\<exists>w new old. demo_recover = Inr (w, new) \<and> old \<in> set (claims_of demo_registry) \<and>
     is_active old \<and> token_of old < token_of new \<and> attempt_of new = attempt_of old + 1"
proof -
  obtain w new r where "demo_recover = Inr (w, new)" "w \<noteq> demo_registry" "verify_registry demo_registry = Inr r"
    using demo_recover_runs demo_registry_ok by blast
  moreover have "parse_time ''2026-01-01T00:02:00Z'' = Some 63902908920000000" by code_simp
  ultimately show ?thesis unfolding demo_recover_def using takeover_bounded by meson
qed

section \<open>Idempotence\<close>

lemma find_request_snoc:
  "find_request rows rid = None \<Longrightarrow> find_request (rows @ [row]) rid =
     (if fld row ''request_id'' = JStr rid then Some row else None)"
  by (simp add: find_request_def find_append)

text \<open>
  C12: a claim repeated with the same arguments after it succeeded (as after a lost answer)
  returns the same row and leaves the registry as it is.
\<close>

theorem claim_idempotent:
  assumes "claim sha file graph satisfaction i rid h now duration expected = Inr (v, row)"
  shows "claim sha (Some v) graph satisfaction i rid h now duration expected = Inr (v, row)"
proof -
  from assms obtain g sat h' r t d where *: "validate_graph graph = Inr g"
    "validate_satisfaction graph satisfaction expected = Inr sat" "validate_holder h = Inr h'"
    "text_of rid ''dependency_request_id_invalid'' = Inr r" "time_of now ''dependency_timestamp_invalid'' = Inr t"
    "duration_of duration = Inr d" "reasons graph sat i [] = Inr []" and
    run: "mutate file (claim_op sha (the (item_of graph i)) (the_request r h' (the_str (fld sat ''board_sha256'')) (the_str now) d)) = Inr (v, row)"
    by (auto simp: claim_def bind_eq_Inr the_request_def split: if_splits)
  let ?item = "the (item_of graph i)" and ?q = "the_request r h' (the_str (fld sat ''board_sha256'')) (the_str now) d"
  from run obtain u where u: "claim_op sha ?item ?q u = Inr (v, row)" and v: "registry_ok v"
    by (auto simp: mutate_def bind_eq_Inr verify_iff[symmetric])
  have "claim_op sha ?item ?q v = Inr (v, row)"
  proof (cases "find_request (claims_of u) (request ?q)")
    case (Some existing)
    with u have "v = u" by (auto simp: claim_op_def bind_eq_Inr split: if_splits)
    with u show ?thesis by simp
  next
    case None
    with u have new: "new_claim sha u ?item ?q 1 JNull ''initial_claim'' = Inr (v, row)" by (simp add: claim_op_def)
    then obtain s e where s: "scopes ?item = Inr s" "expiry (now_text ?q) (seconds ?q) = Inr e"
      "row = claim_row (claim_id_of sha (request ?q) (item_id ?item) (next_token u)) ?q (item_id ?item) 1 s e
        (next_token u) JNull ''initial_claim''" "claims_of v = claims_of u @ [row]"
      by (auto simp: new_claim_def Let_def bind_eq_Inr)
    have "find_request (claims_of v) (request ?q) = Some row"
      using find_request_snoc[OF None, of row] s(3,4) by simp
    then show ?thesis using s(1,2) by (simp add: claim_op_def same_request_def s(3))
  qed
  with v have "mutate (Some v) (claim_op sha ?item ?q) = Inr (v, row)" by (simp add: mutate_Some)
  with * show ?thesis by (simp add: claim_def the_request_def)
qed

theorem claim_idempotent_witness:
  "demo_claim (Some demo_registry) ''W-B'' ''req-2'' = Inr (demo_registry, claims_of demo_registry ! 1)"
  using claim_idempotent[OF demo_claim_runs[unfolded demo_claim_def]] unfolding demo_claim_def .

end
