(* ===== verification/Json.thy ===== *)
theory Json
  imports PyTime
begin

text \<open>
  JSON text. \<open>dumps\<close> is \<open>json.dumps(value, ensure_ascii=False, separators=(",", ":"),
  sort_keys=True)\<close>, the canonical form every script hashes and writes; \<open>loads\<close> is
  \<open>json.loads\<close>, with \<open>hook\<close> the \<open>object_pairs_hook\<close> and \<open>flt\<close> the reading of a number
  with a fraction or an exponent (the library's correctly rounded \<open>float\<close>). The nesting
  limit of the interpreter and the constants \<open>NaN\<close> and \<open>Infinity\<close> are not modelled. A
  parser that calls itself is given fuel: \<open>loads\<close> starts with more than twice the length
  of the text, which never runs out. The main result is the round trip: reading what \<open>dumps\<close>
  wrote gives the value with its keys sorted.
\<close>

section \<open>Writing\<close>

definition backslash :: char where
  "backslash = CHR 0x5C"

definition dquote :: char where
  "dquote = CHR 0x22"

definition escape_char :: "char \<Rightarrow> string" where
  "escape_char c = (if c = dquote \<or> c = backslash then [backslash, c]
     else if code c = 8 then [backslash, CHR ''b''] else if code c = 12 then [backslash, CHR ''f'']
     else if code c = 10 then [backslash, CHR ''n''] else if code c = 13 then [backslash, CHR ''r'']
     else if code c = 9 then [backslash, CHR ''t'']
     else if code c < 32 then [backslash] @ ''u00'' @ hex2 (code c) else [c])"

definition quoted :: "string \<Rightarrow> string" where
  "quoted s = dquote # concat (map escape_char s) @ [dquote]"

function dumps :: "json \<Rightarrow> string" where
  "dumps JNull = ''null''"
| "dumps (JBool b) = (if b then ''true'' else ''false'')"
| "dumps (JInt i) = dec_int i"
| "dumps (JFloat m k r) = r"
| "dumps (JStr s) = quoted s"
| "dumps (JList xs) = ''['' @ join '','' (map dumps xs) @ '']''"
| "dumps (JObj kvs) = ''{'' @ join '','' (map (\<lambda>kv. quoted (fst kv) @ '':'' @ dumps (snd kv)) (sort_key fst kvs)) @ ''}''"
  by pat_completeness auto
termination
proof (relation "measure size", goal_cases)
  case (3 kvs kv)
  then have "size (snd kv) \<le> size_list (size_prod (\<lambda>_. 0) size) kvs"
    by (intro size_list_estimation'[of kv]) (simp_all add: size_prod_simp)
  then show ?case by simp
qed (auto simp: less_Suc_eq_le intro: size_list_estimation')

section \<open>Reading\<close>

definition json_space :: "char \<Rightarrow> bool" where
  "json_space c = (c \<in> set [CHR '' '', CHR 0x09, CHR 0x0A, CHR 0x0D])"

definition skip :: "string \<Rightarrow> string" where
  "skip s = dropWhile json_space s"

subsection \<open>Strings\<close>

definition hex_value :: "char \<Rightarrow> int option" where
  "hex_value c = (if is_digit c then Some (digit_val c)
     else if 97 \<le> code c \<and> code c \<le> 102 then Some (code c - 87)
     else if 65 \<le> code c \<and> code c \<le> 70 then Some (code c - 55) else None)"

definition hex4 :: "string \<Rightarrow> int option" where
  "hex4 s = (case map hex_value (take 4 s) of
     [Some a, Some b, Some c, Some d] \<Rightarrow> Some (((a * 16 + b) * 16 + c) * 16 + d) | _ \<Rightarrow> None)"

definition byte :: "int \<Rightarrow> char" where
  "byte n = char_of n"

definition utf8 :: "int \<Rightarrow> string" where
  "utf8 n = (if n < 128 then [byte n]
     else if n < 2048 then [byte (192 + n div 64), byte (128 + n mod 64)]
     else if n < 65536 then [byte (224 + n div 4096), byte (128 + n div 64 mod 64), byte (128 + n mod 64)]
     else [byte (240 + n div 262144), byte (128 + n div 4096 mod 64), byte (128 + n div 64 mod 64),
       byte (128 + n mod 64)])"

text \<open>the number after \<open>\\u\<close>, joined with a low surrogate that follows, and the text after it\<close>

definition unicode_escape :: "string \<Rightarrow> (string \<times> string) option" where
  "unicode_escape s = (case hex4 s of None \<Rightarrow> None
     | Some a \<Rightarrow>
         (if 0xD800 \<le> a \<and> a \<le> 0xDBFF \<and> starts_with (drop 4 s) [backslash, CHR ''u''] then
            (case hex4 (drop 6 s) of None \<Rightarrow> None
             | Some b \<Rightarrow> if 0xDC00 \<le> b \<and> b \<le> 0xDFFF
                 then Some (utf8 (0x10000 + (a - 0xD800) * 1024 + (b - 0xDC00)), drop 10 s)
                 else Some (utf8 a, drop 4 s))
          else Some (utf8 a, drop 4 s)))"

definition simple_escape :: "char \<Rightarrow> char option" where
  "simple_escape c = (if c = dquote \<or> c = backslash \<or> c = CHR ''/'' then Some c
     else map_of [(CHR ''b'', byte 8), (CHR ''f'', byte 12), (CHR ''n'', byte 10), (CHR ''r'', byte 13),
       (CHR ''t'', byte 9)] c)"

lemma unicode_escape_shorter: "unicode_escape s = Some (x, r) \<Longrightarrow> length r \<le> length s"
  by (auto simp: unicode_escape_def split: option.splits if_splits)

text \<open>the content of a string after its opening quote, and the text after its closing one\<close>

function scan_string :: "string \<Rightarrow> (string \<times> string) result" where
  "scan_string [] = Inl JSONDecodeError"
| "scan_string (c # s) =
     (if c = dquote then Inr ([], s)
      else if c = backslash then
        (case s of [] \<Rightarrow> Inl JSONDecodeError
         | e # t \<Rightarrow>
             if e = CHR ''u'' then
               (case unicode_escape t of None \<Rightarrow> Inl JSONDecodeError
                | Some (x, r) \<Rightarrow> bind (scan_string r) (\<lambda>(w, q). Inr (x @ w, q)))
             else (case simple_escape e of None \<Rightarrow> Inl JSONDecodeError
                | Some x \<Rightarrow> bind (scan_string t) (\<lambda>(w, q). Inr (x # w, q))))
      else if code c < 32 then Inl JSONDecodeError
      else bind (scan_string s) (\<lambda>(w, q). Inr (c # w, q)))"
  by pat_completeness auto
termination
  by (relation "measure length") (auto dest!: unicode_escape_shorter)

subsection \<open>Numbers\<close>

definition digits :: "string \<Rightarrow> string" where
  "digits s = takeWhile is_digit s"

definition after_digits :: "string \<Rightarrow> string" where
  "after_digits s = dropWhile is_digit s"

definition natural_part :: "string \<Rightarrow> (string \<times> string) option" where
  "natural_part s = (case s of [] \<Rightarrow> None
     | c # t \<Rightarrow> if c = CHR ''0'' then Some ([c], t)
         else if is_digit c then Some (digits s, after_digits s) else None)"

definition fraction_part :: "string \<Rightarrow> string \<times> string" where
  "fraction_part s = (case s of [] \<Rightarrow> ([], s)
     | c # t \<Rightarrow> if c = CHR ''.'' \<and> digits t \<noteq> [] then (c # digits t, after_digits t) else ([], s))"

definition exponent_part :: "string \<Rightarrow> string \<times> string" where
  "exponent_part s = (case s of [] \<Rightarrow> ([], s)
     | c # t \<Rightarrow> if c \<noteq> CHR ''e'' \<and> c \<noteq> CHR ''E'' then ([], s)
         else (case t of [] \<Rightarrow> ([], s)
           | d # r \<Rightarrow> if (d = CHR ''+'' \<or> d = CHR ''-'') \<and> digits r \<noteq> []
               then (c # d # digits r, after_digits r)
               else if digits t \<noteq> [] then (c # digits t, after_digits t) else ([], s)))"

definition natural_value :: "string \<Rightarrow> int" where
  "natural_value s = num (map digit_val s)"

definition unsigned_number :: "(string \<Rightarrow> json) \<Rightarrow> string \<Rightarrow> string \<Rightarrow> (json \<times> string) result" where
  "unsigned_number flt sign s = (case natural_part s of None \<Rightarrow> Inl JSONDecodeError
     | Some (i, r) \<Rightarrow> (case fraction_part r of (f, r1) \<Rightarrow> (case exponent_part r1 of (x, r2) \<Rightarrow>
         Inr (if f = [] \<and> x = [] then JInt (if sign = [] then natural_value i else - natural_value i)
           else flt (sign @ i @ f @ x), r2))))"

definition number :: "(string \<Rightarrow> json) \<Rightarrow> string \<Rightarrow> (json \<times> string) result" where
  "number flt s = (case s of [] \<Rightarrow> Inl JSONDecodeError
     | c # t \<Rightarrow> if c = CHR ''-'' then unsigned_number flt [c] t else unsigned_number flt [] s)"

subsection \<open>Values\<close>

type_synonym pairs_hook = "(string \<times> json) list \<Rightarrow> json result"

text \<open>\<open>dict(pairs)\<close>: a repeated key keeps its place and takes the later value\<close>

definition dict_of :: pairs_hook where
  "dict_of kvs = Inr (JObj (fold (\<lambda>(k, v). AList.update k v) kvs []))"

fun parse_value :: "(string \<Rightarrow> json) \<Rightarrow> pairs_hook \<Rightarrow> nat \<Rightarrow> string \<Rightarrow> (json \<times> string) result"
  and parse_items :: "(string \<Rightarrow> json) \<Rightarrow> pairs_hook \<Rightarrow> nat \<Rightarrow> json list \<Rightarrow> string \<Rightarrow> (json \<times> string) result"
  and parse_members :: "(string \<Rightarrow> json) \<Rightarrow> pairs_hook \<Rightarrow> nat \<Rightarrow> (string \<times> json) list \<Rightarrow> string \<Rightarrow> (json \<times> string) result"
where
  "parse_value flt hook 0 s = Inl RecursionError"
| "parse_value flt hook (Suc n) s =
     (if starts_with s [dquote] then bind (scan_string (tl s)) (\<lambda>(w, r). Inr (JStr w, r))
      else if starts_with s ''{'' then
        (let r = skip (tl s) in
         if starts_with r ''}'' then bind (hook []) (\<lambda>v. Inr (v, tl r)) else parse_members flt hook n [] r)
      else if starts_with s ''['' then
        (let r = skip (tl s) in
         if starts_with r '']'' then Inr (JList [], tl r) else parse_items flt hook n [] r)
      else if starts_with s ''null'' then Inr (JNull, drop 4 s)
      else if starts_with s ''true'' then Inr (JBool True, drop 4 s)
      else if starts_with s ''false'' then Inr (JBool False, drop 5 s)
      else number flt s)"
| "parse_items flt hook 0 acc s = Inl RecursionError"
| "parse_items flt hook (Suc n) acc s = bind (parse_value flt hook n s) (\<lambda>(v, r).
     let q = skip r in
     if starts_with q '']'' then Inr (JList (acc @ [v]), tl q)
     else if starts_with q '','' then parse_items flt hook n (acc @ [v]) (skip (tl q))
     else Inl JSONDecodeError)"
| "parse_members flt hook 0 acc s = Inl RecursionError"
| "parse_members flt hook (Suc n) acc s =
     (if \<not> starts_with s [dquote] then Inl JSONDecodeError
      else bind (scan_string (tl s)) (\<lambda>(k, r0).
        let r = skip r0 in
        if \<not> starts_with r '':'' then Inl JSONDecodeError
        else bind (parse_value flt hook n (skip (tl r))) (\<lambda>(v, p).
          let q = skip p in
          if starts_with q ''}'' then bind (hook (acc @ [(k, v)])) (\<lambda>d. Inr (d, tl q))
          else if starts_with q '','' then parse_members flt hook n (acc @ [(k, v)]) (skip (tl q))
          else Inl JSONDecodeError)))"

definition loads :: "(string \<Rightarrow> json) \<Rightarrow> pairs_hook \<Rightarrow> string \<Rightarrow> json result" where
  "loads flt hook s = bind (parse_value flt hook (2 * length s + 1) (skip s)) (\<lambda>(v, r).
     if skip r = [] then Inr v else Inl JSONDecodeError)"

section \<open>Fuel\<close>

lemma skip_shorter: "length (skip s) \<le> length s"
  by (simp add: skip_def length_dropWhile_le)

lemma scan_string_shorter: "scan_string s = Inr (w, r) \<Longrightarrow> length r < length s"
proof (induction s arbitrary: w rule: scan_string.induct)
  case (2 c s)
  then show ?case
    by (auto split: if_splits list.splits option.splits simp: bind_eq_Inr dest!: unicode_escape_shorter;
        fastforce)
qed simp

lemma after_digits_shorter: "length (after_digits s) \<le> length s"
  by (simp add: after_digits_def length_dropWhile_le)

lemma unsigned_number_shorter: "unsigned_number flt sign s = Inr (v, r) \<Longrightarrow> length r < length s"
proof -
  have f: "length (snd (fraction_part s)) \<le> length s" for s
    using after_digits_shorter[of "tl s"] by (auto simp: fraction_part_def split: list.splits)
  have x: "length (snd (exponent_part s)) \<le> length s" for s
    using after_digits_shorter[of "tl s"] after_digits_shorter[of "tl (tl s)"]
    by (auto simp: exponent_part_def split: list.splits)
  have n: "natural_part s = Some (i, q) \<Longrightarrow> length q < length s" for i q
    using after_digits_shorter[of "tl s"]
    by (auto simp: natural_part_def after_digits_def split: list.splits if_splits)
  assume "unsigned_number flt sign s = Inr (v, r)"
  then obtain i q where "natural_part s = Some (i, q)" "r = snd (exponent_part (snd (fraction_part q)))"
    by (auto simp: unsigned_number_def split: option.splits prod.splits)
  with n[OF this(1)] f[of q] x[of "snd (fraction_part q)"] show ?thesis by simp
qed

lemma number_shorter: "number flt s = Inr (v, r) \<Longrightarrow> length r < length s"
  by (auto simp: number_def split: list.splits if_splits dest!: unsigned_number_shorter)

lemma tl_skip_shorter: "length (tl (skip s)) \<le> length s - 1"
  using skip_shorter[of s] by simp

lemma starts_with_Cons [simp]: "starts_with (c # s) (d # p) \<longleftrightarrow> c = d \<and> starts_with s p"
  "starts_with s []" "\<not> starts_with [] (d # p)"
  by (auto simp: starts_with_def)

lemma starts_with_nonempty: "starts_with s (d # p) \<Longrightarrow> \<exists>t. s = d # t \<and> starts_with t p"
  by (cases s) auto

lemma starts_with_shorter: "starts_with s p \<Longrightarrow> length p \<le> length s"
  unfolding starts_with_def by (metis length_take min.cobounded1)

lemma parse_shorter:
  "parse_value flt hook n s = Inr (v, r) \<Longrightarrow> length r < length s"
  "parse_items flt hook n acc s = Inr (v, r) \<Longrightarrow> length r < length s"
  "parse_members flt hook n kvs s = Inr (v, r) \<Longrightarrow> length r < length s"
proof (induction n arbitrary: s v r acc kvs)
  case (Suc n)
  note IH = Suc.IH
  { case 1
    consider (m) t where "s = CHR ''{'' # t" "parse_members flt hook n [] (skip t) = Inr (v, r)"
      | (i) t where "s = CHR ''['' # t" "parse_items flt hook n [] (skip t) = Inr (v, r)"
      | (e) t where "s = CHR ''{'' # t \<or> s = CHR ''['' # t" "r = tl (skip t)"
      | (s) t w where "s = dquote # t" "scan_string t = Inr (w, r)"
      | (k) "length r < length s"
      | (n) "number flt s = Inr (v, r)"
      using 1 by (auto split: if_splits simp: bind_eq_Inr Let_def dest!: starts_with_nonempty)
    then show ?case
    proof cases
      case m
      then show ?thesis using IH(3)[OF m(2)] skip_shorter[of t] by simp
    next
      case i
      then show ?thesis using IH(2)[OF i(2)] skip_shorter[of t] by simp
    next
      case e
      then show ?thesis using skip_shorter[of t] by auto
    next
      case s
      then show ?thesis using scan_string_shorter[OF s(2)] by simp
    next
      case k
      then show ?thesis .
    next
      case n
      then show ?thesis by (rule number_shorter)
    qed
  next
    case 2
    then obtain x q where q: "parse_value flt hook n s = Inr (x, q)" "skip q \<noteq> []"
      and rest: "r = tl (skip q) \<or> parse_items flt hook n (acc @ [x]) (skip (tl (skip q))) = Inr (v, r)"
      by (auto split: if_splits simp: bind_eq_Inr Let_def dest!: starts_with_nonempty)
    note IH(1)[OF q(1)] skip_shorter[of q] skip_shorter[of "tl (skip q)"]
    then show ?case using rest IH(2) q(2) by fastforce
  next
    case 3
    then obtain k t p q x u where q: "s = dquote # t" "scan_string t = Inr (k, p)" "skip p = CHR '':'' # q"
      "parse_value flt hook n (skip q) = Inr (x, u)" "skip u \<noteq> []"
      and rest: "r = tl (skip u) \<or> parse_members flt hook n (kvs @ [(k, x)]) (skip (tl (skip u))) = Inr (v, r)"
      by (auto split: if_splits simp: bind_eq_Inr Let_def dest!: starts_with_nonempty)
    have "length (skip u) < length s"
      using IH(1)[OF q(4)] skip_shorter[of q] skip_shorter[of p] scan_string_shorter[OF q(2)]
        skip_shorter[of u] q(1,3) by simp
    moreover have "length r < length (skip (tl (skip u)))" if "r \<noteq> tl (skip u)"
      using rest IH(3) that by blast
    ultimately show ?case using skip_shorter[of "tl (skip u)"] q(5) by (cases "r = tl (skip u)") simp_all
  }
qed simp_all

text \<open>The fuel that always suffices\<close>

lemma scan_string_error: "scan_string s = Inl e \<Longrightarrow> e = JSONDecodeError"
  by (induction s rule: scan_string.induct)
    (auto split: if_splits list.splits option.splits simp: bind_eq_Inl)

lemma number_error: "number flt s = Inl e \<Longrightarrow> e = JSONDecodeError"
  by (auto simp: number_def unsigned_number_def split: list.splits if_splits option.splits prod.splits)

lemma parse_fuel:
  assumes hook: "\<And>kvs. hook kvs \<noteq> Inl RecursionError"
  shows "2 * length s < n \<Longrightarrow> parse_value flt hook n s \<noteq> Inl RecursionError"
    "2 * length s + 1 < n \<Longrightarrow> parse_items flt hook n acc s \<noteq> Inl RecursionError"
    "2 * length s < n \<Longrightarrow> parse_members flt hook n kvs s \<noteq> Inl RecursionError"
proof (induction n arbitrary: s acc kvs)
  case (Suc n)
  note IH = Suc.IH
  { case 1
    have m: "parse_members flt hook n [] (skip (tl s)) \<noteq> Inl RecursionError"
      "parse_items flt hook n [] (skip (tl s)) \<noteq> Inl RecursionError" if "s \<noteq> []"
      using 1 that skip_shorter[of "tl s"] by (cases s; auto intro!: IH)+
    have "scan_string (tl s) \<noteq> Inl RecursionError" "number flt s \<noteq> Inl RecursionError"
      using scan_string_error number_error by blast+
    note no = this hook m
    show ?case
    proof (cases "s = []")
      case True
      then show ?thesis by (simp add: number_def)
    next
      case False
      show ?thesis
        unfolding parse_value.simps Let_def using no False by (auto simp: bind_eq_Inl)
    qed
  next
    case 2
    have "parse_value flt hook n s \<noteq> Inl RecursionError" using 2 by (intro IH) simp
    moreover have "parse_items flt hook n (acc @ [x]) (skip (tl (skip q))) \<noteq> Inl RecursionError"
      if "parse_value flt hook n s = Inr (x, q)" for x q
    proof (rule IH)
      show "2 * length (skip (tl (skip q))) + 1 < n"
        using 2 parse_shorter(1)[OF that] skip_shorter[of q] skip_shorter[of "tl (skip q)"] by simp
    qed
    ultimately show ?case by (auto simp: bind_eq_Inl Let_def)
  next
    case 3
    have shorter: "length (skip (tl (skip p))) < length s - 1" if "scan_string (tl s) = Inr (k, p)" for k p
      using that skip_shorter[of p] skip_shorter[of "tl (skip p)"] scan_string_shorter[OF that] by simp
    have v: "parse_value flt hook n (skip (tl (skip p))) \<noteq> Inl RecursionError"
      if "scan_string (tl s) = Inr (k, p)" for k p
      using shorter[OF that] 3 by (intro IH) simp
    have m: "parse_members flt hook n kvs' (skip (tl (skip u))) \<noteq> Inl RecursionError"
      if "scan_string (tl s) = Inr (k, p)" "parse_value flt hook n (skip (tl (skip p))) = Inr (x, u)"
      for k p x u kvs'
      using shorter[OF that(1)] 3 parse_shorter(1)[OF that(2)] skip_shorter[of u] skip_shorter[of "tl (skip u)"]
      by (intro IH) simp
    have "scan_string (tl s) \<noteq> Inl RecursionError" using scan_string_error by blast
    then show ?case
      unfolding parse_members.simps Let_def using hook v m by (auto simp: bind_eq_Inl)
  }
qed simp_all

lemma loads_fuel: "(\<And>kvs. hook kvs \<noteq> Inl RecursionError) \<Longrightarrow> loads flt hook s \<noteq> Inl RecursionError"
  using parse_fuel(1)[of hook "skip s" "2 * length s + 1" flt] skip_shorter[of s]
  by (auto simp: loads_def bind_eq_Inl split: if_splits)

section \<open>Round trip\<close>

text \<open>What follows a value inside an array or an object, or nothing\<close>

definition delimited :: "string \<Rightarrow> bool" where
  "delimited rest = (case rest of [] \<Rightarrow> True | c # _ \<Rightarrow> c = CHR '','' \<or> c = CHR '']'' \<or> c = CHR ''}'')"

lemma delimitedE:
  assumes "delimited rest"
  obtains "rest = []" | c t where "rest = c # t" "\<not> is_digit c" "\<not> json_space c"
    "c \<notin> {CHR ''.'', CHR ''e'', CHR ''E'', CHR ''+'', CHR ''-''}"
  using assms by (cases rest) (auto simp: delimited_def is_digit_def code_def json_space_def)

subsection \<open>Numbers\<close>

lemma digits_append:
  "delimited rest \<Longrightarrow> digits (s @ rest) = digits s \<and> after_digits (s @ rest) = after_digits s @ rest"
  by (induction s) (auto simp: digits_def after_digits_def elim!: delimitedE)

lemma fraction_part_append:
  "delimited rest \<Longrightarrow> fraction_part (s @ rest) = (fst (fraction_part s), snd (fraction_part s) @ rest)"
  by (cases s) (auto simp: fraction_part_def digits_append elim!: delimitedE)

lemma exponent_part_append:
  assumes "delimited rest"
  shows "exponent_part (s @ rest) = (fst (exponent_part s), snd (exponent_part s) @ rest)"
proof (cases s)
  case Nil
  then show ?thesis using assms by (auto simp: exponent_part_def elim!: delimitedE)
next
  case (Cons c t)
  show ?thesis
  proof (cases t)
    case Nil
    then show ?thesis using assms \<open>s = c # t\<close>
      by (auto simp: exponent_part_def digits_def elim!: delimitedE)
  next
    case (Cons d r)
    note digits_append[OF assms, of r] digits_append[OF assms, of t]
    then show ?thesis using \<open>s = c # t\<close> Cons by (simp add: exponent_part_def)
  qed
qed

lemma natural_part_append:
  "delimited rest \<Longrightarrow> natural_part s = Some (i, r) \<Longrightarrow> natural_part (s @ rest) = Some (i, r @ rest)"
  using digits_append[of rest s] by (auto simp: natural_part_def split: list.splits if_splits)

lemma number_append:
  assumes "delimited rest" "number flt s = Inr (v, r)"
  shows "number flt (s @ rest) = Inr (v, r @ rest)"
proof -
  have "unsigned_number flt sign (t @ rest) = Inr (v, r @ rest)"
    if "unsigned_number flt sign t = Inr (v, r)" for sign t
    using that natural_part_append[OF assms(1), of t]
    by (auto simp: unsigned_number_def fraction_part_append[OF assms(1)] exponent_part_append[OF assms(1)]
      split: option.splits prod.splits)
  note this[where t = "tl s"] this[where t = s]
  then show ?thesis using assms(2)
    by (cases s) (auto simp: number_def split: if_splits)
qed

lemma dec_digits: "0 \<le> n \<Longrightarrow> list_all is_digit (dec n)"
  by (induction n rule: dec.induct) (subst dec.simps, auto)

lemma dec_value: "0 \<le> n \<Longrightarrow> natural_value (dec n) = n"
proof (induction n rule: dec.induct)
  case (1 n)
  show ?case
  proof (cases "n < 10")
    case True
    with 1(2) show ?thesis by (subst dec.simps) (simp add: natural_value_def num_def)
  next
    case False
    then have "natural_value (dec (n div 10)) = n div 10" using 1 by simp
    then show ?thesis using False 1(2)
      by (subst dec.simps) (simp add: natural_value_def num_snoc)
  qed
qed

lemma dec_first: "0 < n \<Longrightarrow> \<exists>c t. dec n = c # t \<and> is_digit c \<and> c \<noteq> CHR ''0''"
proof (induction n rule: dec.induct)
  case (1 n)
  have zero: "digit_char m \<noteq> CHR ''0''" if "0 < m" "m < 10" for m
    using that code_digit_char[of m] by (auto simp: code_def)
  show ?case
  proof (cases "n < 10")
    case True
    with 1(2) zero[of n] show ?thesis by (subst dec.simps) simp
  next
    case False
    then have "0 < n div 10" by simp
    with 1(1)[OF False this] False show ?thesis by (subst dec.simps) auto
  qed
qed

lemma dec_0 [simp]: "dec 0 = ''0''"
  by code_simp

lemma natural_dec: "0 \<le> n \<Longrightarrow> natural_part (dec n) = Some (dec n, [])"
proof (cases "n = 0")
  case True
  then show ?thesis by (simp add: natural_part_def)
next
  assume n: "0 \<le> n"
  case False
  with n obtain c t where c: "dec n = c # t" "is_digit c" "c \<noteq> CHR ''0''" using dec_first[of n] by auto
  have "takeWhile is_digit (dec n) = dec n" "dropWhile is_digit (dec n) = []"
    using dec_digits[OF n] by (simp_all add: list_all_iff)
  then show ?thesis using c by (simp add: natural_part_def digits_def after_digits_def)
qed

lemma number_dec_int: "number flt (dec_int i) = Inr (JInt i, [])"
proof -
  have *: "unsigned_number flt sign (dec n) = Inr (JInt (if sign = [] then n else - n), [])" if "0 \<le> n" for sign n
    using that by (simp add: unsigned_number_def natural_dec dec_value fraction_part_def exponent_part_def)
  have "\<exists>c t. dec n = c # t \<and> c \<noteq> CHR ''-''" if "0 \<le> n" for n
  proof (cases "n = 0")
    case True
    then show ?thesis by simp
  next
    case False
    then show ?thesis using dec_first[of n] that by (auto simp: is_digit_def code_def)
  qed
  then have "number flt (dec n) = Inr (JInt n, [])" if "0 \<le> n" for n
    using *[OF that, of "[]"] that by (fastforce simp: number_def)
  then show ?thesis using *[of "- i" "''-''"] by (simp add: dec_int_def number_def)
qed

subsection \<open>Strings\<close>

lemma char_of_code [simp]: "char_of (code c) = c"
  by (simp add: code_def)

lemma code_bounds [simp]: "0 \<le> code c" "code c < 256"
proof -
  have "code c mod 256 = code c" by (simp add: code_def)
  then show "0 \<le> code c" "code c < 256" by (metis pos_mod_sign zero_less_numeral, metis pos_mod_bound zero_less_numeral)
qed

lemma unicode_escape_control:
  assumes "0 \<le> n" "n < 32"
  shows "unicode_escape (''00'' @ hex2 n @ t) = Some ([byte n], t)"
proof -
  have "n \<in> set (upto 0 31)" using assms by simp
  moreover have "list_all (\<lambda>n. hex4 (''00'' @ hex2 n) = Some n \<and> length (hex2 n) = 2) (upto 0 31)" by code_simp
  ultimately have h: "hex4 (''00'' @ hex2 n) = Some n" "length (hex2 n) = 2" by (auto simp: list_all_iff)
  have "hex4 (''00'' @ hex2 n @ t) = Some n" using h by (simp add: hex4_def)
  then show ?thesis using assms h(2) by (simp add: unicode_escape_def utf8_def)
qed

lemma escape_char_scan:
  "scan_string (escape_char c @ t) = bind (scan_string t) (\<lambda>(w, q). Inr (c # w, q))"
proof -
  have c: "code c = n \<Longrightarrow> c = byte n" for n by (auto simp: byte_def)
  have ne: "backslash \<noteq> dquote" "CHR ''u'' \<noteq> dquote" "CHR ''u'' \<noteq> backslash"
    by (simp_all add: backslash_def dquote_def)
  consider "c = dquote \<or> c = backslash" | "code c \<in> {8, 9, 10, 12, 13}" "c \<noteq> dquote" "c \<noteq> backslash"
    | "code c < 32" "code c \<notin> {8, 9, 10, 12, 13}" "c \<noteq> dquote" "c \<noteq> backslash"
    | "32 \<le> code c" "c \<noteq> dquote" "c \<noteq> backslash" by fastforce
  then show ?thesis
  proof cases
    case 1
    then show ?thesis using ne by (auto simp: escape_char_def simple_escape_def backslash_def dquote_def)
  next
    case 2
    then show ?thesis using ne c
      by (auto simp: escape_char_def simple_escape_def backslash_def dquote_def)
  next
    case 3
    then have "escape_char c = backslash # CHR ''u'' # ''00'' @ hex2 (code c)" by (simp add: escape_char_def)
    then show ?thesis using ne unicode_escape_control[of "code c" t] 3 c[of "code c"] by simp
  next
    case 4
    then show ?thesis by (auto simp: escape_char_def)
  qed
qed

lemma scan_quoted: "scan_string (concat (map escape_char s) @ dquote # rest) = Inr (s, rest)"
  by (induction s) (simp_all add: escape_char_scan)

subsection \<open>Values\<close>

text \<open>the value with the entries of every dictionary in key order\<close>

function canon :: "json \<Rightarrow> json" where
  "canon JNull = JNull"
| "canon (JBool b) = JBool b"
| "canon (JInt i) = JInt i"
| "canon (JFloat m k r) = JFloat m k r"
| "canon (JStr s) = JStr s"
| "canon (JList xs) = JList (map canon xs)"
| "canon (JObj kvs) = JObj (map (\<lambda>kv. (fst kv, canon (snd kv))) (sort_key fst kvs))"
  by pat_completeness auto
termination
proof (relation "measure size", goal_cases)
  case (3 kvs kv)
  then have "size (snd kv) \<le> size_list (size_prod (\<lambda>_. 0) size) kvs"
    by (intro size_list_estimation'[of kv]) (simp_all add: size_prod_simp)
  then show ?case by simp
qed (auto simp: less_Suc_eq_le intro: size_list_estimation')

text \<open>
  A Python value: keys are distinct, and each float is the one its text reads back as.
\<close>

function python_value :: "(string \<Rightarrow> json) \<Rightarrow> json \<Rightarrow> bool" where
  "python_value flt JNull = True"
| "python_value flt (JBool b) = True"
| "python_value flt (JInt i) = True"
| "python_value flt (JFloat m k r) = (number flt r = Inr (JFloat m k r, []))"
| "python_value flt (JStr s) = True"
| "python_value flt (JList xs) = list_all (python_value flt) xs"
| "python_value flt (JObj kvs) = (distinct (map fst kvs) \<and> list_all (\<lambda>kv. python_value flt (snd kv)) kvs)"
  by pat_completeness auto
termination
proof (relation "measure (size \<circ> snd)", goal_cases)
  case (3 flt kvs kv)
  then have "size (snd kv) \<le> size_list (size_prod (\<lambda>_. 0) size) kvs"
    by (intro size_list_estimation'[of kv]) (simp_all add: size_prod_simp)
  then show ?case by simp
qed (auto simp: less_Suc_eq_le intro: size_list_estimation')

definition keeps_pairs :: "pairs_hook \<Rightarrow> bool" where
  "keeps_pairs hook \<longleftrightarrow> (\<forall>kvs. distinct (map fst kvs) \<longrightarrow> hook kvs = Inr (JObj kvs))"

lemma keeps_pairs_dict_of: "keeps_pairs dict_of"
proof -
  have "distinct (map fst (acc @ kvs)) \<Longrightarrow> fold (\<lambda>(k, v). AList.update k v) kvs acc = acc @ kvs"
    for acc kvs :: "(string \<times> json) list"
  proof (induction kvs arbitrary: acc)
    case (Cons p kvs)
    have "k \<notin> fst ` set acc \<Longrightarrow> AList.update k v acc = acc @ [(k, v)]" for k and v :: json
      by (induction acc) auto
    with Cons show ?case by (cases p) auto
  qed simp
  from this[of "[]"] show ?thesis by (simp add: keeps_pairs_def dict_of_def)
qed

lemma skip_delimited: "delimited rest \<Longrightarrow> skip rest = rest"
  by (auto simp: skip_def elim!: delimitedE)

text \<open>A number starts with a digit or a minus sign, so it is taken for no other value.\<close>

lemma number_first:
  assumes "number flt s = Inr (v, r)"
  obtains c t where "s = c # t" "c = CHR ''-'' \<or> is_digit c"
  using assms by (cases s) (auto simp: number_def unsigned_number_def natural_part_def is_digit_def code_def
    split: if_splits list.splits)

lemma parse_number:
  assumes "number flt s = Inr (v, [])" "delimited rest"
  shows "parse_value flt hook (Suc n) (s @ rest) = Inr (v, rest)"
proof -
  from assms(1) obtain c t where s: "s = c # t" "c = CHR ''-'' \<or> is_digit c" by (rule number_first)
  then have "c \<notin> {dquote, CHR ''{'', CHR ''['', CHR ''n'', CHR ''t'', CHR ''f''}"
    by (auto simp: is_digit_def code_def dquote_def)
  then show ?thesis using number_append[OF assms(2,1)] s(1) by simp
qed

lemma not_space: "\<not> json_space dquote" "\<not> json_space CHR ''{''" "\<not> json_space CHR ''[''"
  by (simp_all add: json_space_def dquote_def)

lemma dumps_first:
  assumes "python_value flt v"
  obtains c t where "dumps v = c # t" "\<not> json_space c" "c \<noteq> CHR '']''"
proof (cases "(\<exists>b. v = JBool b) \<or> v = JNull \<or> (\<exists>s. v = JStr s) \<or> is_list v \<or> is_obj v")
  case True
  then have "\<exists>c t. dumps v = c # t \<and> \<not> json_space c \<and> c \<noteq> CHR '']''"
    by (cases v) (auto simp: quoted_def dquote_def json_space_def)
  then show thesis using that by blast
next
  case False
  have "\<exists>w. number flt (dumps v) = Inr (w, [])" using False assms number_dec_int by (cases v) auto
  then obtain w where "number flt (dumps v) = Inr (w, [])" by blast
  then obtain c t where c: "dumps v = c # t" "c = CHR ''-'' \<or> is_digit c" by (rule number_first)
  from c(2) have "\<not> json_space c" "c \<noteq> CHR '']''"
    by (auto simp: json_space_def is_digit_def code_def)
  with c(1) show thesis by (rule that)
qed

text \<open>Reading back a value, an item list and a member list, with enough fuel for each\<close>

definition reads_back :: "(string \<Rightarrow> json) \<Rightarrow> pairs_hook \<Rightarrow> json \<Rightarrow> bool" where
  "reads_back flt hook v \<longleftrightarrow> (\<forall>n rest. 2 * length (dumps v) < n \<longrightarrow> delimited rest \<longrightarrow>
     parse_value flt hook n (dumps v @ rest) = Inr (canon v, rest))"

lemma reads_back_number:
  assumes "number flt (dumps v) = Inr (canon v, [])"
  shows "reads_back flt hook v"
  unfolding reads_back_def
proof (intro allI impI)
  fix n rest
  assume "2 * length (dumps v) < n" "delimited rest"
  then show "parse_value flt hook n (dumps v @ rest) = Inr (canon v, rest)"
    using parse_number[OF assms] by (cases n) simp_all
qed

lemma reads_back_literal:
  assumes "\<And>m rest. parse_value flt hook (Suc m) (dumps v @ rest) = Inr (canon v, rest)"
  shows "reads_back flt hook v"
  unfolding reads_back_def
proof (intro allI impI)
  fix n rest
  assume "2 * length (dumps v) < n"
  then show "parse_value flt hook n (dumps v @ rest) = Inr (canon v, rest)"
    using assms by (cases n) simp_all
qed

lemma parse_items_back:
  assumes "\<forall>x \<in> set (y # ys). python_value flt x \<and> reads_back flt hook x"
    "2 * length (join '','' (map dumps (y # ys))) + 1 < n"
  shows "parse_items flt hook n acc (join '','' (map dumps (y # ys)) @ '']'' @ rest) =
    Inr (JList (acc @ map canon (y # ys)), rest)"
  using assms
proof (induction ys arbitrary: y n acc)
  case Nil
  then obtain m where n: "n = Suc m" "2 * length (dumps y) < m" by (cases n) auto
  have "parse_value flt hook m (dumps y @ '']'' @ rest) = Inr (canon y, '']'' @ rest)"
    using Nil n unfolding reads_back_def by (simp add: delimited_def)
  then show ?case using n by (simp add: skip_def json_space_def)
next
  case (Cons z ys)
  define tail where "tail = join '','' (map dumps (z # ys)) @ '']'' @ rest"
  obtain m where n: "n = Suc m" "2 * length (dumps y) < m" "2 * length (join '','' (map dumps (z # ys))) + 1 < m"
    using Cons.prems(2) by (cases n) (auto simp: join_Cons)
  have "python_value flt z" using Cons.prems(1) by simp
  then obtain c t where z: "dumps z = c # t" "\<not> json_space c" by (rule dumps_first)
  then have skip: "skip tail = tail" unfolding tail_def by (cases ys) (simp_all add: skip_def)
  have "parse_value flt hook m (dumps y @ '','' @ tail) = Inr (canon y, '','' @ tail)"
    using Cons.prems n unfolding reads_back_def by (simp add: delimited_def)
  moreover have "parse_items flt hook m (acc @ [canon y]) tail = Inr (JList (acc @ map canon (y # z # ys)), rest)"
    using Cons.IH[of z m "acc @ [canon y]"] Cons.prems(1) n(3) by (simp add: tail_def)
  moreover have "join '','' (map dumps (y # z # ys)) @ '']'' @ rest = dumps y @ '','' @ tail"
    by (simp add: tail_def)
  ultimately show ?case using n(1) skip by (simp add: skip_def json_space_def)
qed

definition member_text :: "string \<times> json \<Rightarrow> string" where
  "member_text kv = quoted (fst kv) @ '':'' @ dumps (snd kv)"

definition canon_member :: "string \<times> json \<Rightarrow> string \<times> json" where
  "canon_member kv = (fst kv, canon (snd kv))"

lemma member_text_length: "length (dumps (snd p)) + 3 \<le> length (member_text p)"
  by (simp add: member_text_def quoted_def)

lemma parse_members_back:
  assumes "\<forall>kv \<in> set (p # ps). python_value flt (snd kv) \<and> reads_back flt hook (snd kv)"
    "2 * length (join '','' (map member_text (p # ps))) < n"
    "hook (acc @ map canon_member (p # ps)) = Inr d"
  shows "parse_members flt hook n acc (join '','' (map member_text (p # ps)) @ ''}'' @ rest) = Inr (d, rest)"
  using assms
proof (induction ps arbitrary: p n acc)
  case Nil
  obtain m where n: "n = Suc m" "2 * length (dumps (snd p)) < m"
    using Nil.prems(2) by (cases n) (auto simp: member_text_def quoted_def)
  have v: "python_value flt (snd p)" using Nil.prems by simp
  then obtain c t where z: "dumps (snd p) = c # t" "\<not> json_space c" by (rule dumps_first)
  have "parse_value flt hook m (dumps (snd p) @ ''}'' @ rest) = Inr (canon (snd p), ''}'' @ rest)"
    using Nil n unfolding reads_back_def by (simp add: delimited_def)
  then show ?case using n z Nil.prems(3)
    by (simp add: member_text_def quoted_def scan_quoted skip_def json_space_def canon_member_def)
next
  case (Cons q ps)
  define tail where "tail = join '','' (map member_text (q # ps)) @ ''}'' @ rest"
  obtain m where n: "n = Suc m" "2 * length (dumps (snd p)) < m" "2 * length (join '','' (map member_text (q # ps))) < m"
    using Cons.prems(2) member_text_length[of p] by (cases n) (auto simp: join_Cons)
  have "python_value flt (snd p)" using Cons.prems(1) by simp
  then obtain c t where z: "dumps (snd p) = c # t" "\<not> json_space c" by (rule dumps_first)
  have skip: "skip tail = tail"
    unfolding tail_def by (cases ps) (simp_all add: skip_def member_text_def quoted_def not_space)
  have "parse_value flt hook m (dumps (snd p) @ '','' @ tail) = Inr (canon (snd p), '','' @ tail)"
    using Cons.prems n unfolding reads_back_def by (simp add: delimited_def)
  moreover have "parse_members flt hook m (acc @ [canon_member p]) tail = Inr (d, rest)"
    unfolding tail_def using Cons.IH[of q m "acc @ [canon_member p]"] Cons.prems(1,3) n(3) by simp
  moreover have eq: "join '','' (map member_text (p # q # ps)) @ ''}'' @ rest =
      dquote # concat (map escape_char (fst p)) @ dquote # '':'' @ dumps (snd p) @ '','' @ tail"
    by (simp add: tail_def) (simp add: member_text_def quoted_def)
  ultimately show ?case using z
    unfolding eq n(1) by (simp add: scan_quoted skip_def skip[unfolded skip_def] json_space_def canon_member_def)
qed

lemma parse_object:
  "parse_value flt hook (Suc m) (''{'' @ dquote # t) = parse_members flt hook m [] (dquote # t)"
  by (simp add: skip_def not_space) (simp add: dquote_def)

text \<open>An object ends with its brace, whatever follows\<close>

lemma object_back:
  assumes "keeps_pairs hook" "python_value flt (JObj kvs)" "\<forall>kv \<in> set kvs. reads_back flt hook (snd kv)"
    "2 * length (dumps (JObj kvs)) < n"
  shows "parse_value flt hook n (dumps (JObj kvs) @ rest) = Inr (canon (JObj kvs), rest)"
proof -
  define ps where "ps = sort_key fst kvs"
  have texts: "dumps (JObj kvs) = ''{'' @ join '','' (map member_text ps) @ ''}''"
    by (simp add: ps_def member_text_def[abs_def])
  from assms(4) obtain m where m: "n = Suc m" "2 * length (join '','' (map member_text ps)) < m"
    unfolding texts by (cases n) auto
  have hook: "hook (map canon_member ps) = Inr (canon (JObj kvs))"
  proof -
    have "distinct (map fst ps)" using assms(2) by (simp add: ps_def distinct_map)
    then have "distinct (map fst (map canon_member ps))" by (simp add: canon_member_def comp_def)
    then show ?thesis using assms(1) by (simp add: keeps_pairs_def ps_def canon_member_def)
  qed
  show ?thesis
  proof (cases ps)
    case Nil
    then show ?thesis using m hook unfolding texts by (simp add: skip_def json_space_def dquote_def)
  next
    case (Cons p qs)
    have "\<forall>kv \<in> set ps. python_value flt (snd kv) \<and> reads_back flt hook (snd kv)"
      using assms(2,3) by (auto simp: ps_def list_all_iff)
    then have "parse_members flt hook m [] (join '','' (map member_text ps) @ ''}'' @ rest) = Inr (canon (JObj kvs), rest)"
      using parse_members_back[of p qs flt hook m "[]" _ rest] Cons m(2) hook by simp
    moreover have "join '','' (map member_text ps) = dquote # tl (join '','' (map member_text ps))"
      unfolding Cons by (cases qs) (simp_all add: member_text_def quoted_def)
    ultimately show ?thesis unfolding texts m(1)
      by (metis (no_types, lifting) append.assoc append_Cons append_Nil parse_object)
  qed
qed

lemma reads_back_all:
  assumes "keeps_pairs hook"
  shows "python_value flt v \<Longrightarrow> reads_back flt hook v"
proof (induction v)
  case JNull
  show ?case by (rule reads_back_literal) (simp add: dquote_def)
next
  case (JBool b)
  show ?case by (rule reads_back_literal) (simp add: dquote_def)
next
  case (JStr s)
  show ?case by (rule reads_back_literal) (simp add: quoted_def scan_quoted)
next
  case (JList xs)
  show ?case
    unfolding reads_back_def
  proof (intro allI impI)
    fix n rest
    assume n: "2 * length (dumps (JList xs)) < n"
    then obtain m where m: "n = Suc m" "2 * length (join '','' (map dumps xs)) + 1 < m" by (cases n) auto
    show "parse_value flt hook n (dumps (JList xs) @ rest) = Inr (canon (JList xs), rest)"
    proof (cases xs)
      case Nil
      then show ?thesis using m by (simp add: skip_def json_space_def dquote_def)
    next
      case (Cons y ys)
      have "python_value flt y" using JList.prems Cons by simp
      then obtain c t where y: "dumps y = c # t" "\<not> json_space c" "c \<noteq> CHR '']''" by (rule dumps_first)
      have "parse_items flt hook m [] (join '','' (map dumps xs) @ '']'' @ rest) = Inr (JList (map canon xs), rest)"
        using parse_items_back[of y ys flt hook m "[]" rest] JList Cons m by (simp add: list_all_iff)
      then show ?thesis using m(1) y Cons by (cases ys) (simp_all add: skip_def dquote_def)
    qed
  qed
next
  case (JObj kvs)
  then have members: "\<forall>kv \<in> set kvs. reads_back flt hook (snd kv)" by (auto simp: list_all_iff)
  show ?case
    unfolding reads_back_def using object_back[OF assms JObj.prems members] by blast
next
  case (JInt i)
  show ?case by (rule reads_back_number) (simp add: number_dec_int)
next
  case (JFloat m k r)
  then show ?case by (intro reads_back_number) simp
qed

lemma loads_dumps:
  assumes "keeps_pairs hook" "python_value flt v"
  shows "loads flt hook (dumps v) = Inr (canon v)"
proof -
  obtain c t where c: "dumps v = c # t" "\<not> json_space c" using assms(2) by (rule dumps_first)
  then have "skip (dumps v) = dumps v" by (simp add: skip_def)
  moreover have "parse_value flt hook (2 * length (dumps v) + 1) (dumps v @ []) = Inr (canon v, [])"
    by (rule reads_back_all[OF assms, unfolded reads_back_def, rule_format]) (simp_all add: delimited_def)
  ultimately show ?thesis by (simp add: loads_def skip_def)
qed

text \<open>a file that holds one object and a line end\<close>

lemma loads_object_text:
  assumes "keeps_pairs hook" "python_value flt v" "is_obj v" "skip rest = []"
  shows "loads flt hook (dumps v @ rest) = Inr (canon v)"
proof -
  obtain kvs where v: "v = JObj kvs" using assms(3) by (rule is_objE)
  have "\<forall>kv \<in> set kvs. reads_back flt hook (snd kv)"
    using assms(2) reads_back_all[OF assms(1)] by (auto simp: v list_all_iff)
  then have "parse_value flt hook (2 * length (dumps v @ rest) + 1) (dumps v @ rest) = Inr (canon v, rest)"
    unfolding v by (rule object_back[OF assms(1) assms(2)[unfolded v]]) simp
  moreover have "skip (dumps v @ rest) = dumps v @ rest" by (simp add: v skip_def json_space_def)
  ultimately show ?thesis using assms(4) by (simp add: loads_def)
qed

lemma keys_canon [simp]: "set (keys (canon v)) = set (keys v)"
  by (cases v) (simp_all add: keys_def json_sel_defs)

lemma is_canon [simp]: "is_obj (canon v) = is_obj v" "is_list (canon v) = is_list v"
  "is_str (canon v) = is_str v" "is_int (canon v) = is_int v"
  by (cases v; simp)+

lemma sort_key_map: "sort_key g (map h xs) = map h (sort_key (\<lambda>x. g (h x)) xs)"
proof -
  have "insort_key g (h x) (map h ys) = map h (insort_key (\<lambda>x. g (h x)) x ys)" for x ys
    by (induction ys) simp_all
  then show ?thesis by (induction xs) simp_all
qed

lemma sort_key_idem [simp]: "sort_key f (sort_key f xs) = sort_key f xs"
  by (rule sort_key_id_if_sorted) simp

lemma norm_canon [simp]: "norm (canon v) = norm v"
  by (induction v rule: canon.induct) (simp_all add: sort_key_map comp_def)

lemma py_eq_canon: "py_eq (canon v) v"
  by (simp add: py_eq_def)

lemma dumps_canon [simp]: "dumps (canon v) = dumps v"
proof (induction v rule: canon.induct)
  case (7 kvs)
  then show ?case
    by (auto simp: sort_key_map comp_def intro!: arg_cong[of _ _ "join '',''"] map_cong)
qed (simp_all add: comp_def cong: map_cong)

lemma canon_canon [simp]: "canon (canon v) = canon v"
  by (induction v rule: canon.induct) (simp_all add: sort_key_map comp_def)

text \<open>Two values with the same canonical text are equal.\<close>

lemma dumps_inj:
  assumes "python_value flt v" "python_value flt w" "dumps v = dumps w"
  shows "canon v = canon w"
  using loads_dumps[OF keeps_pairs_dict_of assms(1)] loads_dumps[OF keeps_pairs_dict_of assms(2)] assms(3)
  by simp

end
