(* ===== verification/Lines.thy ===== *)
theory Lines
  imports Json
begin

text \<open>
  The text layer of the JSONL logs: \<open>bytes.splitlines\<close> and \<open>str.splitlines\<close> (which differ in
  what they take for the end of a line), \<open>bytes.strip\<close>, and UTF-8 validity as
  \<open>bytes.decode\<close> checks it. A canonical JSON text holds no control character, so it is
  one line for \<open>bytes.splitlines\<close>.
\<close>

section \<open>Lines\<close>

text \<open>the length of the line end a text starts with, 0 if it starts with none\<close>

definition byte_end :: "string \<Rightarrow> nat" where
  "byte_end s = (if starts_with s [byte 13, byte 10] then 2
     else if s \<noteq> [] \<and> (code (hd s) = 10 \<or> code (hd s) = 13) then 1 else 0)"

definition text_end :: "string \<Rightarrow> nat" where
  "text_end s = (if starts_with s [byte 13, byte 10] \<or> starts_with s [byte 194, byte 133] then 2
     else if starts_with s [byte 226, byte 128, byte 168] \<or> starts_with s [byte 226, byte 128, byte 169] then 3
     else if s \<noteq> [] \<and> (10 \<le> code (hd s) \<and> code (hd s) \<le> 13 \<or> 28 \<le> code (hd s) \<and> code (hd s) \<le> 30)
     then 1 else 0)"

text \<open>the first line and the text after its end\<close>

fun cut_line :: "(string \<Rightarrow> nat) \<Rightarrow> string \<Rightarrow> string \<times> string" where
  "cut_line line_end [] = ([], [])"
| "cut_line line_end (c # s) = (if line_end (c # s) \<noteq> 0 then ([], drop (line_end (c # s)) (c # s))
     else case cut_line line_end s of (w, r) \<Rightarrow> (c # w, r))"

lemma cut_line_shorter: "length (snd (cut_line line_end s)) \<le> length s - 1"
  by (induction s) (auto split: prod.splits)

function splitlines :: "(string \<Rightarrow> nat) \<Rightarrow> string \<Rightarrow> string list" where
  "splitlines line_end s = (if s = [] then []
     else fst (cut_line line_end s) # splitlines line_end (snd (cut_line line_end s)))"
  by pat_completeness auto
termination
proof (relation "measure (length \<circ> snd)", goal_cases)
  case (2 line_end s)
  then show ?case using cut_line_shorter[of line_end s] by (cases s) auto
qed simp

declare splitlines.simps [simp del]

text \<open>no line end starts inside \<open>w\<close>, whatever follows it\<close>

definition one_line :: "(string \<Rightarrow> nat) \<Rightarrow> string \<Rightarrow> bool" where
  "one_line line_end w \<longleftrightarrow> (\<forall>u v rest. w = u @ v \<longrightarrow> v \<noteq> [] \<longrightarrow> line_end (v @ rest) = 0)"

definition newline :: string where
  "newline = [byte 10]"

lemma cut_line_one:
  assumes "one_line line_end w" "line_end (newline @ rest) = 1"
  shows "cut_line line_end (w @ newline @ rest) = (w, rest)"
  using assms(1)
proof (induction w)
  case Nil
  then show ?case using assms(2) by (simp add: newline_def)
next
  case (Cons c w)
  have "line_end (c # w @ newline @ rest) = 0"
    using Cons.prems unfolding one_line_def by (metis append_Cons append_Nil list.distinct(1))
  moreover have "one_line line_end w"
    using Cons.prems unfolding one_line_def by (metis append_Cons)
  ultimately show ?case using Cons.IH by simp
qed

lemma splitlines_one:
  assumes "one_line line_end w" "line_end (newline @ rest) = 1"
  shows "splitlines line_end (w @ newline @ rest) = w # splitlines line_end rest"
  using cut_line_one[OF assms] by (subst splitlines.simps) (simp add: newline_def)

lemma splitlines_lines:
  assumes "\<And>rest. line_end (newline @ rest) = 1" "\<forall>w \<in> set ws. one_line line_end w"
  shows "splitlines line_end (concat (map (\<lambda>w. w @ newline) ws)) = ws"
  using assms(2)
proof (induction ws)
  case Nil
  then show ?case by (simp add: splitlines.simps)
next
  case (Cons w ws)
  then show ?case using splitlines_one[of line_end w, OF _ assms(1)] by simp
qed

lemma code_byte [simp]: "0 \<le> n \<Longrightarrow> n < 256 \<Longrightarrow> code (byte n) = n"
  by (simp add: code_def byte_def)

lemma code_eq_byte: "0 \<le> n \<Longrightarrow> n < 256 \<Longrightarrow> c = byte n \<longleftrightarrow> code c = n"
  by (metis byte_def char_of_code code_byte)

lemma byte_end_newline: "byte_end (newline @ rest) = 1"
  by (simp add: byte_end_def newline_def code_eq_byte)

lemma text_end_newline: "text_end (newline @ rest) = 1"
  by (cases rest) (simp_all add: text_end_def newline_def code_eq_byte)

definition printable :: "string \<Rightarrow> bool" where
  "printable s = list_all (\<lambda>c. 32 \<le> code c) s"

lemma one_line_bytes: "printable w \<Longrightarrow> one_line byte_end w"
  by (auto simp: one_line_def printable_def byte_end_def starts_with_def code_eq_byte neq_Nil_conv)

section \<open>Canonical text has no control characters\<close>

lemma printable_append [simp]: "printable (s @ t) \<longleftrightarrow> printable s \<and> printable t"
  by (simp add: printable_def)

lemma printable_Cons [simp]: "printable (c # s) \<longleftrightarrow> 32 \<le> code c \<and> printable s"
  by (simp add: printable_def)

lemma printable_Nil [simp]: "printable []"
  by (simp add: printable_def)

lemma printable_concat: "printable (concat ss) \<longleftrightarrow> (\<forall>s \<in> set ss. printable s)"
  by (auto simp: printable_def list_all_iff)

lemma printable_join: "printable sep \<Longrightarrow> (\<forall>w \<in> set ws. printable w) \<Longrightarrow> printable (join sep ws)"
  by (induction sep ws rule: join.induct) auto

lemma printable_hex2: "0 \<le> n \<Longrightarrow> n < 32 \<Longrightarrow> printable (hex2 n)"
proof -
  assume "0 \<le> n" "n < 32"
  then have "n \<in> set (upto 0 31)" by simp
  moreover have "list_all (\<lambda>n. printable (hex2 n)) (upto 0 31)" by code_simp
  ultimately show ?thesis by (simp add: list_all_iff)
qed

lemma printable_quoted: "printable (quoted s)"
proof -
  have "printable (escape_char c)" for c
  proof (cases "code c < 32")
    case True
    then show ?thesis using printable_hex2[of "code c"]
      by (auto simp: escape_char_def dquote_def backslash_def) (simp_all add: code_def)
  next
    case False
    then show ?thesis by (auto simp: escape_char_def dquote_def backslash_def) (simp_all add: code_def)
  qed
  then show ?thesis by (auto simp: quoted_def printable_concat dquote_def code_def)
qed

lemma printable_digits: "list_all is_digit s \<Longrightarrow> printable s"
  by (auto simp: printable_def list_all_iff is_digit_def)

lemma digits_split: "s = digits s @ after_digits s" "list_all is_digit (digits s)"
  by (auto simp: digits_def after_digits_def list_all_iff dest: set_takeWhileD)

lemma printable_dec_int: "printable (dec_int i)"
  using dec_digits[of i] dec_digits[of "- i"]
  by (auto simp: dec_int_def code_def intro: printable_digits)

lemma number_printable:
  assumes "number flt s = Inr (v, [])"
  shows "printable s"
proof -
  have d: "printable (digits s)" for s using digits_split(2) by (rule printable_digits)
  have split: "digits s @ after_digits s = s" for s using digits_split(1)[of s] by simp
  have n: "s = i @ r \<and> printable i" if "natural_part s = Some (i, r)" for s i r
    using that d[of s] split[of s] by (auto simp: natural_part_def code_def split: list.splits if_splits)
  have f: "s = fst (fraction_part s) @ snd (fraction_part s) \<and> printable (fst (fraction_part s))" for s
    using d[of "tl s"] split[of "tl s"] by (cases s) (auto simp: fraction_part_def code_def)
  have x: "s = fst (exponent_part s) @ snd (exponent_part s) \<and> printable (fst (exponent_part s))" for s
    using d[of "tl s"] split[of "tl s"] d[of "tl (tl s)"] split[of "tl (tl s)"]
    by (auto simp: exponent_part_def split: list.splits) (auto simp: code_def)
  have u: "printable t" if u: "unsigned_number flt sign t = Inr (v, [])" for t sign
  proof -
    from u obtain i r where i: "natural_part t = Some (i, r)" and e: "snd (exponent_part (snd (fraction_part r))) = []"
      by (auto simp: unsigned_number_def split: option.splits prod.splits)
    show ?thesis
      using n[OF i] f[of r] x[of "snd (fraction_part r)"] e by (metis append_Nil2 printable_append)
  qed
  show ?thesis
    using assms u[of "''-''" "tl s"] u[of "[]" s] by (auto simp: number_def code_def split: list.splits if_splits)
qed

lemma printable_dumps: "python_value flt v \<Longrightarrow> printable (dumps v)"
proof (induction v rule: dumps.induct)
  case (6 xs)
  then show ?case by (auto simp: list_all_iff code_def intro!: printable_join)
next
  case (7 kvs)
  then show ?case by (auto simp: list_all_iff code_def printable_quoted intro!: printable_join)
qed (auto simp: printable_quoted printable_dec_int code_def dest: number_printable)

section \<open>UTF-8\<close>

text \<open>
  The length of the encoding a byte starts and the range of the next byte (0: it starts none);
  the bytes after those two are continuation bytes.
\<close>

definition utf8_lead :: "int \<Rightarrow> nat \<times> int \<times> int" where
  "utf8_lead a = (if a < 128 then (1, 128, 191)
     else if a < 194 then (0, 128, 191)
     else if a < 224 then (2, 128, 191)
     else if a < 240 then (3, if a = 224 then 160 else 128, if a = 237 then 159 else 191)
     else if a < 245 then (4, if a = 240 then 144 else 128, if a = 244 then 143 else 191)
     else (0, 128, 191))"

definition continued :: "nat \<Rightarrow> int \<Rightarrow> int \<Rightarrow> string \<Rightarrow> bool" where
  "continued k lo hi t = (k = 0 \<or> k \<le> length t \<and> lo \<le> code (hd t) \<and> code (hd t) \<le> hi \<and>
     list_all (\<lambda>c. 128 \<le> code c \<and> code c \<le> 191) (take (k - 1) (tl t)))"

definition utf8_len :: "string \<Rightarrow> nat" where
  "utf8_len s = (case s of [] \<Rightarrow> 0
     | c # t \<Rightarrow> (case utf8_lead (code c) of (n, lo, hi) \<Rightarrow> if n \<noteq> 0 \<and> continued (n - 1) lo hi t then n else 0))"

function utf8_ok :: "string \<Rightarrow> bool" where
  "utf8_ok s = (if s = [] then True else if utf8_len s = 0 then False else utf8_ok (drop (utf8_len s) s))"
  by pat_completeness auto
termination
  by (relation "measure length") auto

declare utf8_ok.simps [simp del]

lemma utf8_ok_Nil [simp]: "utf8_ok []"
  by (simp add: utf8_ok.simps)

lemma continued_append: "continued k lo hi t \<Longrightarrow> continued k lo hi (t @ u)"
  by (cases t) (auto simp: continued_def)

lemma utf8_len_bound: "utf8_len s \<le> length s"
  by (auto simp: utf8_len_def continued_def split: list.splits prod.splits)

lemma utf8_len_append: "utf8_len s \<noteq> 0 \<Longrightarrow> utf8_len (s @ t) = utf8_len s"
  by (auto simp: utf8_len_def continued_append split: list.splits prod.splits if_splits)

lemma utf8_ok_append: "utf8_ok s \<Longrightarrow> utf8_ok t \<Longrightarrow> utf8_ok (s @ t)"
proof (induction s rule: utf8_ok.induct)
  case (1 s)
  show ?case
  proof (cases "s = []")
    case False
    with 1(2) have n: "utf8_len s \<noteq> 0" "utf8_ok (drop (utf8_len s) s)"
      by (subst (asm) utf8_ok.simps, simp split: if_splits)+
    have "utf8_ok (drop (utf8_len s) s @ t)" by (rule 1(1)[OF False n 1(3)])
    then show ?thesis using n False utf8_len_bound[of s] by (subst utf8_ok.simps) (simp add: utf8_len_append)
  qed (use 1 in simp)
qed

lemma utf8_ok_ascii: "list_all (\<lambda>c. code c < 128) s \<Longrightarrow> utf8_ok s"
proof (induction s)
  case (Cons c s)
  then show ?case by (subst utf8_ok.simps) (simp add: utf8_len_def utf8_lead_def continued_def)
qed simp

text \<open>A value all of whose texts, keys included, are valid UTF-8\<close>

function utf8_value :: "json \<Rightarrow> bool" where
  "utf8_value JNull = True"
| "utf8_value (JBool b) = True"
| "utf8_value (JInt i) = True"
| "utf8_value (JFloat m k r) = utf8_ok r"
| "utf8_value (JStr s) = utf8_ok s"
| "utf8_value (JList xs) = list_all utf8_value xs"
| "utf8_value (JObj kvs) = list_all (\<lambda>kv. utf8_ok (fst kv) \<and> utf8_value (snd kv)) kvs"
  by pat_completeness auto
termination
proof (relation "measure size", goal_cases)
  case (3 kvs kv)
  then have "size (snd kv) \<le> size_list (size_prod (\<lambda>_. 0) size) kvs"
    by (intro size_list_estimation'[of kv]) (simp_all add: size_prod_simp)
  then show ?case by simp
qed (auto simp: less_Suc_eq_le intro: size_list_estimation')

lemma utf8_ok_concat: "(\<forall>w \<in> set ws. utf8_ok w) \<Longrightarrow> utf8_ok (concat ws)"
  by (induction ws) (auto intro: utf8_ok_append)

lemma utf8_ok_join: "utf8_ok sep \<Longrightarrow> (\<forall>w \<in> set ws. utf8_ok w) \<Longrightarrow> utf8_ok (join sep ws)"
  by (induction sep ws rule: join.induct) (auto intro!: utf8_ok_append)

lemma escape_high: "128 \<le> code c \<Longrightarrow> escape_char c = [c]"
  by (auto simp: escape_char_def dquote_def backslash_def code_def)

lemma escape_ascii: "code c < 128 \<Longrightarrow> utf8_ok (escape_char c)"
proof (rule utf8_ok_ascii)
  assume "code c < 128"
  moreover have "list_all (\<lambda>c. code c < 128) (hex2 n)" if "0 \<le> n" "n < 32" for n
  proof -
    have "n \<in> set (upto 0 31)" using that by simp
    moreover have "list_all (\<lambda>n. list_all (\<lambda>c. code c < 128) (hex2 n)) (upto 0 31)" by code_simp
    ultimately show ?thesis by (simp add: list_all_iff)
  qed
  ultimately show "list_all (\<lambda>c. code c < 128) (escape_char c)"
    by (auto simp: escape_char_def dquote_def backslash_def) (simp_all add: code_def)
qed

lemma continued_take: "continued k lo hi t \<Longrightarrow> continued k lo hi (take k t)"
  by (cases k; cases t) (auto simp: continued_def)

lemma continued_high: "continued k lo hi t \<Longrightarrow> 128 \<le> lo \<Longrightarrow> list_all (\<lambda>c. 128 \<le> code c) (take k t)"
  by (cases k; cases t) (auto simp: continued_def list_all_iff)

lemma lead_high: "utf8_lead a = (n, lo, hi) \<Longrightarrow> 128 \<le> lo"
  by (auto simp: utf8_lead_def split: if_splits)

lemma first_char:
  assumes "utf8_len s \<noteq> 0"
  shows "utf8_len (take (utf8_len s) s) = utf8_len s \<and>
    (128 \<le> code (hd s) \<longrightarrow> list_all (\<lambda>c. 128 \<le> code c) (take (utf8_len s) s))"
proof -
  obtain c t where s: "s = c # t" using assms by (cases s) (auto simp: utf8_len_def)
  obtain n lo hi where lead: "utf8_lead (code c) = (n, lo, hi)" by (cases "utf8_lead (code c)")
  then have n: "utf8_len s = n" "n \<noteq> 0" "continued (n - 1) lo hi t"
    using assms s lead by (auto simp: utf8_len_def split: if_splits)
  then have "take (utf8_len s) s = c # take (n - 1) t" using s by (cases n) simp_all
  then show ?thesis
    using n s lead continued_take[OF n(3)] continued_high[OF n(3) lead_high[OF lead]] by (simp add: utf8_len_def)
qed

text \<open>Escaping leaves a multibyte character as it is.\<close>

lemma utf8_ok_escaped: "utf8_ok s \<Longrightarrow> utf8_ok (concat (map escape_char s))"
proof (induction s rule: utf8_ok.induct)
  case (1 s)
  show ?case
  proof (cases "s = []")
    case False
    with 1(2) have n: "utf8_len s \<noteq> 0" "utf8_ok (drop (utf8_len s) s)"
      by (subst (asm) utf8_ok.simps, simp split: if_splits)+
    define w where "w = take (utf8_len s) s"
    have "utf8_ok (concat (map escape_char w))"
    proof (cases "code (hd s) < 128")
      case True
      then have "w = [hd s]" using False n(1)
        by (cases s) (simp_all add: w_def utf8_len_def utf8_lead_def continued_def)
      then show ?thesis using escape_ascii[OF True] by simp
    next
      case high: False
      have "list_all (\<lambda>c. 128 \<le> code c) w" using first_char[OF n(1)] high by (simp add: w_def)
      then have "concat (map escape_char w) = w"
        by (induction w) (simp_all add: escape_high)
      moreover have "utf8_ok w"
        using first_char[OF n(1)] utf8_len_bound[of s] False n(1) by (subst utf8_ok.simps) (simp add: w_def)
      ultimately show ?thesis by simp
    qed
    moreover have "utf8_ok (concat (map escape_char (drop (utf8_len s) s)))" by (rule 1(1)[OF False n])
    moreover have "s = w @ drop (utf8_len s) s" by (simp add: w_def)
    ultimately show ?thesis by (metis concat_append map_append utf8_ok_append)
  qed simp
qed

lemma utf8_ok_quoted: "utf8_ok s \<Longrightarrow> utf8_ok (quoted s)"
proof -
  assume "utf8_ok s"
  moreover have "utf8_ok [dquote]" by (rule utf8_ok_ascii) (simp add: dquote_def code_def)
  ultimately have "utf8_ok ([dquote] @ concat (map escape_char s) @ [dquote])"
    by (intro utf8_ok_append utf8_ok_escaped)
  then show ?thesis by (simp add: quoted_def)
qed

lemma ascii_number: "list_all is_digit s \<Longrightarrow> utf8_ok s"
  by (rule utf8_ok_ascii) (auto simp: list_all_iff is_digit_def)

lemma utf8_ok_dec_int: "utf8_ok (dec_int i)"
proof -
  have "utf8_ok ''-''" by code_simp
  then show ?thesis using dec_digits[of i] dec_digits[of "- i"] utf8_ok_append[of "''-''"]
    by (auto simp: dec_int_def ascii_number)
qed

lemma utf8_punctuation: "utf8_ok '',''" "utf8_ok '':''" "utf8_ok ''{''" "utf8_ok ''}''" "utf8_ok ''[''" "utf8_ok '']''"
  "utf8_ok ''null''" "utf8_ok ''true''" "utf8_ok ''false''"
  by code_simp+

lemma utf8_ok_dumps: "utf8_value v \<Longrightarrow> utf8_ok (dumps v)"
proof (induction v rule: dumps.induct)
  case (6 xs)
  then have "utf8_ok (''['' @ join '','' (map dumps xs) @ '']'')"
    by (intro utf8_ok_append utf8_ok_join utf8_punctuation) (auto simp: list_all_iff)
  then show ?case by simp
next
  case (7 kvs)
  have "utf8_ok (quoted (fst kv) @ '':'' @ dumps (snd kv))" if "kv \<in> set kvs" for kv
    using 7 that by (intro utf8_ok_append utf8_punctuation utf8_ok_quoted) (auto simp: list_all_iff)
  then have "utf8_ok (''{'' @ join '','' (map (\<lambda>kv. quoted (fst kv) @ '':'' @ dumps (snd kv)) (sort_key fst kvs)) @ ''}'')"
    by (intro utf8_ok_append utf8_ok_join utf8_punctuation) auto
  then show ?case by simp
qed (simp_all add: utf8_ok_dec_int utf8_ok_quoted utf8_punctuation)

end
