(* ===== verification/Protocol.thy ===== *)
theory Protocol
  imports Lines
begin

text \<open>
  What \<open>scripts/workgraph_updates.py\<close> and \<open>scripts/workgraph_activity.py\<close> have in common:
  JSONL logs of hash-chained rows, read and verified as a whole, appended to under a lock,
  and consumed through a cursor. Each script has its own copy of this code with its own
  exception class and code prefix, so the definitions take them as arguments (\<open>mk\<close>, \<open>pre\<close>)
  together with the name of the row's hash field (\<open>hk\<close>). \<open>sha\<close> is
  \<open>hashlib.sha256(...).hexdigest()\<close> and \<open>flt\<close> the reading of a decimal fraction. The content of a
  log file is a byte string, or \<open>None\<close> when there is no file.
\<close>

section \<open>Checked values\<close>

definition genesis :: string where
  "genesis = replicate 64 CHR ''0''"

definition is_hash :: "bool \<Rightarrow> json \<Rightarrow> bool" where
  "is_hash prefixed v = (case v of
     JStr s \<Rightarrow> if prefixed then starts_with s sha_prefix \<and> hex64 (drop 7 s) else hex64 s
   | _ \<Rightarrow> False)"

definition require_string :: "(string \<Rightarrow> exn) \<Rightarrow> json \<Rightarrow> string \<Rightarrow> string result" where
  "require_string mk v c = (if nonblank v then Inr (the_str v) else Inl (mk c))"

definition require_time :: "(string \<Rightarrow> exn) \<Rightarrow> json \<Rightarrow> string \<Rightarrow> unit result" where
  "require_time mk v c = bind (require_string mk v c) (\<lambda>s. guard (parse_time s \<noteq> None) (mk c))"

text \<open>\<open>v not in S\<close> for a set of strings: a list or a dictionary cannot be looked up\<close>

definition require_in :: "(string \<Rightarrow> exn) \<Rightarrow> json \<Rightarrow> string list \<Rightarrow> string \<Rightarrow> unit result" where
  "require_in mk v S c = (if \<not> hashable v then Inl TypeError else guard (in_strs v S) (mk c))"

definition require_positive :: "(string \<Rightarrow> exn) \<Rightarrow> json \<Rightarrow> string \<Rightarrow> unit result" where
  "require_positive mk v c = guard (is_int v \<and> 1 \<le> the_int v) (mk c)"

definition provenances :: "string list" where
  "provenances = [''unknown'', ''declared'', ''parent_assigned'', ''runtime_observed'', ''receipt_backed'']"

definition observed_provenances :: "string list" where
  "observed_provenances = [''unknown'', ''runtime_observed'', ''receipt_backed'']"

definition require_fact :: "(string \<Rightarrow> exn) \<Rightarrow> string \<Rightarrow> json \<Rightarrow> string \<Rightarrow> bool \<Rightarrow> unit result" where
  "require_fact mk pre v field observed =
     (let invalid = mk (pre @ ''_identity_'' @ field @ ''_invalid'');
          mismatch = mk (pre @ ''_identity_'' @ field @ ''_provenance_invalid'') in
      if \<not> keys_are v [''value'', ''provenance''] then Inl invalid
      else let fact = fld v ''value''; provenance = fld v ''provenance'' in
        if \<not> is_str fact \<or> the_str fact = [] then Inl invalid
        else if \<not> hashable provenance then Inl TypeError
        else if \<not> in_strs provenance (if observed then observed_provenances else provenances) then Inl invalid
        else if (fact = JStr ''unknown'') \<noteq> (provenance = JStr ''unknown'') then Inl mismatch
        else guard (\<not> (observed \<and> fact \<noteq> JStr ''unknown'' \<and> \<not> in_strs provenance [''runtime_observed'', ''receipt_backed'']))
          mismatch)"

text \<open>\<open>1 == value\<close> after the type has been checked\<close>

definition require_version :: "(string \<Rightarrow> exn) \<Rightarrow> string \<Rightarrow> json \<Rightarrow> unit result" where
  "require_version mk pre v =
     (if \<not> is_int v then Inl (mk (pre @ ''_version_invalid''))
      else guard (the_int v = 1) (mk (pre @ ''_version_unsupported'')))"

lemma require_string_eq_Inr [result_simps]: "require_string mk v c = Inr s \<longleftrightarrow> v = JStr s \<and> \<not> blank s"
  by (cases v) (auto simp: require_string_def nonblank_def)

lemma require_time_eq_Inr [result_simps]:
  "require_time mk v c = Inr u \<longleftrightarrow> (\<exists>s t. v = JStr s \<and> \<not> blank s \<and> parse_time s = Some t)"
  by (auto simp: require_time_def result_simps)

lemma require_in_eq_Inr [result_simps]: "require_in mk v S c = Inr u \<longleftrightarrow> (\<exists>s. v = JStr s \<and> s \<in> set S)"
  by (cases v) (auto simp: require_in_def result_simps in_strs_def hashable_def)

lemma require_positive_eq_Inr [result_simps]: "require_positive mk v c = Inr u \<longleftrightarrow> (\<exists>i. v = JInt i \<and> 1 \<le> i)"
  by (cases v) (auto simp: require_positive_def result_simps)

lemma require_version_eq_Inr [result_simps]: "require_version mk pre v = Inr u \<longleftrightarrow> v = JInt 1"
  by (cases v) (auto simp: require_version_def result_simps)

section \<open>Reading a log\<close>

definition no_duplicates :: "(string \<Rightarrow> exn) \<Rightarrow> string \<Rightarrow> pairs_hook" where
  "no_duplicates mk pre pairs = bind (foldR (\<lambda>d (k, v).
     if k \<in> fst ` set d then Inl (mk (pre @ ''_json_duplicate_key'')) else Inr (d @ [(k, v)])) [] pairs)
     (\<lambda>d. Inr (JObj d))"

text \<open>\<open>not line.strip()\<close> on bytes\<close>

definition blank_bytes :: "string \<Rightarrow> bool" where
  "blank_bytes s = list_all (\<lambda>c. 9 \<le> code c \<and> code c \<le> 13 \<or> code c = 32) s"

definition parse_line :: "(string \<Rightarrow> json) \<Rightarrow> (string \<Rightarrow> exn) \<Rightarrow> string \<Rightarrow> string \<Rightarrow> json result" where
  "parse_line flt mk pre line =
     (if blank_bytes line then Inl (mk (pre @ ''_log_blank_line''))
      else if \<not> utf8_ok line then Inl (mk (pre @ ''_json_invalid''))
      else case loads flt (no_duplicates mk pre) line of
        Inl e \<Rightarrow> Inl (if e = JSONDecodeError then mk (pre @ ''_json_invalid'') else e)
      | Inr v \<Rightarrow> if is_obj v then Inr v else Inl (mk (pre @ ''_row_shape_invalid'')))"

definition parse_bytes :: "(string \<Rightarrow> json) \<Rightarrow> (string \<Rightarrow> exn) \<Rightarrow> string \<Rightarrow> string \<Rightarrow> bool \<Rightarrow> json list result" where
  "parse_bytes flt mk pre raw allow_empty =
     (if raw = [] then (if allow_empty then Inr [] else Inl (mk (pre @ ''_log_empty'')))
      else if \<not> ends_with raw newline then Inl (mk (pre @ ''_log_truncated''))
      else mapR (parse_line flt mk pre) (splitlines byte_end raw))"

text \<open>the hash of a row without its hash field\<close>

definition seal :: "(string \<Rightarrow> string) \<Rightarrow> string \<Rightarrow> json \<Rightarrow> string" where
  "seal sha hk row = sha (dumps (pop hk row))"

definition head_hash :: "string \<Rightarrow> json list \<Rightarrow> string" where
  "head_hash hk rows = (if rows = [] then genesis else the_str (fld (last rows) hk))"

section \<open>Cursors\<close>

definition cursor_keys :: "string list" where
  "cursor_keys = [''schema_version'', ''consumer_id'', ''next_sequence'', ''head_hash'']"

definition prior_hash :: "string \<Rightarrow> json list \<Rightarrow> int \<Rightarrow> json" where
  "prior_hash hk rows n = (if n = 1 then JStr genesis else fld (rows ! nat (n - 2)) hk)"

text \<open>the position a cursor stands for in the rows\<close>

definition check_cursor :: "(string \<Rightarrow> exn) \<Rightarrow> string \<Rightarrow> string \<Rightarrow> json list \<Rightarrow> json \<Rightarrow> int result" where
  "check_cursor mk pre hk rows cursor =
     (if \<not> keys_are cursor cursor_keys then Inl (mk (pre @ ''_cursor_invalid''))
      else bind (require_version mk (pre @ ''_cursor'') (fld cursor ''schema_version'')) (\<lambda>_.
      bind (require_string mk (fld cursor ''consumer_id'') (pre @ ''_cursor_consumer_invalid'')) (\<lambda>_.
      bind (require_positive mk (fld cursor ''next_sequence'') (pre @ ''_cursor_sequence_invalid'')) (\<lambda>_.
      let n = the_int (fld cursor ''next_sequence'') in
      if int (length rows) + 1 < n then Inl (mk (pre @ ''_cursor_ahead''))
      else if \<not> py_eq (fld cursor ''head_hash'') (prior_hash hk rows n) then Inl (mk (pre @ ''_cursor_hash_mismatch''))
      else Inr n))))"

text \<open>The rows selected, and the cursor that stands after them\<close>

definition take_rows :: "json list \<Rightarrow> int \<Rightarrow> json option \<Rightarrow> json list" where
  "take_rows rows n limit = (let later = drop (nat (n - 1)) rows in
     case limit of None \<Rightarrow> later | Some l \<Rightarrow> take (nat (the_int l)) later)"

definition next_cursor :: "string \<Rightarrow> json list \<Rightarrow> json \<Rightarrow> int \<Rightarrow> json list \<Rightarrow> json" where
  "next_cursor hk rows cursor n selected = JObj [(''schema_version'', JInt 1),
     (''consumer_id'', fld cursor ''consumer_id''), (''next_sequence'', JInt (n + int (length selected))),
     (''head_hash'', if selected = [] then prior_hash hk rows n else fld (last selected) hk)]"

definition consume_rows :: "(string \<Rightarrow> exn) \<Rightarrow> string \<Rightarrow> string \<Rightarrow> json list \<Rightarrow> json \<Rightarrow> json option \<Rightarrow> (json \<times> json list) result" where
  "consume_rows mk pre hk rows cursor limit =
     bind (check_cursor mk pre hk rows cursor) (\<lambda>n.
     bind (case limit of None \<Rightarrow> Inr () | Some l \<Rightarrow> require_positive mk l (pre @ ''_cursor_limit_invalid'')) (\<lambda>_.
     let selected = take_rows rows n limit in Inr (next_cursor hk rows cursor n selected, selected)))"

section \<open>Appending\<close>

text \<open>
  What happens under the lock: the file, created if it was not there, is read and verified, the
  row is built, and its line is written at the end. The result is the new content of the file
  and the row or the error; nothing is written unless the row has been built.
\<close>

definition append_log :: "(string \<Rightarrow> json) \<Rightarrow> (string \<Rightarrow> exn) \<Rightarrow> string \<Rightarrow> (json list \<Rightarrow> json result) \<Rightarrow> (json list \<Rightarrow> json result) \<Rightarrow>
    string option \<Rightarrow> string option \<times> json result" where
  "append_log flt mk pre verify build content =
     (let raw = (case content of None \<Rightarrow> [] | Some raw \<Rightarrow> raw);
        outcome = bind (parse_bytes flt mk pre raw True) (\<lambda>rows.
          bind (if rows = [] then Inr JNull else verify rows) (\<lambda>_. build rows)) in
      (Some (case outcome of Inl _ \<Rightarrow> raw | Inr row \<Rightarrow> raw @ dumps row @ newline), outcome))"

end
