(* ===== verification/HashLog.thy ===== *)
theory HashLog
  imports Protocol
begin

text \<open>
  The interface of the three append-only logs. A log is a list of rows that a verifier accepts;
  what the locale asks of the verifier is that a prefix of an accepted log is accepted and that
  the last row is sealed by its own hash and linked to the hash before it. From that follow, once
  for the three logs: accepted logs are closed under prefixes, two logs with the same head
  have the same rows unless the hash collides, and a consumer that keeps its cursor gets
  every row exactly once, in order, however the log grows in between.
\<close>

section \<open>Contents\<close>

text \<open>the same keys with equal values\<close>

definition same_content :: "json \<Rightarrow> json \<Rightarrow> bool" where
  "same_content r s \<longleftrightarrow> set (keys r) = set (keys s) \<and> (\<forall>k. py_eq (fld r k) (fld s k))"

definition plain_object :: "(string \<Rightarrow> json) \<Rightarrow> json \<Rightarrow> bool" where
  "plain_object flt r \<longleftrightarrow> is_obj r \<and> python_value flt r"

text \<open>no two rows of different content have the same hash\<close>

definition no_collision :: "(string \<Rightarrow> string) \<Rightarrow> string \<Rightarrow> json list \<Rightarrow> json list \<Rightarrow> bool" where
  "no_collision sha hk rs ss \<longleftrightarrow> (\<forall>r \<in> set rs. \<forall>s \<in> set ss.
     seal sha hk r = seal sha hk s \<longrightarrow> dumps (pop hk r) = dumps (pop hk s))"

lemma map_of_sort_key: "distinct (map fst kvs) \<Longrightarrow> map_of (sort_key fst kvs) = map_of kvs"
  by (rule map_of_inject_set[THEN iffD2]) (simp_all add: distinct_map)

lemma get_canon: "python_value flt v \<Longrightarrow> get (canon v) k = map_option canon (get v k)"
proof (cases v)
  case (JObj kvs)
  assume "python_value flt v"
  then have d: "distinct (map fst kvs)" using JObj by simp
  have "map_of (map (\<lambda>kv. (fst kv, canon (snd kv))) (sort_key fst kvs)) k = map_option canon (map_of (sort_key fst kvs) k)"
    by (induction "sort_key fst kvs" arbitrary: kvs) (auto simp: map_of_map[unfolded case_prod_beta'] comp_def)
  then show ?thesis using JObj d by (simp add: get_def map_of_sort_key)
qed (simp_all add: get_def json_sel_defs)

lemma python_value_pop: "python_value flt v \<Longrightarrow> python_value flt (pop k v)"
proof (cases v)
  case (JObj kvs)
  assume "python_value flt v"
  then show ?thesis using JObj
    by (auto simp: pop_def list_all_iff AList.delete_eq intro: distinct_map_filter)
qed (simp_all add: pop_def json_sel_defs)

lemma same_content_text:
  assumes "plain_object flt r" "plain_object flt s" "dumps (pop k r) = dumps (pop k s)"
    "has_key r k" "has_key s k" "fld r k = fld s k"
  shows "same_content r s"
proof -
  note plain = assms(1,2)[unfolded plain_object_def]
  have "canon (pop k r) = canon (pop k s)"
    using dumps_inj[OF _ _ assms(3), of flt] plain python_value_pop by blast
  then have "map_option canon (get (pop k r) k') = map_option canon (get (pop k s) k')" for k'
    using get_canon[of flt "pop k r" k'] get_canon[of flt "pop k s" k'] plain python_value_pop by simp
  then have other: "map_option canon (get r k') = map_option canon (get s k')" if "k' \<noteq> k" for k'
    using that by (metis get_pop)
  have "has_key r k' = has_key s k'" for k'
    using other[of k'] assms(4,5) unfolding has_key_def by (metis option.map_disc_iff)
  then have "set (keys r) = set (keys s)" by (auto simp: has_key_iff)
  moreover have "py_eq (fld r k') (fld s k')" for k'
  proof (cases "k' = k")
    case False
    with other have "canon (fld r k') = canon (fld s k')"
      by (auto simp: fld_def split: option.splits) (metis map_option_eq_Some option.distinct(1) option.inject)+
    then show ?thesis by (metis norm_canon py_eq_def)
  qed (simp add: assms(6))
  ultimately show ?thesis by (simp add: same_content_def)
qed

section \<open>Sealed and linked logs\<close>

locale hash_log =
  fixes sha :: "string \<Rightarrow> string" and hk :: string and pk :: string and ok :: "json list \<Rightarrow> bool"
  assumes ok_snoc: "ok (rows @ [r]) \<Longrightarrow> ok rows"
    and linked: "ok (rows @ [r]) \<Longrightarrow> fld r pk = JStr (head_hash hk rows)"
    and sealed: "ok (rows @ [r]) \<Longrightarrow> fld r hk = JStr (seal sha hk r)"
begin

lemma prefix: "ok (rows @ later) \<Longrightarrow> ok rows"
proof (induction later rule: rev_induct)
  case (snoc r later)
  then show ?case using ok_snoc[of "rows @ later" r] by simp
qed simp

lemma row:
  assumes "ok rows" "i < length rows"
  shows "fld (rows ! i) hk = JStr (seal sha hk (rows ! i))"
    "fld (rows ! i) pk = JStr (head_hash hk (take i rows))"
proof -
  have "ok (take i rows @ [rows ! i])"
    using assms prefix[of "take (Suc i) rows" "drop (Suc i) rows"] by (metis append_take_drop_id take_Suc_conv_app_nth)
  then show "fld (rows ! i) hk = JStr (seal sha hk (rows ! i))"
    "fld (rows ! i) pk = JStr (head_hash hk (take i rows))"
    using linked sealed by blast+
qed

lemma head_snoc: "ok (rows @ [r]) \<Longrightarrow> head_hash hk (rows @ [r]) = seal sha hk r"
  using sealed by (simp add: head_hash_def)

text \<open>The head determines the log.\<close>

lemma same_head:
  assumes "ok rs" "ok ss" "length rs = length ss" "head_hash hk rs = head_hash hk ss"
    "no_collision sha hk rs ss" "hk \<noteq> pk" "\<forall>r \<in> set rs \<union> set ss. plain_object flt r"
  shows "list_all2 same_content rs ss"
  using assms
proof (induction rs arbitrary: ss rule: rev_induct)
  case Nil
  then show ?case by simp
next
  case (snoc r rs)
  obtain s ss' where ss: "ss = ss' @ [s]" using snoc.prems(3) by (cases ss rule: rev_cases) auto
  have "seal sha hk r = seal sha hk s"
    using snoc.prems(1,2,4) head_snoc unfolding ss by metis
  then have text_eq: "dumps (pop hk r) = dumps (pop hk s)"
    using snoc.prems(5) unfolding no_collision_def ss by auto
  have seals: "fld r hk = JStr (seal sha hk r)" "fld s hk = JStr (seal sha hk s)"
    using snoc.prems(1,2) sealed unfolding ss by blast+
  then have "same_content r s"
    using same_content_text[OF _ _ text_eq, of flt] snoc.prems(7) \<open>seal sha hk r = seal sha hk s\<close> ss
    by (auto simp: has_key_def fld_def split: option.splits)
  moreover have "head_hash hk rs = head_hash hk ss'"
  proof -
    have "py_eq (fld r pk) (fld s pk)" using calculation by (simp add: same_content_def)
    then show ?thesis using snoc.prems(1,2) linked unfolding ss by (metis json.inject(4) py_eq_JStr(1))
  qed
  then have "list_all2 same_content rs ss'"
    using snoc.prems ss ok_snoc by (intro snoc.IH) (auto simp: no_collision_def)
  ultimately show ?case by (simp add: ss list_all2_appendI)
qed

end

section \<open>Consumers\<close>

text \<open>
  A consumer of a growing log: the log, the consumer's cursor, and all rows it has been given.
\<close>

inductive reading :: "(json list \<Rightarrow> bool) \<Rightarrow> (json list \<Rightarrow> json \<Rightarrow> json option \<Rightarrow> (json \<times> json list) result) \<Rightarrow>
    json list \<Rightarrow> json \<Rightarrow> json list \<Rightarrow> bool"
  for ok consume where
  start: "ok log \<Longrightarrow> \<not> blank c \<Longrightarrow> reading ok consume log
     (JObj [(''schema_version'', JInt 1), (''consumer_id'', JStr c), (''next_sequence'', JInt 1),
        (''head_hash'', JStr genesis)]) []"
| grow: "reading ok consume log cursor given \<Longrightarrow> ok (log @ rows) \<Longrightarrow> reading ok consume (log @ rows) cursor given"
| read: "reading ok consume log cursor given \<Longrightarrow> consume log cursor limit = Inr (cursor', rows) \<Longrightarrow>
    reading ok consume log cursor' (given @ rows)"

definition cursor_at :: "string \<Rightarrow> json list \<Rightarrow> string \<Rightarrow> nat \<Rightarrow> json" where
  "cursor_at hk log c n = JObj [(''schema_version'', JInt 1), (''consumer_id'', JStr c),
     (''next_sequence'', JInt (int n + 1)), (''head_hash'', JStr (head_hash hk (take n log)))]"

context hash_log
begin

lemma prior_hash_at: "ok log \<Longrightarrow> n \<le> length log \<Longrightarrow> prior_hash hk log (int n + 1) = JStr (head_hash hk (take n log))"
  using row(1)[of log "n - 1"]
  by (cases n) (auto simp: prior_hash_def head_hash_def nat_diff_distrib last_conv_nth)

lemma consume_at:
  assumes "ok log" "n \<le> length log" "\<not> blank c" "limit = None \<or> (\<exists>l. limit = Some (JInt l) \<and> 1 \<le> l)"
  shows "\<exists>m. consume_rows mk pre hk log (cursor_at hk log c n) limit = Inr (cursor_at hk log c m, take (m - n) (drop n log)) \<and>
    n \<le> m \<and> m \<le> length log \<and> (limit = None \<longrightarrow> m = length log) \<and> (n < length log \<longrightarrow> n < m)"
proof -
  define rows where "rows = take_rows log (int n + 1) limit"
  define m where "m = n + length rows"
  have rows: "rows = take (m - n) (drop n log)" "n \<le> m" "m \<le> length log"
    "limit = None \<longrightarrow> m = length log" "n < length log \<longrightarrow> n < m"
    using assms(2,4) by (auto simp: m_def rows_def take_rows_def Let_def min_def)
  have "check_cursor mk pre hk log (cursor_at hk log c n) = Inr (int n + 1)"
    using assms prior_hash_at[OF assms(1,2)]
    by (simp add: check_cursor_def cursor_at_def cursor_keys_def keys_are_def keys_def fld_JObj_Cons
        require_version_def require_string_def require_positive_def guard_def)
  moreover have "next_cursor hk log (cursor_at hk log c n) (int n + 1) rows = cursor_at hk log c m"
  proof -
    have "(if rows = [] then prior_hash hk log (int n + 1) else fld (last rows) hk) = JStr (head_hash hk (take m log))"
    proof (cases "rows = []")
      case True
      then show ?thesis using prior_hash_at[OF assms(1,2)] by (simp add: m_def)
    next
      case False
      then have m: "n < m" "0 < length rows" by (simp_all add: m_def)
      then have "take m log \<noteq> []" "m - 1 < length log" using rows(3) by auto
      moreover from this have "last (take m log) = log ! (m - 1)"
        using m(1) rows(3) by (subst last_conv_nth) simp_all
      moreover have "last rows = log ! (m - 1)"
      proof -
        have "last rows = rows ! (m - n - 1)" using False by (simp add: last_conv_nth m_def)
        also have "\<dots> = drop n log ! (m - n - 1)" using m(1) by (subst rows(1)) simp
        also have "\<dots> = log ! (m - 1)" using m(1) rows(3) by simp
        finally show ?thesis .
      qed
      ultimately show ?thesis using False row(1)[OF assms(1), of "m - 1"] by (simp add: head_hash_def)
    qed
    then show ?thesis by (simp add: next_cursor_def cursor_at_def fld_JObj_Cons m_def)
  qed
  ultimately have "consume_rows mk pre hk log (cursor_at hk log c n) limit = Inr (cursor_at hk log c m, rows)"
    using assms(4) by (auto simp: consume_rows_def rows_def[symmetric] Let_def require_positive_def guard_def)
  then show ?thesis using rows by blast
qed

lemma reading_at:
  assumes "reading ok (consume_rows mk pre hk) log cursor given"
  shows "ok log \<and> (\<exists>c. \<not> blank c \<and> cursor = cursor_at hk log c (length given)) \<and> given = take (length given) log \<and>
    length given \<le> length log"
  using assms
proof (induction rule: reading.induct)
  case (start log c)
  then show ?case by (auto simp: cursor_at_def head_hash_def)
next
  case (grow log cursor given rows)
  then show ?case by (auto simp: cursor_at_def)
next
  case (read log cursor given limit cursor' rows)
  then obtain c where c: "\<not> blank c" "cursor = cursor_at hk log c (length given)" by blast
  have "limit = None \<or> (\<exists>l. limit = Some (JInt l) \<and> 1 \<le> l)"
    using read.hyps(2) by (auto simp: consume_rows_def result_simps split: option.splits)
  from consume_at[OF _ _ c(1) this, of log "length given" mk pre] read c
  obtain m where m: "cursor' = cursor_at hk log c m" "rows = take (m - length given) (drop (length given) log)"
    "length given \<le> m" "m \<le> length log" by auto
  then have "given @ rows = take m log" using read.IH by (metis le_add_diff_inverse take_add)
  then show ?case using m c read.IH by auto
qed

text \<open>Whatever the consumer has been given is the beginning of the log, and it can always go on.\<close>

lemma reading_exact:
  assumes "reading ok (consume_rows mk pre hk) log cursor given"
  shows "given = take (length given) log \<and>
    (\<exists>cursor'. consume_rows mk pre hk log cursor None = Inr (cursor', drop (length given) log))"
proof -
  note at = reading_at[OF assms]
  then obtain c where c: "\<not> blank c" "cursor = cursor_at hk log c (length given)" by blast
  from consume_at[of log "length given" c None mk pre] at c show ?thesis by auto
qed

end

end
