(* ===== verification/Updates.thy ===== *)
theory Updates
  imports HashLog
begin

text \<open>
  The update log, \<open>scripts/workgraph_updates.py\<close>: proposals to change a board, their review by
  the parent, and what became of them. Each row carries the whole proposal and one transition of
  its life; rows are chained by hash, globally and per update. \<open>verify_rows\<close> checks a log as a
  whole; \<open>append_update\<close> reads, verifies, extends and writes under an exclusive lock.
\<close>

section \<open>Vocabulary\<close>

definition update_kinds :: "string list" where
  "update_kinds = [''task_transition'', ''task_creation'', ''dependency_change'', ''metadata_change'', ''scope_change'']"

definition transitions :: "string list" where
  "transitions = [''proposed'', ''reviewed'', ''rejected'', ''superseded'', ''applied'', ''reconciled'']"

definition review_statuses :: "string list" where
  "review_statuses = [''pending'', ''approved'', ''rejected'', ''superseded'', ''applied'', ''reconciled'']"

definition actor_roles :: "string list" where
  "actor_roles = [''Worker'', ''Tester'', ''Auditor'', ''Parent'', ''user'', ''system'', ''GoalBuddyOwner'']"

text \<open>\<open>IDENTITY_KEYS\<close>: the role, and the facts in the order they are checked\<close>

definition identity_facts :: "string list" where
  "identity_facts = [''agent_id'', ''agent_name'', ''model'', ''provider'', ''route_id'', ''runtime'']"

definition update_authority_keys :: "string list" where
  "update_authority_keys = [''source'', ''receipt_id'', ''provenance'', ''allowed_patch_paths'', ''may_accept'',
     ''may_mutate_canonical_state'']"

definition update_row_keys :: "string list" where
  "update_row_keys = [''schema_version'', ''row_id'', ''update_id'', ''sequence'', ''timestamp'',
     ''target_task'', ''update_kind'', ''transition'', ''proposed_patch'',
     ''proposer_identity'', ''expected_board_sha256'', ''authority_reference'',
     ''review_status'', ''reviewer_identity'', ''parent_decision'',
     ''applied_state_sha256'', ''superseded_by_update_id'', ''reconciliation'',
     ''previous_update_hash'', ''previous_row_hash'', ''row_hash'']"

definition update_draft_keys :: "string list" where
  "update_draft_keys = filter (\<lambda>k. k \<notin> set [''sequence'', ''previous_update_hash'', ''previous_row_hash'', ''row_hash''])
     update_row_keys"

abbreviation update_error :: "string \<Rightarrow> 'a result" where
  "update_error c \<equiv> Inl (UpdateError c)"

section \<open>The shape of a row\<close>

definition update_fact :: "json \<Rightarrow> string \<Rightarrow> bool \<Rightarrow> unit result" where
  "update_fact v field observed = require_fact UpdateError ''update'' v field observed"

definition update_identity :: "json \<Rightarrow> bool \<Rightarrow> unit result" where
  "update_identity v reviewer =
     (if \<not> keys_are v (''role'' # identity_facts)
      then update_error (if reviewer then ''update_reviewer_identity_invalid'' else ''update_proposer_identity_invalid'')
      else bind (require_in UpdateError (fld v ''role'') actor_roles ''update_identity_role_invalid'') (\<lambda>_.
        eachR (\<lambda>field. update_fact (fld v field) field (field = ''runtime'')) identity_facts))"

text \<open>JSON pointers: \<open>~0\<close> is a tilde and \<open>~1\<close> a slash\<close>

fun unescape :: "string \<Rightarrow> string option" where
  "unescape [] = Some []"
| "unescape [c] = (if c = CHR ''~'' then None else Some [c])"
| "unescape (c # d # s) =
     (if c \<noteq> CHR ''~'' then map_option (Cons c) (unescape (d # s))
      else if d = CHR ''0'' then map_option (Cons CHR ''~'') (unescape s)
      else if d = CHR ''1'' then map_option (Cons CHR ''/'') (unescape s)
      else None)"

definition segment :: "string \<Rightarrow> string result" where
  "segment raw = (case unescape raw of
     None \<Rightarrow> update_error ''update_patch_path_invalid''
   | Some d \<Rightarrow> if d = [] then update_error ''update_patch_path_invalid'' else Inr d)"

definition pointer_segments :: "json \<Rightarrow> string list result" where
  "pointer_segments v =
     (if \<not> is_str v \<or> \<not> starts_with (the_str v) ''/'' \<or> the_str v = ''/''
      then update_error ''update_patch_path_invalid''
      else mapR segment (split_on CHR ''/'' (tl (the_str v))))"

definition is_under :: "string list \<Rightarrow> string list \<Rightarrow> bool" where
  "is_under path prefix = (length prefix \<le> length path \<and> take (length prefix) path = prefix)"

definition update_authority :: "json \<Rightarrow> unit result" where
  "update_authority v =
     (if \<not> keys_are v update_authority_keys then update_error ''update_authority_invalid''
      else bind (require_string UpdateError (fld v ''source'') ''update_authority_source_invalid'') (\<lambda>source.
      bind (require_string UpdateError (fld v ''receipt_id'') ''update_authority_receipt_invalid'') (\<lambda>_.
      bind (require_in UpdateError (fld v ''provenance'') [''parent_issued'', ''operator_issued'']
        ''update_authority_provenance_invalid'') (\<lambda>_.
      let prefix = (if fld v ''provenance'' = JStr ''parent_issued'' then ''parent:'' else ''operator:'');
          paths = fld v ''allowed_patch_paths'' in
      if \<not> starts_with source prefix \<or> source = prefix then update_error ''update_authority_source_mismatch''
      else if \<not> is_list paths \<or> the_list paths = [] then update_error ''update_authority_paths_invalid''
      else bind (mapR pointer_segments (the_list paths)) (\<lambda>normalized.
        if \<not> distinct normalized then update_error ''update_authority_paths_duplicate''
        else if fld v ''may_accept'' \<noteq> JBool False then update_error ''update_authority_accept_forbidden''
        else guard (fld v ''may_mutate_canonical_state'' = JBool False)
          (UpdateError ''update_authority_mutation_forbidden''))))))"

definition patch_operation :: "string list list \<Rightarrow> string list \<Rightarrow> string list list \<Rightarrow> json \<Rightarrow> string list list result" where
  "patch_operation allowed task_prefix seen operation =
     (if \<not> is_obj operation then update_error ''update_patch_operation_invalid''
      else let op = fld operation ''op'' in
        if \<not> hashable op then Inl TypeError
        else if \<not> keys_are operation (if in_strs op [''add'', ''replace''] then [''op'', ''path'', ''value''] else [''op'', ''path'']) \<or>
          \<not> in_strs op [''add'', ''replace'', ''remove''] then update_error ''update_patch_operation_invalid''
        else bind (pointer_segments (fld operation ''path'')) (\<lambda>path.
          if path \<in> set seen then update_error ''update_patch_path_duplicate''
          else if \<not> is_under path task_prefix then update_error ''update_patch_target_mismatch''
          else if \<not> list_ex (is_under path) allowed then update_error ''update_patch_scope_broadened''
          else Inr (path # seen)))"

definition update_patch :: "json \<Rightarrow> string \<Rightarrow> json \<Rightarrow> unit result" where
  "update_patch v target authority =
     (if \<not> is_list v \<or> the_list v = [] then update_error ''update_patch_invalid''
      else bind (mapR pointer_segments (the_list (fld authority ''allowed_patch_paths''))) (\<lambda>allowed.
        bind (foldR (patch_operation allowed [''tasks'', target]) [] (the_list v)) (\<lambda>_. Inr ())))"

definition task_creation :: "json \<Rightarrow> unit result" where
  "task_creation row =
     (if fld row ''update_kind'' \<noteq> JStr ''task_creation'' then Inr ()
      else let patch = the_list (fld row ''proposed_patch'');
          expected_path = ''/tasks/'' @ the_str (fld row ''target_task'');
          first = hd patch; v = fld first ''value'' in
        if length patch \<noteq> 1 \<or> fld first ''op'' \<noteq> JStr ''add'' \<or> fld first ''path'' \<noteq> JStr expected_path
        then update_error ''update_task_creation_patch_invalid''
        else if \<not> is_obj v \<or> \<not> py_eq (fld v ''id'') (fld row ''target_task'')
        then update_error ''update_task_creation_value_invalid''
        else if fld v ''status'' \<noteq> JStr ''queued'' then update_error ''update_task_creation_status_invalid''
        else guard (py_eq (fld (fld row ''authority_reference'') ''allowed_patch_paths'') (JList [JStr expected_path]))
          (UpdateError ''update_task_creation_authority_invalid''))"

definition update_reconciliation :: "json \<Rightarrow> unit result" where
  "update_reconciliation v =
     (if \<not> keys_are v [''observed_state_sha256'', ''outcome''] then update_error ''update_reconciliation_invalid''
      else if \<not> is_hash True (fld v ''observed_state_sha256'') then update_error ''update_reconciliation_hash_invalid''
      else require_in UpdateError (fld v ''outcome'') [''matched'', ''diverged'', ''recovered'']
        ''update_reconciliation_outcome_invalid'')"

definition optional :: "json \<Rightarrow> (json \<Rightarrow> unit result) \<Rightarrow> unit result" where
  "optional v check = (if v = JNull then Inr () else check v)"

text \<open>the second half of \<open>_validate_shape\<close>: the fields of the review and the hashes\<close>

definition update_review_shape :: "json \<Rightarrow> unit result" where
  "update_review_shape raw =
     bind (require_in UpdateError (fld raw ''review_status'') review_statuses ''update_review_status_invalid'') (\<lambda>_.
     bind (optional (fld raw ''reviewer_identity'') (\<lambda>v. update_identity v True)) (\<lambda>_.
     bind (optional (fld raw ''parent_decision'') (\<lambda>v.
       require_in UpdateError v [''approve'', ''reject'', ''supersede''] ''update_parent_decision_invalid'')) (\<lambda>_.
     bind (optional (fld raw ''applied_state_sha256'') (\<lambda>v.
       guard (is_hash True v) (UpdateError ''update_applied_state_hash_invalid''))) (\<lambda>_.
     bind (optional (fld raw ''superseded_by_update_id'') (\<lambda>v.
       bind (require_string UpdateError v ''update_superseded_by_invalid'') (\<lambda>_. Inr ()))) (\<lambda>_.
     bind (optional (fld raw ''reconciliation'') update_reconciliation) (\<lambda>_.
     eachR (\<lambda>field. guard (is_hash False (fld raw field)) (UpdateError (''update_'' @ field @ ''_invalid'')))
       [''previous_update_hash'', ''previous_row_hash'', ''row_hash'']))))))"

definition update_shape :: "json \<Rightarrow> json result" where
  "update_shape raw =
     (if \<not> keys_are raw update_row_keys then update_error ''update_row_shape_invalid''
      else bind (require_version UpdateError ''update_schema'' (fld raw ''schema_version'')) (\<lambda>_.
      bind (eachR (\<lambda>field. require_string UpdateError (fld raw field) (''update_'' @ field @ ''_invalid''))
        [''row_id'', ''update_id'', ''target_task'']) (\<lambda>_.
      bind (require_positive UpdateError (fld raw ''sequence'') ''update_sequence_invalid'') (\<lambda>_.
      bind (require_time UpdateError (fld raw ''timestamp'') ''update_timestamp_invalid'') (\<lambda>_.
      bind (require_in UpdateError (fld raw ''update_kind'') update_kinds ''update_kind_invalid'') (\<lambda>_.
      bind (require_in UpdateError (fld raw ''transition'') transitions ''update_transition_invalid'') (\<lambda>_.
      bind (update_identity (fld raw ''proposer_identity'') False) (\<lambda>_.
      if \<not> is_hash True (fld raw ''expected_board_sha256'') then update_error ''update_expected_board_hash_invalid''
      else bind (update_authority (fld raw ''authority_reference'')) (\<lambda>_.
      bind (update_patch (fld raw ''proposed_patch'') (the_str (fld raw ''target_task'')) (fld raw ''authority_reference'')) (\<lambda>_.
      bind (task_creation raw) (\<lambda>_.
      bind (update_review_shape raw) (\<lambda>_. Inr raw))))))))))))"

section \<open>Transitions\<close>

definition agent_of :: "json \<Rightarrow> json" where
  "agent_of identity = fld (fld identity ''agent_id'') ''value''"

definition parent_reviewer :: "json \<Rightarrow> unit result" where
  "parent_reviewer row = (let reviewer = fld row ''reviewer_identity'';
       proposer_id = agent_of (fld row ''proposer_identity''); reviewer_id = agent_of reviewer in
     if \<not> is_obj reviewer \<or> fld reviewer ''role'' \<noteq> JStr ''Parent'' then update_error ''update_parent_reviewer_required''
     else if fld (fld row ''authority_reference'') ''provenance'' \<noteq> JStr ''parent_issued''
     then update_error ''update_parent_authority_required''
     else if proposer_id = JStr ''unknown'' \<or> reviewer_id = JStr ''unknown''
     then update_error ''update_reviewer_independence_unproved''
     else guard (\<not> py_eq proposer_id reviewer_id) (UpdateError ''update_self_review_forbidden''))"

definition payload_fields :: "string list" where
  "payload_fields = [''target_task'', ''update_kind'', ''proposed_patch'', ''proposer_identity'',
     ''expected_board_sha256'', ''authority_reference'']"

definition same_fields :: "string list \<Rightarrow> json \<Rightarrow> json \<Rightarrow> bool" where
  "same_fields fields r s = list_all (\<lambda>k. py_eq (fld r k) (fld s k)) fields"

definition same_reviewer :: "json \<Rightarrow> json \<Rightarrow> unit result" where
  "same_reviewer row prior = guard (py_eq (fld row ''reviewer_identity'') (fld prior ''reviewer_identity''))
     (UpdateError ''update_reviewer_lineage_mismatch'')"

definition text_field :: "json \<Rightarrow> string \<Rightarrow> string" where
  "text_field row k = the_str (fld row k)"

text \<open>The branches of a transition other than \<open>proposed\<close>: the outcome fields it must have\<close>

definition reviewed_fields :: "json \<Rightarrow> json \<Rightarrow> json list result" where
  "reviewed_fields row prior =
     (if text_field prior ''transition'' \<noteq> ''proposed'' then update_error ''update_transition_invalid_lineage''
      else bind (parent_reviewer row) (\<lambda>_.
        if fld row ''parent_decision'' = JStr ''approve'' then Inr [JStr ''approved'', JStr ''approve'', JNull, JNull, JNull]
        else if fld row ''parent_decision'' = JStr ''reject'' then Inr [JStr ''rejected'', JStr ''reject'', JNull, JNull, JNull]
        else update_error ''update_parent_decision_required''))"

definition rejected_fields :: "json \<Rightarrow> json \<Rightarrow> json list result" where
  "rejected_fields row prior =
     (if text_field prior ''transition'' \<noteq> ''reviewed'' \<or> fld prior ''parent_decision'' \<noteq> JStr ''reject''
      then update_error ''update_transition_invalid_lineage''
      else bind (parent_reviewer row) (\<lambda>_. bind (same_reviewer row prior) (\<lambda>_.
        Inr [JStr ''rejected'', JStr ''reject'', JNull, JNull, JNull])))"

definition applied_fields :: "json \<Rightarrow> json \<Rightarrow> json list result" where
  "applied_fields row prior =
     (if text_field prior ''transition'' \<noteq> ''reviewed'' \<or> fld prior ''parent_decision'' \<noteq> JStr ''approve''
      then update_error ''update_applied_without_parent_approval''
      else bind (parent_reviewer row) (\<lambda>_. bind (same_reviewer row prior) (\<lambda>_.
        if fld row ''applied_state_sha256'' = JNull then update_error ''update_applied_state_hash_required''
        else Inr [JStr ''applied'', JStr ''approve'', fld row ''applied_state_sha256'', JNull, JNull])))"

definition superseded_fields :: "json \<Rightarrow> json \<Rightarrow> json list result" where
  "superseded_fields row prior =
     (if text_field prior ''transition'' \<notin> set [''proposed'', ''reviewed''] then update_error ''update_transition_invalid_lineage''
      else bind (parent_reviewer row) (\<lambda>_.
        if fld row ''superseded_by_update_id'' = JNull then update_error ''update_superseded_by_required''
        else Inr [JStr ''superseded'', JStr ''supersede'', JNull, fld row ''superseded_by_update_id'', JNull]))"

definition reconciled_fields :: "json \<Rightarrow> json \<Rightarrow> json list result" where
  "reconciled_fields row prior =
     (if text_field prior ''transition'' \<noteq> ''applied'' then update_error ''update_transition_invalid_lineage''
      else bind (parent_reviewer row) (\<lambda>_. bind (same_reviewer row prior) (\<lambda>_.
        let applied = fld row ''applied_state_sha256''; reconciliation = fld row ''reconciliation'' in
        if applied = JNull \<or> reconciliation = JNull then update_error ''update_reconciliation_required''
        else if \<not> py_eq applied (fld prior ''applied_state_sha256'') then update_error ''update_reconciled_applied_hash_mismatch''
        else if in_strs (fld reconciliation ''outcome'') [''matched'', ''recovered''] \<noteq>
            py_eq (fld reconciliation ''observed_state_sha256'') (fld prior ''applied_state_sha256'')
        then update_error ''update_reconciliation_outcome_mismatch''
        else Inr [JStr ''reconciled'', JStr ''approve'', applied, JNull, reconciliation])))"

definition expected_fields :: "json \<Rightarrow> json option \<Rightarrow> json list result" where
  "expected_fields row prior = (let t = text_field row ''transition'' in
     case prior of
       None \<Rightarrow> if t = ''proposed'' then Inr [JStr ''pending'', JNull, JNull, JNull, JNull]
         else update_error ''update_lineage_missing_proposal''
     | Some prior \<Rightarrow>
         if t = ''proposed'' then update_error ''update_proposal_duplicate''
         else bind (parent_reviewer row) (\<lambda>_.
           if \<not> same_fields payload_fields row prior then update_error ''update_lineage_payload_mismatch''
           else if t = ''reviewed'' then reviewed_fields row prior
           else if t = ''rejected'' then rejected_fields row prior
           else if t = ''applied'' then applied_fields row prior
           else if t = ''superseded'' then superseded_fields row prior
           else reconciled_fields row prior))"

definition outcome_fields :: "string list" where
  "outcome_fields = [''review_status'', ''parent_decision'', ''applied_state_sha256'', ''superseded_by_update_id'', ''reconciliation'']"

definition update_transition :: "json \<Rightarrow> json option \<Rightarrow> unit result" where
  "update_transition row prior =
     bind (expected_fields row prior) (\<lambda>expected.
     if \<not> list_all2 py_eq (map (fld row) outcome_fields) expected then update_error ''update_transition_fields_invalid''
     else if text_field row ''transition'' = ''proposed'' \<and> fld row ''reviewer_identity'' \<noteq> JNull
     then update_error ''update_proposal_reviewer_forbidden''
     else guard (text_field row ''transition'' = ''proposed'' \<or> fld row ''reviewer_identity'' \<noteq> JNull)
       (UpdateError ''update_parent_reviewer_required''))"

section \<open>Verification\<close>

record update_log =
  row_count :: nat
  last_hash :: string
  row_ids :: "string list"
  lineage :: "(string \<times> json) list"
  proposals :: "string list"

definition empty_log :: update_log where
  "empty_log = \<lparr>row_count = 0, last_hash = genesis, row_ids = [], lineage = [], proposals = []\<rparr>"

text \<open>
  The inner loop: follow the replacements of superseded updates from \<open>target\<close>; the answer is
  whether the walk meets an update it has visited.
\<close>

function chase :: "(string \<times> json) list \<Rightarrow> string list \<Rightarrow> string \<Rightarrow> bool" where
  "chase latest visited target =
     (if target \<in> set visited then True
      else case map_of latest target of
        None \<Rightarrow> False
      | Some prior \<Rightarrow>
          if text_field prior ''transition'' \<noteq> ''superseded'' then False
          else chase latest (target # visited) (text_field prior ''superseded_by_update_id''))"
  by pat_completeness auto
termination
proof (relation "measure (\<lambda>(latest, visited, _). card (fst ` set latest - set visited))", goal_cases)
  case (2 latest visited target prior)
  then have "target \<in> fst ` set latest - set visited" by (auto dest: map_of_SomeD intro: rev_image_eqI)
  then have "card (fst ` set latest - set (target # visited)) < card (fst ` set latest - set visited)"
    by (intro psubset_card_mono) auto
  then show ?case by simp
qed simp

declare chase.simps [simp del]

definition check_supersession :: "update_log \<Rightarrow> json \<Rightarrow> unit result" where
  "check_supersession log row =
     (if text_field row ''transition'' \<noteq> ''superseded'' then Inr ()
      else let u = text_field row ''update_id''; replacement = text_field row ''superseded_by_update_id'' in
        if replacement = u then update_error ''update_supersession_cycle''
        else if replacement \<notin> set (proposals log) then update_error ''update_superseding_proposal_missing''
        else guard (\<not> chase (lineage log) [u] replacement) (UpdateError ''update_supersession_cycle''))"

definition add_row :: "json \<Rightarrow> update_log \<Rightarrow> update_log" where
  "add_row row log = \<lparr>row_count = Suc (row_count log), last_hash = text_field row ''row_hash'',
     row_ids = text_field row ''row_id'' # row_ids log,
     lineage = AList.update (text_field row ''update_id'') row (lineage log),
     proposals = (if text_field row ''transition'' = ''proposed'' then text_field row ''update_id'' # proposals log else proposals log)\<rparr>"

definition verify_update :: "(string \<Rightarrow> string) \<Rightarrow> update_log \<Rightarrow> json \<Rightarrow> update_log result" where
  "verify_update sha log raw =
     bind (update_shape raw) (\<lambda>row.
     let prior = map_of (lineage log) (text_field row ''update_id'') in
     if the_int (fld row ''sequence'') \<noteq> int (row_count log) + 1 then update_error ''update_sequence_non_monotonic''
     else if text_field row ''row_id'' \<in> set (row_ids log) then update_error ''update_row_id_duplicate''
     else if text_field row ''previous_row_hash'' \<noteq> last_hash log then update_error ''update_hash_chain_broken''
     else if text_field row ''previous_update_hash'' \<noteq> (case prior of None \<Rightarrow> genesis | Some p \<Rightarrow> text_field p ''row_hash'')
     then update_error ''update_lineage_hash_broken''
     else if seal sha ''row_hash'' row \<noteq> text_field row ''row_hash'' then update_error ''update_row_hash_mismatch''
     else bind (update_transition row prior) (\<lambda>_.
       let log' = (if text_field row ''transition'' = ''proposed''
         then log\<lparr>proposals := text_field row ''update_id'' # proposals log\<rparr> else log) in
       bind (check_supersession log' row) (\<lambda>_. Inr (add_row row log))))"

definition verify_updates :: "(string \<Rightarrow> string) \<Rightarrow> json list \<Rightarrow> json result" where
  "verify_updates sha rows = bind (foldR (verify_update sha) empty_log rows) (\<lambda>log.
     Inr (JObj [(''head_hash'', JStr (last_hash log)), (''row_count'', JInt (int (length rows))),
       (''schema_version'', JInt 1), (''status'', JStr ''valid''), (''update_count'', JInt (int (length (lineage log))))]))"

section \<open>The log file\<close>

definition read_updates :: "(string \<Rightarrow> string) \<Rightarrow> (string \<Rightarrow> json) \<Rightarrow> string option \<Rightarrow> json list result" where
  "read_updates sha flt file = (case file of
     None \<Rightarrow> update_error ''update_log_missing''
   | Some raw \<Rightarrow> bind (parse_bytes flt UpdateError ''update'' raw False) (\<lambda>rows.
       bind (verify_updates sha rows) (\<lambda>_. Inr rows)))"

definition latest_of :: "json list \<Rightarrow> json \<Rightarrow> json option" where
  "latest_of rows u = find (\<lambda>row. py_eq (fld row ''update_id'') u) (rev rows)"

definition build_row :: "(string \<Rightarrow> string) \<Rightarrow> json \<Rightarrow> json list \<Rightarrow> json result" where
  "build_row sha draft rows =
     (if \<not> keys_are draft update_draft_keys then update_error ''update_draft_shape_invalid''
      else let row = upd ''row_hash'' (JStr genesis)
          (upd ''previous_row_hash'' (JStr (head_hash ''row_hash'' rows))
          (upd ''previous_update_hash'' (case latest_of rows (fld draft ''update_id'') of
             None \<Rightarrow> JStr genesis | Some prior \<Rightarrow> fld prior ''row_hash'')
          (upd ''sequence'' (JInt (int (length rows) + 1)) draft)));
          row' = upd ''row_hash'' (JStr (seal sha ''row_hash'' row)) row in
        bind (verify_updates sha (rows @ [row'])) (\<lambda>_. Inr row'))"

text \<open>
  The new content of the file and the outcome: the board hash is compared before the file is
  opened.
\<close>

definition append_update :: "(string \<Rightarrow> string) \<Rightarrow> (string \<Rightarrow> json) \<Rightarrow> string option \<Rightarrow> json \<Rightarrow> json \<Rightarrow> string option \<times> json result" where
  "append_update sha flt file draft board =
     (if \<not> is_hash True board then (file, update_error ''update_current_board_hash_invalid'')
      else if \<not> is_obj draft \<or> fld draft ''expected_board_sha256'' \<noteq> board
      then (file, update_error ''update_expected_board_hash_mismatch'')
      else append_log flt UpdateError ''update'' (verify_updates sha) (build_row sha draft) file)"

definition replay_updates :: "(string \<Rightarrow> string) \<Rightarrow> (string \<Rightarrow> json) \<Rightarrow> string option \<Rightarrow> string option \<Rightarrow> string option \<Rightarrow> json list result" where
  "replay_updates sha flt file task u = bind (read_updates sha flt file) (\<lambda>rows.
     Inr (filter (\<lambda>row. (task = None \<or> fld row ''target_task'' = JStr (the task)) \<and>
       (u = None \<or> fld row ''update_id'' = JStr (the u))) rows))"

definition consume_updates :: "(string \<Rightarrow> string) \<Rightarrow> (string \<Rightarrow> json) \<Rightarrow> string option \<Rightarrow> json \<Rightarrow> json option \<Rightarrow> json result" where
  "consume_updates sha flt file cursor limit = bind (read_updates sha flt file) (\<lambda>rows.
     bind (consume_rows UpdateError ''update'' ''row_hash'' rows cursor limit) (\<lambda>(cursor', selected).
     Inr (JObj [(''cursor'', cursor'),
       (''remaining'', JInt (int (length rows) - (the_int (fld cursor' ''next_sequence'') - 1))),
       (''rows'', JList selected), (''status'', JStr ''ok'')])))"

end
