(* ===== verification/Updates_Verify.thy ===== *)
theory Updates_Verify
  imports Updates
begin

text \<open>
  What verification of an update log establishes: the state the loop carries is determined by
  the rows read so far, every row meets its checks against the rows before it, and the log is
  sealed and linked by its hashes.
\<close>

section \<open>The state of the loop\<close>

definition log_of :: "json list \<Rightarrow> update_log" where
  "log_of rows = foldl (\<lambda>log row. add_row row log) empty_log rows"

text \<open>the latest row of an update\<close>

definition latest :: "json list \<Rightarrow> string \<Rightarrow> json option" where
  "latest rows u = find (\<lambda>row. text_field row ''update_id'' = u) (rev rows)"

definition row_ok :: "(string \<Rightarrow> string) \<Rightarrow> json list \<Rightarrow> json \<Rightarrow> bool" where
  "row_ok sha rows row \<longleftrightarrow> update_shape row = Inr row \<and>
     fld row ''sequence'' = JInt (int (length rows) + 1) \<and>
     text_field row ''row_id'' \<notin> (\<lambda>r. text_field r ''row_id'') ` set rows \<and>
     text_field row ''previous_row_hash'' = head_hash ''row_hash'' rows \<and>
     text_field row ''previous_update_hash'' =
       (case latest rows (text_field row ''update_id'') of None \<Rightarrow> genesis | Some p \<Rightarrow> text_field p ''row_hash'') \<and>
     seal sha ''row_hash'' row = text_field row ''row_hash'' \<and>
     update_transition row (latest rows (text_field row ''update_id'')) = Inr () \<and>
     check_supersession (log_of rows) row = Inr ()"

definition updates_ok :: "(string \<Rightarrow> string) \<Rightarrow> json list \<Rightarrow> bool" where
  "updates_ok sha rows \<longleftrightarrow> (\<forall>i < length rows. row_ok sha (take i rows) (rows ! i))"

lemma log_of_snoc: "log_of (rows @ [r]) = add_row r (log_of rows)"
  by (simp add: log_of_def)

lemma latest_snoc: "latest (rows @ [r]) u = (if text_field r ''update_id'' = u then Some r else latest rows u)"
  by (simp add: latest_def)

lemma log_of_fields:
  "row_count (log_of rows) = length rows" "last_hash (log_of rows) = head_hash ''row_hash'' rows"
  "set (row_ids (log_of rows)) = (\<lambda>r. text_field r ''row_id'') ` set rows"
  "map_of (lineage (log_of rows)) u = latest rows u"
  "set (proposals (log_of rows)) = (\<lambda>r. text_field r ''update_id'') ` {r \<in> set rows. text_field r ''transition'' = ''proposed''}"
proof (induction rows rule: rev_induct)
  case Nil
  { case 1 show ?case by (simp add: log_of_def empty_log_def) }
  { case 2 show ?case by (simp add: log_of_def empty_log_def head_hash_def) }
  { case 3 show ?case by (simp add: log_of_def empty_log_def) }
  { case 4 show ?case by (simp add: log_of_def empty_log_def latest_def) }
  { case 5 show ?case by (simp add: log_of_def empty_log_def) }
next
  case (snoc r rows)
  { case 1 show ?case using snoc by (simp add: log_of_snoc add_row_def) }
  { case 2 show ?case by (simp add: log_of_snoc add_row_def head_hash_def text_field_def) }
  { case 3 show ?case using snoc by (auto simp: log_of_snoc add_row_def) }
  { case 4 show ?case using snoc by (simp add: log_of_snoc add_row_def latest_snoc update_conv) }
  { case 5 show ?case using snoc by (auto simp: log_of_snoc add_row_def) }
qed

lemma updates_ok_snoc: "updates_ok sha (rows @ [r]) \<longleftrightarrow> updates_ok sha rows \<and> row_ok sha rows r"
  by (auto simp: updates_ok_def nth_append less_Suc_eq)

lemma update_shape_same: "update_shape v = Inr r \<Longrightarrow> r = v"
  by (auto simp: update_shape_def result_simps)

lemma update_shape_sequence: "update_shape v = Inr r \<Longrightarrow> \<exists>i. fld v ''sequence'' = JInt i"
  by (auto simp: update_shape_def result_simps)

lemma check_supersession_proposals:
  "text_field row ''transition'' = ''proposed'' \<Longrightarrow> check_supersession log row = Inr ()"
  by (simp add: check_supersession_def)

lemma verify_update_iff:
  "verify_update sha (log_of rows) raw = Inr log \<longleftrightarrow> row_ok sha rows raw \<and> log = log_of (rows @ [raw])"
proof (cases "update_shape raw")
  case (Inl e)
  then show ?thesis by (simp add: verify_update_def row_ok_def)
next
  case (Inr r)
  then have r: "r = raw" by (rule update_shape_same)
  obtain i where i: "fld raw ''sequence'' = JInt i" using update_shape_sequence[OF Inr] by blast
  show ?thesis
    using Inr i unfolding r verify_update_def row_ok_def
    by (auto simp: result_simps log_of_fields log_of_snoc Let_def check_supersession_proposals)
qed

lemma verify_rows_iff: "foldR (verify_update sha) empty_log rows = Inr log \<longleftrightarrow> updates_ok sha rows \<and> log = log_of rows"
proof (induction rows arbitrary: log rule: rev_induct)
  case Nil
  then show ?case by (auto simp: updates_ok_def log_of_def)
next
  case (snoc r rows)
  then show ?case by (auto simp: foldR_snoc_Inr updates_ok_snoc verify_update_iff)
qed

lemma verify_updates_iff: "(\<exists>receipt. verify_updates sha rows = Inr receipt) \<longleftrightarrow> updates_ok sha rows"
  by (auto simp: verify_updates_def bind_eq_Inr verify_rows_iff)

section \<open>Facts of a row\<close>

lemma update_shape_facts:
  assumes "update_shape row = Inr r"
  shows "keys_are row update_row_keys"
    "\<exists>u. fld row ''update_id'' = JStr u \<and> \<not> blank u" "\<exists>u. fld row ''target_task'' = JStr u"
    "\<exists>t. fld row ''transition'' = JStr t \<and> t \<in> set transitions"
    "update_identity (fld row ''proposer_identity'') False = Inr ()"
    "update_authority (fld row ''authority_reference'') = Inr ()"
    "update_patch (fld row ''proposed_patch'') (the_str (fld row ''target_task'')) (fld row ''authority_reference'') = Inr ()"
    "update_review_shape row = Inr ()"
  using assms by (auto simp: update_shape_def result_simps)

lemma update_shape_hashes:
  assumes "update_shape row = Inr r"
  shows "\<exists>h. fld row ''row_hash'' = JStr h" "\<exists>h. fld row ''previous_row_hash'' = JStr h"
proof -
  have "is_hash False (fld row ''row_hash'')" "is_hash False (fld row ''previous_row_hash'')"
    using update_shape_facts(8)[OF assms] by (auto simp: update_review_shape_def result_simps)
  then show "\<exists>h. fld row ''row_hash'' = JStr h" "\<exists>h. fld row ''previous_row_hash'' = JStr h"
    by (auto simp: is_hash_def split: json.splits)
qed

lemma text_fieldE: "fld row k = JStr s \<Longrightarrow> text_field row k = s"
  by (simp add: text_field_def)

interpretation updates: hash_log sha "''row_hash''" "''previous_row_hash''" "updates_ok sha" for sha
proof
  fix rows r
  assume "updates_ok sha (rows @ [r])"
  then have r: "updates_ok sha rows" "row_ok sha rows r" by (simp_all add: updates_ok_snoc)
  then show "updates_ok sha rows" by simp
  from r(2) have shape: "update_shape r = Inr r" by (simp add: row_ok_def)
  then show "fld r ''previous_row_hash'' = JStr (head_hash ''row_hash'' rows)"
    "fld r ''row_hash'' = JStr (seal sha ''row_hash'' r)"
    using r(2) update_shape_hashes[OF shape] by (auto simp: row_ok_def text_field_def)
qed

text \<open>every row of a log stands against the rows before it\<close>

lemma updates_ok_split: "updates_ok sha (before @ row # later) \<Longrightarrow> row_ok sha before row"
  using updates.prefix[of sha "before @ [row]" later] by (simp add: updates_ok_snoc)

lemma latest_Some:
  assumes "latest rows u = Some p"
  obtains before later where "rows = before @ p # later" "text_field p ''update_id'' = u"
    "\<forall>r \<in> set later. text_field r ''update_id'' \<noteq> u"
proof -
  have "\<exists>before later. rows = before @ p # later \<and> text_field p ''update_id'' = u \<and>
      (\<forall>r \<in> set later. text_field r ''update_id'' \<noteq> u)"
    using assms
  proof (induction rows rule: rev_induct)
    case (snoc r rows)
    show ?case
    proof (cases "text_field r ''update_id'' = u")
      case True
      then show ?thesis using snoc.prems
        by (intro exI[of _ rows] exI[of _ "[]"]) (simp add: latest_snoc)
    next
      case False
      with snoc obtain before later where "rows = before @ p # later" "text_field p ''update_id'' = u"
        "\<forall>r \<in> set later. text_field r ''update_id'' \<noteq> u" by (auto simp: latest_snoc)
      then show ?thesis using False by (intro exI[of _ before] exI[of _ "later @ [r]"]) auto
    qed
  qed (simp add: latest_def)
  then show thesis using that by blast
qed

lemma latest_None: "latest rows u = None \<longleftrightarrow> (\<forall>r \<in> set rows. text_field r ''update_id'' \<noteq> u)"
  by (auto simp: latest_def find_None_iff)

end
