(* ===== verification/Updates_Properties.thy ===== *)
theory Updates_Properties
  imports Updates_Verify
begin

text \<open>
  Properties of verified update logs: the life of an update follows its state machine, nothing is
  applied without an independent approval by the parent, patches stay within the authority's
  paths and the target task, and replacement of superseded updates is acyclic.
\<close>

section \<open>The life of an update\<close>

text \<open>The contract: the stages of an update and the steps between them\<close>

datatype stage = Proposed | Approved | Declined | Rejected | Applied | Superseded | Reconciled

inductive stage_step :: "stage \<Rightarrow> stage \<Rightarrow> bool" where
  approve: "stage_step Proposed Approved"
| decline: "stage_step Proposed Declined"
| reject: "stage_step Declined Rejected"
| apply_it: "stage_step Approved Applied"
| supersede: "s \<in> {Proposed, Approved, Declined} \<Longrightarrow> stage_step s Superseded"
| reconcile: "stage_step Applied Reconciled"

inductive_cases to_AppliedE: "stage_step s Applied"
inductive_cases to_ReconciledE: "stage_step s Reconciled"
inductive_simps stage_step_simps: "stage_step s t"

definition stage_of :: "json \<Rightarrow> stage" where
  "stage_of row = (let t = text_field row ''transition'' in
     if t = ''proposed'' then Proposed
     else if t = ''reviewed'' then (if fld row ''parent_decision'' = JStr ''approve'' then Approved else Declined)
     else if t = ''rejected'' then Rejected
     else if t = ''applied'' then Applied
     else if t = ''superseded'' then Superseded
     else Reconciled)"

definition rows_of :: "string \<Rightarrow> json list \<Rightarrow> json list" where
  "rows_of u rows = filter (\<lambda>r. text_field r ''update_id'' = u) rows"

lemma rows_of_snoc: "rows_of u (rows @ [r]) = rows_of u rows @ (if text_field r ''update_id'' = u then [r] else [])"
  by (simp add: rows_of_def)

lemma latest_rows_of: "latest rows u = (if rows_of u rows = [] then None else Some (last (rows_of u rows)))"
  by (induction rows rule: rev_induct) (auto simp: latest_snoc rows_of_snoc, auto simp: latest_def rows_of_def)

text \<open>A transition that passes, by its branch\<close>

lemma expected_fields_cases:
  assumes "expected_fields row prior = Inr e" "text_field row ''transition'' \<in> set transitions"
  shows "prior = None \<and> text_field row ''transition'' = ''proposed'' \<or>
    (\<exists>p. prior = Some p \<and> text_field row ''transition'' \<noteq> ''proposed'' \<and> parent_reviewer row = Inr () \<and>
      same_fields payload_fields row p \<and> stage_step (stage_of p) (stage_of row))"
proof (cases prior)
  case None
  then show ?thesis using assms by (simp add: expected_fields_def Let_def result_simps)
next
  case (Some p)
  with assms have "text_field row ''transition'' \<noteq> ''proposed''" "parent_reviewer row = Inr ()"
    "same_fields payload_fields row p" by (auto simp: expected_fields_def Let_def result_simps)
  moreover have "stage_step (stage_of p) (stage_of row)"
    using assms Some
    by (auto simp: expected_fields_def Let_def result_simps transitions_def reviewed_fields_def rejected_fields_def
        applied_fields_def superseded_fields_def reconciled_fields_def stage_of_def stage_step_simps split: if_splits)
  ultimately show ?thesis using Some by blast
qed

lemma row_ok_cases:
  assumes "row_ok sha rows row"
  obtains "latest rows (text_field row ''update_id'') = None" "stage_of row = Proposed"
  | p where "latest rows (text_field row ''update_id'') = Some p" "parent_reviewer row = Inr ()"
      "same_fields payload_fields row p" "stage_step (stage_of p) (stage_of row)"
proof -
  from assms have shape: "update_shape row = Inr row"
    and t: "update_transition row (latest rows (text_field row ''update_id'')) = Inr ()" by (simp_all add: row_ok_def)
  from update_shape_facts(4)[OF shape] have known: "text_field row ''transition'' \<in> set transitions"
    by (auto simp: text_field_def)
  from t obtain e where e: "expected_fields row (latest rows (text_field row ''update_id'')) = Inr e"
    by (auto simp: update_transition_def result_simps)
  from expected_fields_cases[OF e known] show thesis
  proof (elim disjE exE conjE)
    assume "latest rows (text_field row ''update_id'') = None" "text_field row ''transition'' = ''proposed''"
    then show thesis using that(1) by (simp add: stage_of_def)
  next
    fix p
    assume "latest rows (text_field row ''update_id'') = Some p" "parent_reviewer row = Inr ()"
      "same_fields payload_fields row p" "stage_step (stage_of p) (stage_of row)"
    then show thesis by (rule that(2))
  qed
qed

text \<open>
  C13: in a verified update log the rows of each update, in order, run through its life: it is
  proposed first, and each later row is a step of the state machine from the row before.
\<close>

theorem update_lifecycle:
  assumes "verify_updates sha rows = Inr receipt"
  shows "successively stage_step (map stage_of (rows_of u rows)) \<and>
    (rows_of u rows \<noteq> [] \<longrightarrow> stage_of (hd (rows_of u rows)) = Proposed)"
proof -
  have "updates_ok sha rows" using assms verify_updates_iff by blast
  then show ?thesis
  proof (induction rows rule: rev_induct)
    case Nil
    then show ?case by (simp add: rows_of_def)
  next
    case (snoc r rows)
    then have IH: "successively stage_step (map stage_of (rows_of u rows))"
      "rows_of u rows \<noteq> [] \<longrightarrow> stage_of (hd (rows_of u rows)) = Proposed" and r: "row_ok sha rows r"
      by (auto simp: updates_ok_snoc)
    show ?case
    proof (cases "text_field r ''update_id'' = u")
      case False
      then show ?thesis using IH by (simp add: rows_of_snoc)
    next
      case True
      from r show ?thesis
      proof (cases rule: row_ok_cases)
        case 1
        then have "rows_of u rows = []" using True by (auto simp: latest_rows_of split: if_splits)
        then show ?thesis using 1 True by (simp add: rows_of_snoc)
      next
        case (2 p)
        then have "rows_of u rows \<noteq> []" "p = last (rows_of u rows)"
          using True by (auto simp: latest_rows_of split: if_splits)
        then show ?thesis using IH 2(4) True
          by (simp add: rows_of_snoc successively_append_iff last_map)
      qed
    qed
  qed
qed

section \<open>Approval\<close>

definition approving_review :: "json \<Rightarrow> json \<Rightarrow> bool" where
  "approving_review review row \<longleftrightarrow> text_field review ''update_id'' = text_field row ''update_id'' \<and>
     text_field review ''transition'' = ''reviewed'' \<and> fld review ''parent_decision'' = JStr ''approve'' \<and>
     fld (fld review ''reviewer_identity'') ''role'' = JStr ''Parent'' \<and>
     fld (fld review ''authority_reference'') ''provenance'' = JStr ''parent_issued'' \<and>
     agent_of (fld review ''reviewer_identity'') \<noteq> agent_of (fld review ''proposer_identity'') \<and>
     agent_of (fld review ''reviewer_identity'') \<noteq> JStr ''unknown'' \<and>
     agent_of (fld review ''proposer_identity'') \<noteq> JStr ''unknown'' \<and>
     same_fields payload_fields row review"

lemma same_fields_trans: "same_fields F r s \<Longrightarrow> same_fields F s t \<Longrightarrow> same_fields F r t"
  by (auto simp: same_fields_def list_all_iff intro: py_eq_trans)

text \<open>the row before a row that is not a proposal\<close>

lemma row_before:
  assumes "row_ok sha before row" "stage_of row \<noteq> Proposed" "updates_ok sha before"
  obtains p b where "p \<in> set before" "set b \<subseteq> set before" "row_ok sha b p" "updates_ok sha b"
    "text_field p ''update_id'' = text_field row ''update_id''"
    "same_fields payload_fields row p" "stage_step (stage_of p) (stage_of row)" "parent_reviewer row = Inr ()"
  using assms(1)
proof (cases rule: row_ok_cases)
  case 1
  then show thesis using assms(2) by simp
next
  case (2 p)
  from 2(1) obtain b l where b: "before = b @ p # l" "text_field p ''update_id'' = text_field row ''update_id''"
    by (rule latest_Some)
  have "row_ok sha b p" using updates_ok_split assms(3) b(1) by blast
  moreover have "updates_ok sha b" using updates.prefix[of sha b "p # l"] assms(3) b(1) by simp
  ultimately show thesis using that[of p b] 2 b by auto
qed

lemma applied_reviewed:
  assumes "row_ok sha before row" "updates_ok sha before" "stage_of row = Applied"
  shows "\<exists>review \<in> set before. approving_review review row"
proof -
  have "stage_of row \<noteq> Proposed" using assms(3) by simp
  from row_before[OF assms(1) this assms(2)] assms(3)
  obtain p b where p: "p \<in> set before" "row_ok sha b p" "updates_ok sha b"
    "text_field p ''update_id'' = text_field row ''update_id''"
    "same_fields payload_fields row p" "stage_step (stage_of p) Applied" by metis
  from p(6) have stage: "stage_of p = Approved" by (rule to_AppliedE)
  then have "text_field p ''transition'' = ''reviewed''" "fld p ''parent_decision'' = JStr ''approve''"
    by (auto simp: stage_of_def Let_def split: if_splits)
  moreover have "stage_of p \<noteq> Proposed" using stage by simp
  from row_before[OF p(2) this p(3)] have "parent_reviewer p = Inr ()" by metis
  ultimately have "approving_review p row"
    using p(4,5) by (auto simp: approving_review_def parent_reviewer_def Let_def result_simps)
  then show ?thesis using p(1) by blast
qed

text \<open>
  C14: an applied or reconciled row is preceded by the parent's approving review of the same
  proposal, issued under parent authority by an agent whose known identity differs from the
  proposer's; target, patch, proposer and authority are those that were reviewed.
\<close>

theorem applied_needs_review:
  assumes "verify_updates sha (before @ row # later) = Inr receipt"
    "text_field row ''transition'' \<in> {''applied'', ''reconciled''}"
  shows "\<exists>review \<in> set before. approving_review review row"
proof -
  have all: "updates_ok sha (before @ row # later)" using assms(1) verify_updates_iff by blast
  then have row: "row_ok sha before row" "updates_ok sha before"
    using updates_ok_split updates.prefix by blast+
  show ?thesis
  proof (cases "stage_of row = Applied")
    case True
    then show ?thesis using applied_reviewed row by blast
  next
    case False
    then have stage: "stage_of row = Reconciled" using assms(2) by (auto simp: stage_of_def)
    then have "stage_of row \<noteq> Proposed" by simp
    from row_before[OF row(1) this row(2)] stage
    obtain p b where p: "set b \<subseteq> set before" "row_ok sha b p" "updates_ok sha b"
      "text_field p ''update_id'' = text_field row ''update_id''" "same_fields payload_fields row p"
      "stage_step (stage_of p) Reconciled" by metis
    from p(6) have "stage_of p = Applied" by (rule to_ReconciledE)
    then obtain review where "review \<in> set b" "approving_review review p" using applied_reviewed p(2,3) by blast
    note review = this
    have "same_fields payload_fields row review"
      using review(2) same_fields_trans[OF p(5)] by (simp add: approving_review_def)
    with review(2) p(4) have "approving_review review row" by (simp add: approving_review_def)
    then show ?thesis using review(1) p(1) by blast
  qed
qed

section \<open>Scope\<close>

lemma patch_operation_ok:
  assumes "patch_operation allowed prefix seen operation = Inr seen'"
  shows "\<exists>path. pointer_segments (fld operation ''path'') = Inr path \<and> is_under path prefix \<and>
    (\<exists>a \<in> set allowed. is_under path a) \<and> path \<notin> set seen \<and> seen' = path # seen"
  using assms by (auto simp: patch_operation_def Let_def result_simps list_ex_iff)

lemma patch_operations_ok:
  assumes "foldR (patch_operation allowed prefix) seen ops = Inr seen'" "operation \<in> set ops"
  shows "\<exists>path. pointer_segments (fld operation ''path'') = Inr path \<and> is_under path prefix \<and>
    (\<exists>a \<in> set allowed. is_under path a)"
  using assms by (induction ops arbitrary: seen) (auto simp: bind_eq_Inr dest!: patch_operation_ok)

text \<open>
  C15: every operation of a patch in a verified log addresses something under the target task
  and under one of the paths its authority allows, and the authority can neither accept
  work nor change canonical state.
\<close>

theorem patches_in_scope:
  assumes "verify_updates sha rows = Inr receipt" "row \<in> set rows"
    "operation \<in> set (the_list (fld row ''proposed_patch''))"
  shows "\<exists>path allowed. pointer_segments (fld operation ''path'') = Inr path \<and>
    is_under path [''tasks'', text_field row ''target_task''] \<and>
    allowed \<in> set (the_list (fld (fld row ''authority_reference'') ''allowed_patch_paths'')) \<and>
    (\<exists>prefix. pointer_segments allowed = Inr prefix \<and> is_under path prefix) \<and>
    fld (fld row ''authority_reference'') ''may_accept'' = JBool False \<and>
    fld (fld row ''authority_reference'') ''may_mutate_canonical_state'' = JBool False"
proof -
  obtain before later where "rows = before @ row # later" using assms(2) by (meson split_list)
  then have "row_ok sha before row" using assms(1) verify_updates_iff updates_ok_split by blast
  then have shape: "update_shape row = Inr row" by (simp add: row_ok_def)
  define authority where "authority = fld row ''authority_reference''"
  from update_shape_facts(7)[OF shape] obtain allowed s where
    allowed: "mapR pointer_segments (the_list (fld authority ''allowed_patch_paths'')) = Inr allowed"
    and ops: "foldR (patch_operation allowed [''tasks'', text_field row ''target_task'']) []
      (the_list (fld row ''proposed_patch'')) = Inr s"
    by (auto simp: update_patch_def result_simps text_field_def authority_def)
  from patch_operations_ok[OF ops assms(3)] obtain path a where
    path: "pointer_segments (fld operation ''path'') = Inr path"
      "is_under path [''tasks'', text_field row ''target_task'']" "a \<in> set allowed" "is_under path a" by blast
  from mapR_source[OF allowed path(3)] obtain v where
    "v \<in> set (the_list (fld authority ''allowed_patch_paths''))" "pointer_segments v = Inr a" by blast
  note v = this
  have "fld authority ''may_accept'' = JBool False" "fld authority ''may_mutate_canonical_state'' = JBool False"
    using update_shape_facts(6)[OF shape] by (auto simp: update_authority_def Let_def result_simps authority_def)
  note may = this
  show ?thesis
    by (rule exI[of _ path], rule exI[of _ v], intro conjI path(1,2) exI[of _ a] v(2) path(4)
      v(1)[unfolded authority_def] may[unfolded authority_def])
qed

end
