(* ===== verification/Canonical.thy ===== *)
theory Canonical
  imports HashLog
begin

text \<open>
  What is read back from a log is the canonical form of what was written: the same value with
  the keys of every object in order. The checks of the scripts do not see the difference
  (\<open>canon_simps\<close>), so a row that passed when it was appended passes when it is read.
\<close>

named_theorems canon_simps "operations on a canonical value"

lemma get_canon' [canon_simps]: "get (canon v) k = map_option canon (get v k)"
proof (cases v)
  case (JObj kvs)
  have first: "map_of xs k = (case filter (\<lambda>p. fst p = k) xs of [] \<Rightarrow> None | p # _ \<Rightarrow> Some (snd p))" for xs :: "(string \<times> json) list"
    by (induction xs) auto
  have "map_of (sort_key fst kvs) k = map_of kvs k"
    unfolding first by (simp add: sort_key_stable)
  moreover have "map_of (map (\<lambda>kv. (fst kv, canon (snd kv))) xs) k = map_option canon (map_of xs k)" for xs :: "(string \<times> json) list"
    by (induction xs) auto
  ultimately show ?thesis using JObj by (simp add: get_def)
qed (simp_all add: get_def json_sel_defs)

lemma fld_canon [canon_simps]: "fld (canon v) k = canon (fld v k)"
  by (simp add: fld_def canon_simps split: option.splits)

lemma has_key_canon [canon_simps]: "has_key (canon v) k = has_key v k"
  by (simp add: has_key_def canon_simps)

lemma keys_are_canon [canon_simps]: "keys_are (canon v) K = keys_are v K"
  by (simp add: keys_are_iff)

lemma sel_canon [canon_simps]: "the_str (canon v) = the_str v" "the_int (canon v) = the_int v"
  "the_list (canon v) = map canon (the_list v)" "hashable (canon v) = hashable v" "is_bool (canon v) = is_bool v"
  "nonblank (canon v) = nonblank v" "in_strs (canon v) S = in_strs v S"
  by (cases v; simp add: json_sel_defs nonblank_def in_strs_def)+

lemma canon_eq [canon_simps]: "canon v = JStr s \<longleftrightarrow> v = JStr s" "canon v = JNull \<longleftrightarrow> v = JNull"
  "canon v = JInt i \<longleftrightarrow> v = JInt i" "canon v = JBool b \<longleftrightarrow> v = JBool b"
  "canon v = JList [] \<longleftrightarrow> v = JList []"
  by (cases v; simp)+

lemma py_eq_canon' [canon_simps]: "py_eq (canon v) w = py_eq v w" "py_eq v (canon w) = py_eq v w"
  by (simp_all add: py_eq_def)

lemma pop_canon [canon_simps]: "is_obj v \<Longrightarrow> pop k (canon v) = canon (pop k v)"
  by (cases v) (simp_all add: pop_def AList.delete_eq filter_map comp_def filter_sort case_prod_beta')

lemma seal_canon [canon_simps]: "is_obj v \<Longrightarrow> seal sha hk (canon v) = seal sha hk v"
  by (simp add: seal_def canon_simps)

lemma is_hash_canon [canon_simps]: "is_hash p (canon v) = is_hash p v"
  by (cases v) (simp_all add: is_hash_def)

lemma require_canon [canon_simps]:
  "require_string mk (canon v) c = require_string mk v c" "require_time mk (canon v) c = require_time mk v c"
  "require_in mk (canon v) S c = require_in mk v S c" "require_positive mk (canon v) c = require_positive mk v c"
  "require_version mk c (canon v) = require_version mk c v"
  by (simp_all add: require_string_def require_time_def require_in_def require_positive_def require_version_def canon_simps)

lemma require_fact_canon [canon_simps]: "require_fact mk pre (canon v) field observed = require_fact mk pre v field observed"
  unfolding require_fact_def Let_def by (simp add: canon_simps)

section \<open>The bytes of a log\<close>

lemma no_duplicates_keeps: "keeps_pairs (no_duplicates mk pre)"
proof -
  have "distinct (map fst (acc @ kvs)) \<Longrightarrow> foldR (\<lambda>d (k, v).
      if k \<in> fst ` set d then Inl (mk (pre @ ''_json_duplicate_key'')) else Inr (d @ [(k, v)])) acc kvs = Inr (acc @ kvs)"
    for acc kvs :: "(string \<times> json) list"
    by (induction kvs arbitrary: acc) (auto simp: case_prod_beta')
  from this[of "[]"] show ?thesis by (simp add: keeps_pairs_def no_duplicates_def)
qed

definition row_line :: "json \<Rightarrow> string" where
  "row_line row = dumps row @ newline"

lemma parse_row_line:
  assumes "plain_object flt row" "utf8_value row"
  shows "parse_line flt mk pre (dumps row) = Inr (canon row)"
proof -
  have "loads flt (no_duplicates mk pre) (dumps row) = Inr (canon row)"
    using loads_dumps[OF no_duplicates_keeps] assms(1) by (simp add: plain_object_def)
  moreover have "\<not> blank_bytes (dumps row)"
    using assms(1) by (cases row) (simp_all add: plain_object_def blank_bytes_def code_def)
  ultimately show ?thesis
    using assms utf8_ok_dumps[OF assms(2)] by (simp add: parse_line_def plain_object_def)
qed

text \<open>
  A text that ends with a newline is cut the same way whatever follows; this holds for both
  notions of a line end.
\<close>

lemma ends_with_newline: "ends_with v newline \<longleftrightarrow> v \<noteq> [] \<and> last v = byte 10"
  by (cases v rule: rev_cases) (auto simp: ends_with_def newline_def)

locale line_ends =
  fixes line_end :: "string \<Rightarrow> nat"
  assumes stable: "v \<noteq> [] \<Longrightarrow> last v = byte 10 \<Longrightarrow> line_end (v @ rest) = line_end v"
    and bound: "line_end v \<le> length v"
    and newline: "line_end (newline @ rest) = 1"
begin

lemma cut_line_append:
  assumes "v \<noteq> []" "last v = byte 10"
  shows "cut_line line_end (v @ rest) = (fst (cut_line line_end v), snd (cut_line line_end v) @ rest) \<and>
    (snd (cut_line line_end v) = [] \<or> last (snd (cut_line line_end v)) = byte 10)"
  using assms
proof (induction v)
  case (Cons c v)
  show ?case
  proof (cases "line_end (c # v) = 0")
    case False
    have "line_end (c # v @ rest) = line_end (c # v)" using stable[of "c # v" rest] Cons.prems by simp
    moreover have "drop n (c # v) = [] \<or> last (drop n (c # v)) = byte 10" for n
      using Cons.prems(2) by (cases "n < length (c # v)") (simp_all add: last_drop del: drop_Suc_Cons)
    moreover have "drop n (c # v @ rest) = drop n (c # v) @ rest" if "n \<le> length (c # v)" for n
      using that drop_append[of n "c # v" rest] by simp
    ultimately show ?thesis using False bound[of "c # v"] by (simp del: drop_eq_Nil)
  next
    case True
    then have "v \<noteq> []" using Cons.prems newline[of "[]"] by (auto simp: newline_def)
    then have last: "last v = byte 10" using Cons.prems by simp
    have "line_end (c # v @ rest) = 0" using True stable[of "c # v" rest] Cons.prems by simp
    then show ?thesis using True Cons.IH[OF \<open>v \<noteq> []\<close> last] by (auto split: prod.splits)
  qed
qed simp

lemma splitlines_append:
  assumes "v = [] \<or> last v = byte 10"
  shows "splitlines line_end (v @ rest) = splitlines line_end v @ splitlines line_end rest"
  using assms
proof (induction "length v" arbitrary: v rule: less_induct)
  case less
  show ?case
  proof (cases "v = []")
    case True
    then show ?thesis by (simp add: splitlines.simps[of _ "[]"])
  next
    case False
    let ?w = "snd (cut_line line_end v)"
    have cut: "cut_line line_end (v @ rest) = (fst (cut_line line_end v), ?w @ rest)" "?w = [] \<or> last ?w = byte 10"
      using cut_line_append[OF False] less.prems False by blast+
    have "length ?w < length v" using cut_line_shorter[of line_end v] False by (cases v) auto
    from less.hyps[OF this cut(2)] show ?thesis
      using cut(1) False by (subst splitlines.simps, subst (2) splitlines.simps) simp
  qed
qed

lemma splitlines_appended:
  assumes "v = [] \<or> last v = byte 10" "\<forall>w \<in> set ws. one_line line_end w"
  shows "splitlines line_end (v @ concat (map (\<lambda>w. w @ newline) ws)) = splitlines line_end v @ ws"
  using splitlines_append[OF assms(1)] splitlines_lines[OF newline assms(2)] by simp

end

lemma byte_distinct: "byte 10 \<noteq> byte 13" "byte 10 \<noteq> byte 194" "byte 10 \<noteq> byte 226" "byte 10 \<noteq> byte 133" "byte 10 \<noteq> byte 128" "byte 10 \<noteq> byte 168" "byte 10 \<noteq> byte 169"
  by (simp_all add: code_eq_byte)

interpretation bytes: line_ends byte_end
proof
  show "v \<noteq> [] \<Longrightarrow> last v = byte 10 \<Longrightarrow> byte_end (v @ rest) = byte_end v" for v rest
    using byte_distinct by (cases v; cases "tl v") (auto simp: byte_end_def)
  show "byte_end v \<le> length v" for v
    by (cases v; cases "tl v") (auto simp: byte_end_def)
qed (rule byte_end_newline)

interpretation unicode: line_ends text_end
proof
  show "v \<noteq> [] \<Longrightarrow> last v = byte 10 \<Longrightarrow> text_end (v @ rest) = text_end v" for v rest
    using byte_distinct by (cases v; cases "tl v"; cases "tl (tl v)") (auto simp: text_end_def starts_with_def)
  show "text_end v \<le> length v" for v
    by (cases v; cases "tl v"; cases "tl (tl v)") (auto simp: text_end_def starts_with_def)
qed (rule text_end_newline)

lemma parse_bytes_append:
  assumes "parse_bytes flt mk pre raw True = Inr rows" "plain_object flt row" "utf8_value row"
  shows "parse_bytes flt mk pre (raw @ row_line row) allow = Inr (rows @ [canon row])"
proof -
  have append: "mapR f (xs @ ys) = bind (mapR f xs) (\<lambda>us. bind (mapR f ys) (\<lambda>vs. Inr (us @ vs)))" for f :: "string \<Rightarrow> json result" and xs ys
  proof (induction xs)
    case Nil
    then show ?case by (cases "mapR f ys") simp_all
  qed (simp add: bind_assoc)
  have raw: "raw = [] \<or> last raw = byte 10" "mapR (parse_line flt mk pre) (splitlines byte_end raw) = Inr rows"
    using assms(1) by (auto simp: parse_bytes_def ends_with_newline splitlines.simps[of _ "[]"] split: if_splits)
  have "printable (dumps row)" using assms(2) printable_dumps by (auto simp: plain_object_def)
  then have "splitlines byte_end (row_line row) = [dumps row]"
    using splitlines_one[OF one_line_bytes byte_end_newline, of "dumps row" "[]"]
    by (simp add: row_line_def splitlines.simps[of _ "[]"])
  then have "splitlines byte_end (raw @ row_line row) = splitlines byte_end raw @ [dumps row]"
    using bytes.splitlines_append[OF raw(1)] by simp
  moreover have "ends_with (raw @ row_line row) newline"
    unfolding ends_with_newline by (simp add: row_line_def newline_def)
  ultimately show ?thesis
    using raw(2) parse_row_line[OF assms(2,3)] by (simp add: parse_bytes_def append ends_with_newline)
qed

section \<open>Rows that are built\<close>

lemma python_value_upd: "python_value flt v \<Longrightarrow> python_value flt x \<Longrightarrow> is_obj v \<Longrightarrow> python_value flt (upd k x v)"
proof (cases v)
  case (JObj kvs)
  assume "python_value flt v" "python_value flt x"
  moreover have "(k', y) \<in> set (AList.update k x kvs) \<Longrightarrow> y = x \<or> (k', y) \<in> set kvs" for k' y
    by (induction kvs) (auto split: if_splits)
  ultimately show ?thesis using JObj
    by (fastforce simp: upd_def list_all_iff distinct_update)
qed simp_all

lemma utf8_value_upd: "utf8_value v \<Longrightarrow> utf8_value x \<Longrightarrow> utf8_ok k \<Longrightarrow> is_obj v \<Longrightarrow> utf8_value (upd k x v)"
proof (cases v)
  case (JObj kvs)
  assume "utf8_value v" "utf8_value x" "utf8_ok k"
  moreover have "(k', y) \<in> set (AList.update k x kvs) \<Longrightarrow> k' = k \<and> y = x \<or> (k', y) \<in> set kvs" for k' y
    by (induction kvs) (auto split: if_splits)
  ultimately show ?thesis using JObj by (fastforce simp: upd_def list_all_iff)
qed simp_all

lemma plain_upd: "plain_object flt v \<Longrightarrow> python_value flt x \<Longrightarrow> plain_object flt (upd k x v)"
  by (simp add: plain_object_def python_value_upd)

lemma hash_value: "is_hash False v \<Longrightarrow> python_value flt v \<and> utf8_value v"
proof (cases v)
  case (JStr s)
  assume "is_hash False v"
  then have "all_hex s" using JStr by (simp add: is_hash_def hex64_def)
  moreover have "list_all (\<lambda>c. code c < 128) hex_digits" by code_simp
  ultimately have "list_all (\<lambda>c. code c < 128) s" by (auto simp: all_hex_def list_all_iff)
  then show ?thesis using JStr utf8_ok_ascii by simp
qed (simp_all add: is_hash_def)

section \<open>Log files\<close>

text \<open>
  The interface between a log file and the rows of its script: the verifier accepts the logs
  that are \<open>ok\<close>, and a row built for an accepted log is still accepted in the canonical form in
  which it is read back.
\<close>

locale log_file =
  fixes flt :: "string \<Rightarrow> json" and mk :: "string \<Rightarrow> exn" and pre :: string
    and verify :: "json list \<Rightarrow> json result" and build :: "json \<Rightarrow> json list \<Rightarrow> json result" and ok :: "json list \<Rightarrow> bool"
  assumes verify_iff: "(\<exists>receipt. verify rows = Inr receipt) \<longleftrightarrow> ok rows"
    and ok_Nil: "ok []"
    and built: "build draft rows = Inr row \<Longrightarrow> ok rows \<Longrightarrow> plain_object flt draft \<Longrightarrow> utf8_value draft \<Longrightarrow>
      plain_object flt row \<and> utf8_value row \<and> ok (rows @ [canon row])"
begin

lemma appended:
  assumes "append_log flt mk pre verify (build draft) content = (content', Inr row)"
  obtains raw rows where "raw = (case content of None \<Rightarrow> [] | Some raw \<Rightarrow> raw)" "parse_bytes flt mk pre raw True = Inr rows"
    "ok rows" "build draft rows = Inr row" "content' = Some (raw @ row_line row)"
proof -
  define raw where "raw = (case content of None \<Rightarrow> [] | Some raw \<Rightarrow> raw)"
  from assms have out: "bind (parse_bytes flt mk pre raw True) (\<lambda>rows.
      bind (if rows = [] then Inr JNull else verify rows) (\<lambda>_. build draft rows)) = Inr row"
    and written: "content' = Some (raw @ row_line row)"
    by (auto simp: append_log_def Let_def raw_def row_line_def)
  from out obtain rows where rows: "parse_bytes flt mk pre raw True = Inr rows" "build draft rows = Inr row"
    and checked: "\<exists>r. (if rows = [] then Inr JNull else verify rows) = Inr r" by (auto simp: bind_eq_Inr)
  have "ok rows" using checked verify_iff[of rows] ok_Nil by (cases "rows = []") auto
  then show thesis using that[OF raw_def rows(1) _ rows(2) written] by blast
qed

lemma read_back:
  assumes "append_log flt mk pre verify (build draft) content = (content', Inr row)" "plain_object flt draft" "utf8_value draft"
  shows "\<exists>raw rows. raw = (case content of None \<Rightarrow> [] | Some raw \<Rightarrow> raw) \<and> content' = Some (raw @ row_line row) \<and>
    parse_bytes flt mk pre raw True = Inr rows \<and> build draft rows = Inr row \<and>
    parse_bytes flt mk pre (raw @ row_line row) False = Inr (rows @ [canon row]) \<and> ok (rows @ [canon row])"
proof -
  from assms(1) obtain raw rows where raw: "raw = (case content of None \<Rightarrow> [] | Some raw \<Rightarrow> raw)"
    "parse_bytes flt mk pre raw True = Inr rows" "ok rows" "build draft rows = Inr row" "content' = Some (raw @ row_line row)"
    by (rule appended)
  from built[OF raw(4,3) assms(2,3)] raw(1,2,4,5) parse_bytes_append[OF raw(2)] show ?thesis by blast
qed

end

lemma failed_append_log:
  assumes "append_log flt mk pre verify build content = (content', Inl e)"
  shows "content' = content \<or> content = None \<and> content' = Some []"
  using assms by (cases content) (auto simp: append_log_def Let_def)

end
