(* ===== verification/Updates_Log.thy ===== *)
theory Updates_Log
  imports Updates_Properties Canonical
begin

text \<open>
  The file of the update log: what \<open>append_update\<close> writes is read back, an append that fails
  leaves the bytes alone, and the facts of the locale \<open>hash_log\<close> for this log.
\<close>

section \<open>Checks do not see the order of keys\<close>

lemma pointer_segments_canon [canon_simps]: "pointer_segments (canon v) = pointer_segments v"
  by (simp add: pointer_segments_def canon_simps)

lemma map_pointers_canon [canon_simps]: "mapR pointer_segments (map canon vs) = mapR pointer_segments vs"
  by (simp add: mapR_map canon_simps)

lemma update_identity_canon [canon_simps]: "update_identity (canon v) reviewer = update_identity v reviewer"
  by (simp add: update_identity_def update_fact_def canon_simps)

lemma update_authority_canon [canon_simps]: "update_authority (canon v) = update_authority v"
  unfolding update_authority_def Let_def canon_simps is_canon list.map_disc_iff ..

lemma patch_operation_canon [canon_simps]: "patch_operation allowed prefix seen (canon v) = patch_operation allowed prefix seen v"
  unfolding patch_operation_def Let_def canon_simps is_canon list.map_disc_iff ..

lemma update_patch_canon [canon_simps]: "update_patch (canon v) target (canon a) = update_patch v target a"
  unfolding update_patch_def Let_def by (simp add: canon_simps foldR_map)

lemma task_creation_canon [canon_simps]: "task_creation (canon row) = task_creation row"
proof (cases "the_list (fld row ''proposed_patch'')")
  case Nil
  show ?thesis unfolding task_creation_def Let_def canon_simps Nil list.map list.size by simp
next
  case (Cons p ps)
  show ?thesis
    unfolding task_creation_def Let_def canon_simps Cons list.map list.sel is_canon list.size length_map ..
qed

lemma update_reconciliation_canon [canon_simps]: "update_reconciliation (canon v) = update_reconciliation v"
  unfolding update_reconciliation_def canon_simps is_canon list.map_disc_iff ..

lemma optional_canon: "optional (canon v) check = optional v (\<lambda>v. check (canon v))"
  by (simp add: optional_def canon_simps)

lemma update_review_shape_canon [canon_simps]: "update_review_shape (canon row) = update_review_shape row"
  unfolding update_review_shape_def by (simp add: canon_simps optional_canon)

lemma update_shape_canon: "update_shape row = Inr row \<Longrightarrow> update_shape (canon row) = Inr (canon row)"
  by (auto simp: update_shape_def result_simps canon_simps)

lemma parent_reviewer_canon [canon_simps]: "parent_reviewer (canon row) = parent_reviewer row"
  unfolding parent_reviewer_def Let_def agent_of_def canon_simps is_canon list.map_disc_iff ..

lemma same_fields_canon [canon_simps]: "same_fields F (canon r) s = same_fields F r s"
  by (simp add: same_fields_def canon_simps)

lemma text_field_canon [canon_simps]: "text_field (canon row) k = text_field row k"
  by (simp add: text_field_def canon_simps)

lemma same_reviewer_canon [canon_simps]: "same_reviewer (canon row) p = same_reviewer row p"
  unfolding same_reviewer_def canon_simps ..

lemma outcome_fields_canon:
  "reviewed_fields row p = Inr e \<Longrightarrow> reviewed_fields (canon row) p = Inr (map canon e)"
  "rejected_fields row p = Inr e \<Longrightarrow> rejected_fields (canon row) p = Inr (map canon e)"
  "applied_fields row p = Inr e \<Longrightarrow> applied_fields (canon row) p = Inr (map canon e)"
  "superseded_fields row p = Inr e \<Longrightarrow> superseded_fields (canon row) p = Inr (map canon e)"
  "reconciled_fields row p = Inr e \<Longrightarrow> reconciled_fields (canon row) p = Inr (map canon e)"
  by (auto simp: reviewed_fields_def rejected_fields_def applied_fields_def superseded_fields_def
      reconciled_fields_def Let_def canon_simps result_simps split: if_splits)

lemma expected_fields_canon:
  assumes "expected_fields row prior = Inr e"
  shows "expected_fields (canon row) prior = Inr (map canon e)"
proof (cases prior)
  case None
  then show ?thesis using assms by (auto simp: expected_fields_def Let_def canon_simps split: if_splits)
next
  case (Some p)
  then show ?thesis using assms outcome_fields_canon[of row p e]
    by (auto simp: expected_fields_def Let_def canon_simps bind_eq_Inr split: if_splits)
qed

lemma update_transition_canon:
  assumes "update_transition row prior = Inr ()"
  shows "update_transition (canon row) prior = Inr ()"
proof -
  from assms obtain e where e: "expected_fields row prior = Inr e"
    "list_all2 py_eq (map (fld row) outcome_fields) e" by (auto simp: update_transition_def result_simps)
  have "list_all2 py_eq (map (fld (canon row)) outcome_fields) (map canon e)"
    using e(2) by (simp add: list_all2_map1 list_all2_map2 canon_simps)
  then show ?thesis using assms e expected_fields_canon[OF e(1)]
    by (simp add: update_transition_def canon_simps split: if_splits)
qed

lemma check_supersession_canon [canon_simps]: "check_supersession log (canon row) = check_supersession log row"
  unfolding check_supersession_def Let_def canon_simps is_canon list.map_disc_iff ..

lemma row_ok_canon: "row_ok sha rows row \<Longrightarrow> row_ok sha rows (canon row)"
proof -
  assume ok: "row_ok sha rows row"
  then have "update_shape row = Inr row" by (simp add: row_ok_def)
  then have "is_obj row" using update_shape_facts(1) by (auto simp: keys_are_iff)
  then show ?thesis using ok update_shape_canon update_transition_canon
    by (simp add: row_ok_def canon_simps)
qed

section \<open>Appending\<close>

lemma build_row_ok:
  assumes "build_row sha draft rows = Inr row" "updates_ok sha rows"
  shows "row_ok sha rows row" "keys_are row update_row_keys"
proof -
  from assms have "updates_ok sha (rows @ [row])"
    by (auto simp: build_row_def Let_def result_simps verify_updates_iff[symmetric])
  then show "row_ok sha rows row" by (simp add: updates_ok_snoc)
  then show "keys_are row update_row_keys" using update_shape_facts(1) by (auto simp: row_ok_def)
qed

lemma build_row_value:
  assumes "build_row sha draft rows = Inr row" "updates_ok sha rows" "plain_object flt draft" "utf8_value draft"
  shows "plain_object flt row" "utf8_value row"
proof -
  have shape: "update_shape row = Inr row" using build_row_ok(1)[OF assms(1,2)] by (simp add: row_ok_def)
  then have hashes: "is_hash False (fld row k)" if "k \<in> {''previous_update_hash'', ''previous_row_hash'', ''row_hash''}" for k
    using update_shape_facts(8)[OF shape] that by (auto simp: update_review_shape_def result_simps)
  define previous where "previous = (case latest_of rows (fld draft ''update_id'') of
    None \<Rightarrow> JStr genesis | Some prior \<Rightarrow> fld prior ''row_hash'')"
  from assms(1) obtain h where row: "row = upd ''row_hash'' (JStr h) (upd ''row_hash'' (JStr genesis)
      (upd ''previous_row_hash'' (JStr (head_hash ''row_hash'' rows)) (upd ''previous_update_hash'' previous
      (upd ''sequence'' (JInt (int (length rows) + 1)) draft))))"
    by (auto simp: build_row_def Let_def previous_def result_simps)
  have fields: "fld row ''row_hash'' = JStr h" "fld row ''previous_row_hash'' = JStr (head_hash ''row_hash'' rows)"
    "fld row ''previous_update_hash'' = previous" by (simp_all add: row fld_upd)
  have "is_hash False (JStr h)" "is_hash False (JStr (head_hash ''row_hash'' rows))" "is_hash False previous"
    using hashes fields by force+
  note good = this[THEN hash_value[of _ flt]]
  have g: "utf8_value (JStr genesis)" by code_simp
  have names: "utf8_ok ''row_hash''" "utf8_ok ''previous_row_hash''" "utf8_ok ''previous_update_hash''" "utf8_ok ''sequence''"
    by code_simp+
  show "plain_object flt row" unfolding row using good assms(3) by (intro plain_upd) simp_all
  show "utf8_value row" unfolding row using good g names assms(3,4)
    by (intro utf8_value_upd) (simp_all add: plain_object_def)
qed

interpretation update_file: log_file flt UpdateError "''update''" "verify_updates sha" "build_row sha" "updates_ok sha" for flt sha
proof
  fix draft rows row
  assume built: "build_row sha draft rows = Inr row" "updates_ok sha rows" and draft: "plain_object flt draft" "utf8_value draft"
  have "updates_ok sha (rows @ [canon row])"
    using built(2) row_ok_canon[OF build_row_ok(1)[OF built]] by (simp add: updates_ok_snoc)
  then show "plain_object flt row \<and> utf8_value row \<and> updates_ok sha (rows @ [canon row])"
    using build_row_value[OF built draft] by blast
qed (simp_all add: verify_updates_iff updates_ok_def)

lemma build_row_fields:
  assumes "build_row sha draft rows = Inr row" "k \<in> set update_draft_keys"
  shows "fld row k = fld draft k"
proof -
  from assms(2) have "k \<noteq> ''row_hash''" "k \<noteq> ''previous_row_hash''" "k \<noteq> ''previous_update_hash''" "k \<noteq> ''sequence''"
    by (auto simp: update_draft_keys_def)
  with assms(1) show ?thesis by (auto simp: build_row_def Let_def result_simps fld_upd)
qed

text \<open>
  C16: an append that succeeds adds one line, leaves the old bytes as they were, and the log
  read afterwards is the old one followed by the appended row, whose fields are the draft's.
\<close>

theorem append_reads_back:
  assumes "append_update sha flt file draft board = (file', Inr row)" "python_value flt draft" "utf8_value draft"
  shows "\<exists>raw rows. raw = (case file of None \<Rightarrow> [] | Some raw \<Rightarrow> raw) \<and> file' = Some (raw @ row_line row) \<and>
    parse_bytes flt UpdateError ''update'' raw True = Inr rows \<and>
    read_updates sha flt file' = Inr (rows @ [canon row]) \<and>
    (\<forall>k \<in> set update_draft_keys. fld (canon row) k = canon (fld draft k))"
proof -
  from assms(1) have obj: "is_obj draft"
    and written: "append_log flt UpdateError ''update'' (verify_updates sha) (build_row sha draft) file = (file', Inr row)"
    by (auto simp: append_update_def split: if_splits)
  then have plain: "plain_object flt draft" using assms(2) by (simp add: plain_object_def)
  from update_file.read_back[OF written plain assms(3)] obtain raw rows where
    raw: "raw = (case file of None \<Rightarrow> [] | Some raw \<Rightarrow> raw)" "file' = Some (raw @ row_line row)"
    "parse_bytes flt UpdateError ''update'' raw True = Inr rows" "build_row sha draft rows = Inr row"
    "parse_bytes flt UpdateError ''update'' (raw @ row_line row) False = Inr (rows @ [canon row])"
    "updates_ok sha (rows @ [canon row])" by blast
  then obtain receipt where "verify_updates sha (rows @ [canon row]) = Inr receipt" using verify_updates_iff by blast
  then show ?thesis using raw build_row_fields[OF raw(4)] by (simp add: read_updates_def canon_simps)
qed


section \<open>The chain\<close>

text \<open>
  C18: two verified update logs with the same receipt, so with the same head hash, have the
  same rows, unless two of their rows are a collision of the digest.
\<close>

theorem updates_tamper_evident:
  assumes "verify_updates sha rs = Inr receipt" "verify_updates sha ss = Inr receipt"
    "no_collision sha ''row_hash'' rs ss" "\<forall>r \<in> set rs \<union> set ss. plain_object flt r"
  shows "list_all2 same_content rs ss"
proof -
  have ok: "updates_ok sha rs" "updates_ok sha ss" using assms(1,2) verify_updates_iff by blast+
  then have "foldR (verify_update sha) empty_log rs = Inr (log_of rs)" "foldR (verify_update sha) empty_log ss = Inr (log_of ss)"
    by (simp_all add: verify_rows_iff)
  with assms(1,2) have "length rs = length ss" "head_hash ''row_hash'' rs = head_hash ''row_hash'' ss"
    by (auto simp: verify_updates_def log_of_fields)
  then show ?thesis using updates.same_head[OF ok _ _ assms(3) _ assms(4)] by simp
qed


section \<open>Supersession\<close>

text \<open>the update that replaces a superseded one\<close>

definition replacements :: "json list \<Rightarrow> (string \<times> string) set" where
  "replacements rows = (\<lambda>r. (text_field r ''update_id'', text_field r ''superseded_by_update_id'')) `
     {r \<in> set rows. text_field r ''transition'' = ''superseded''}"

definition follows :: "(string \<times> json) list \<Rightarrow> (string \<times> string) set" where
  "follows L = {(u, v). \<exists>p. map_of L u = Some p \<and> text_field p ''transition'' = ''superseded'' \<and>
     v = text_field p ''superseded_by_update_id''}"

lemma chase_reaches: "(target, w) \<in> (follows L)\<^sup>* \<Longrightarrow> w \<in> set visited \<Longrightarrow> chase L visited target"
proof (induction L visited target rule: chase.induct)
  case (1 L visited target)
  show ?case
  proof (cases "target \<in> set visited")
    case False
    with 1(2,3) have "target \<noteq> w" by blast
    with 1(2) obtain v where v: "(target, v) \<in> follows L" "(v, w) \<in> (follows L)\<^sup>*" by (meson converse_rtranclE)
    then obtain p where p: "map_of L target = Some p" "text_field p ''transition'' = ''superseded''"
      "v = text_field p ''superseded_by_update_id''" by (auto simp: follows_def)
    then have "chase L (target # visited) v" using 1(1)[OF False p(1)] v(2) 1(3) by simp
    then show ?thesis using p by (simp add: chase.simps[of L visited target])
  qed (simp add: chase.simps[of L visited target])
qed

lemma replaced_is_latest:
  assumes "updates_ok sha rows" "r \<in> set rows" "text_field r ''transition'' = ''superseded''"
  shows "latest rows (text_field r ''update_id'') = Some r"
  using assms
proof (induction rows rule: rev_induct)
  case (snoc s rows)
  then have s: "updates_ok sha rows" "row_ok sha rows s" by (simp_all add: updates_ok_snoc)
  show ?case
  proof (cases "r = s")
    case False
    then have r: "latest rows (text_field r ''update_id'') = Some r" using snoc s by simp
    have "stage_of r = Superseded" using snoc.prems(3) by (simp add: stage_of_def)
    then have "text_field s ''update_id'' \<noteq> text_field r ''update_id''"
      using r by (rule_tac row_ok_cases[OF s(2)]) (auto simp: stage_step_simps)
    then show ?thesis using r by (simp add: latest_snoc)
  qed (simp add: latest_snoc)
qed simp

text \<open>
  C20: in a verified log replacement is acyclic, so following the replacements of superseded
  updates always ends, and every replacement has been proposed in the log.
\<close>

theorem supersession_acyclic:
  assumes "verify_updates sha rows = Inr receipt"
  shows "acyclic (replacements rows) \<and>
    Range (replacements rows) \<subseteq> {text_field r ''update_id'' | r. r \<in> set rows \<and> text_field r ''transition'' = ''proposed''}"
proof -
  have "updates_ok sha rows" using assms verify_updates_iff by blast
  then show ?thesis
  proof (induction rows rule: rev_induct)
    case Nil
    then show ?case by (simp add: replacements_def acyclic_def)
  next
    case (snoc r rows)
    then have r: "updates_ok sha rows" "row_ok sha rows r" and IH: "acyclic (replacements rows)"
      "Range (replacements rows) \<subseteq> {text_field r ''update_id'' | r. r \<in> set rows \<and> text_field r ''transition'' = ''proposed''}"
      by (simp_all add: updates_ok_snoc)
    show ?case
    proof (cases "text_field r ''transition'' = ''superseded''")
      case False
      then have "replacements (rows @ [r]) = replacements rows" by (auto simp: replacements_def)
      then show ?thesis using IH by auto
    next
      case True
      let ?u = "text_field r ''update_id''" and ?v = "text_field r ''superseded_by_update_id''"
      have new: "replacements (rows @ [r]) = insert (?u, ?v) (replacements rows)"
        using True by (auto simp: replacements_def)
      have check: "check_supersession (log_of rows) r = Inr ()" using r(2) by (simp add: row_ok_def)
      then have v: "?v \<in> set (proposals (log_of rows))" "\<not> chase (lineage (log_of rows)) [?u] ?v"
        using True by (simp_all add: check_supersession_def Let_def result_simps)
      have "replacements rows \<subseteq> follows (lineage (log_of rows))"
        using replaced_is_latest[OF r(1)] by (fastforce simp: replacements_def follows_def log_of_fields)
      then have "(?v, ?u) \<notin> (replacements rows)\<^sup>*"
        using v(2) chase_reaches[of ?v ?u "lineage (log_of rows)" "[?u]"] rtrancl_mono by auto
      then show ?thesis using IH v(1) unfolding new by (auto simp: acyclic_insert log_of_fields)
    qed
  qed
qed

end
