(* ===== verification/Demo.thy ===== *)
theory Demo
  imports Canonical
begin

text \<open>
  What the sample logs share: a constant digest in place of SHA-256 and a reading of fractions.
\<close>

definition demo_digest :: "string \<Rightarrow> string" where
  "demo_digest s = replicate 64 CHR ''a''"

definition demo_float :: "string \<Rightarrow> json" where
  "demo_float s = JFloat 0 1 s"

definition demo_hash :: string where
  "demo_hash = replicate 64 CHR ''a''"

lemma seal_demo: "seal demo_digest hk row = demo_hash"
  by (simp add: seal_def demo_digest_def demo_hash_def)

lemma demo_hex: "\<forall>s. hex64 (demo_digest s)"
proof -
  have "hex64 (replicate 64 CHR ''a'')" by code_simp
  then show ?thesis by (simp add: demo_digest_def)
qed

lemma update_upd: "upd k x (upd k y v) = upd k x v"
proof -
  have "AList.update k x (AList.update k y kvs) = AList.update k x kvs" for kvs
    by (induction kvs) auto
  then show ?thesis by (simp add: upd_def)
qed

end
