(* ===== verification/Updates_Sample.thy ===== *)
theory Updates_Sample
  imports Updates_Log Demo
begin

text \<open>
  A concrete update log: a proposal, its approval by the parent and its application, sealed with
  a constant digest in place of SHA-256, and instances of the properties on it.
\<close>

definition proposal :: json where
  "proposal =
     JObj [(''schema_version'', JInt 1), (''row_id'', JStr ''R-1''), (''update_id'', JStr ''U-1''),
     (''timestamp'', JStr ''2026-01-01T00:00:00Z''), (''target_task'', JStr ''T-1''),
     (''update_kind'', JStr ''metadata_change''), (''transition'', JStr ''proposed''),
     (''proposed_patch'', JList [JObj [(''op'', JStr ''replace''), (''path'', JStr
     ''/tasks/T-1/objective''), (''value'', JStr ''Do it.'')]]), (''proposer_identity'', JObj
     [(''role'', JStr ''Worker''), (''agent_name'', JObj [(''value'', JStr ''unknown''),
     (''provenance'', JStr ''unknown'')]), (''agent_id'', JObj [(''value'', JStr ''agent-1''),
     (''provenance'', JStr ''parent_assigned'')]), (''provider'', JObj [(''value'', JStr
     ''unknown''), (''provenance'', JStr ''unknown'')]), (''model'', JObj [(''value'', JStr
     ''unknown''), (''provenance'', JStr ''unknown'')]), (''route_id'', JObj [(''value'', JStr
     ''unknown''), (''provenance'', JStr ''unknown'')]), (''runtime'', JObj [(''value'', JStr
     ''unknown''), (''provenance'', JStr ''unknown'')])]), (''expected_board_sha256'', JStr
     ''sha256:aaaaaaaaaaaaaaaaaaaaaaaaaaaaaaaaaaaaaaaaaaaaaaaaaaaaaaaaaaaaaaaa''),
     (''authority_reference'', JObj [(''source'', JStr ''parent:EV-1''), (''receipt_id'', JStr
     ''EV-1''), (''provenance'', JStr ''parent_issued''), (''allowed_patch_paths'', JList [JStr
     ''/tasks/T-1'']), (''may_accept'', JBool False), (''may_mutate_canonical_state'', JBool
     False)]), (''review_status'', JStr ''pending''), (''reviewer_identity'', JNull),
     (''parent_decision'', JNull), (''applied_state_sha256'', JNull), (''superseded_by_update_id'',
     JNull), (''reconciliation'', JNull)]"

definition parent_identity :: json where
  "parent_identity = upd ''role'' (JStr ''Parent'') (upd ''agent_id''
     (JObj [(''value'', JStr ''parent-1''), (''provenance'', JStr ''parent_assigned'')]) (fld proposal ''proposer_identity''))"

definition approval :: json where
  "approval = upd ''row_id'' (JStr ''R-2'') (upd ''transition'' (JStr ''reviewed'')
     (upd ''review_status'' (JStr ''approved'') (upd ''reviewer_identity'' parent_identity
     (upd ''parent_decision'' (JStr ''approve'') proposal))))"

definition application :: json where
  "application = upd ''row_id'' (JStr ''R-3'') (upd ''transition'' (JStr ''applied'')
     (upd ''review_status'' (JStr ''applied'')
     (upd ''applied_state_sha256'' (JStr (sha_prefix @ replicate 64 CHR ''b'')) approval)))"

text \<open>another proposal, which replaces the first\<close>

definition counterproposal :: json where
  "counterproposal = upd ''row_id'' (JStr ''R-4'') (upd ''update_id'' (JStr ''U-2'') proposal)"

definition supersession :: json where
  "supersession = upd ''row_id'' (JStr ''R-5'') (upd ''transition'' (JStr ''superseded'')
     (upd ''review_status'' (JStr ''superseded'') (upd ''parent_decision'' (JStr ''supersede'')
     (upd ''superseded_by_update_id'' (JStr ''U-2'') approval))))"

definition sealed_row :: "int \<Rightarrow> string \<Rightarrow> string \<Rightarrow> json \<Rightarrow> json" where
  "sealed_row n prior update_prior draft = upd ''row_hash'' (JStr demo_hash) (upd ''previous_row_hash'' (JStr prior)
     (upd ''previous_update_hash'' (JStr update_prior) (upd ''sequence'' (JInt n) draft)))"

definition sample_updates :: "json list" where
  "sample_updates = [sealed_row 1 genesis genesis proposal, sealed_row 2 demo_hash demo_hash approval, sealed_row 3 demo_hash demo_hash application]"

lemma draft_fields:
  "fld proposal ''update_id'' = JStr ''U-1''" "fld approval ''update_id'' = JStr ''U-1''" "fld application ''update_id'' = JStr ''U-1''"
  "fld proposal ''row_id'' = JStr ''R-1''" "fld approval ''row_id'' = JStr ''R-2''" "fld application ''row_id'' = JStr ''R-3''"
  "fld proposal ''transition'' = JStr ''proposed''" "fld approval ''transition'' = JStr ''reviewed''"
  "fld application ''transition'' = JStr ''applied''"
  by code_simp+

lemma sealed_fields:
  "text_field (sealed_row n prior update_prior draft) ''row_hash'' = demo_hash" "fld (sealed_row n prior update_prior draft) ''sequence'' = JInt n"
  "text_field (sealed_row n prior update_prior draft) ''previous_row_hash'' = prior"
  "text_field (sealed_row n prior update_prior draft) ''previous_update_hash'' = update_prior"
  "fld (sealed_row n prior update_prior draft) ''update_id'' = fld draft ''update_id''"
  "fld (sealed_row n prior update_prior draft) ''row_id'' = fld draft ''row_id''"
  "fld (sealed_row n prior update_prior draft) ''transition'' = fld draft ''transition''"
  "fld (sealed_row n prior update_prior draft) ''parent_decision'' = fld draft ''parent_decision''"
  "fld (sealed_row n prior update_prior draft) ''proposed_patch'' = fld draft ''proposed_patch''"
  by (simp_all add: sealed_row_def text_field_def fld_upd)

lemma sealed_texts:
  "text_field (sealed_row n prior update_prior draft) ''update_id'' = text_field draft ''update_id''"
  "text_field (sealed_row n prior update_prior draft) ''row_id'' = text_field draft ''row_id''"
  "text_field (sealed_row n prior update_prior draft) ''transition'' = text_field draft ''transition''"
  by (simp_all add: text_field_def sealed_fields)

lemma draft_texts:
  "text_field proposal ''update_id'' = ''U-1''" "text_field approval ''update_id'' = ''U-1''" "text_field application ''update_id'' = ''U-1''"
  "text_field proposal ''row_id'' = ''R-1''" "text_field approval ''row_id'' = ''R-2''" "text_field application ''row_id'' = ''R-3''"
  "text_field proposal ''transition'' = ''proposed''" "text_field approval ''transition'' = ''reviewed''"
  "text_field application ''transition'' = ''applied''"
  by (simp_all add: text_field_def draft_fields)

lemma sample_shape_1: "case update_shape (sealed_row 1 genesis genesis proposal) of Inl _ \<Rightarrow> False | Inr _ \<Rightarrow> True"
  by code_simp

lemma sample_shape_2: "case update_shape (sealed_row 2 demo_hash demo_hash approval) of Inl _ \<Rightarrow> False | Inr _ \<Rightarrow> True"
  by code_simp

lemma sample_shape_3: "case update_shape (sealed_row 3 demo_hash demo_hash application) of Inl _ \<Rightarrow> False | Inr _ \<Rightarrow> True"
  by code_simp

lemma sample_transition_1: "update_transition (sealed_row 1 genesis genesis proposal) None = Inr ()"
  by code_simp

lemma sample_transition_2:
  "update_transition (sealed_row 2 demo_hash demo_hash approval) (Some (sealed_row 1 genesis genesis proposal)) = Inr ()"
  by code_simp

lemma sample_transition_3:
  "update_transition (sealed_row 3 demo_hash demo_hash application) (Some (sealed_row 2 demo_hash demo_hash approval)) = Inr ()"
  by code_simp

lemma shape_passes: "case update_shape row of Inl _ \<Rightarrow> False | Inr _ \<Rightarrow> True \<Longrightarrow> update_shape row = Inr row"
  using update_shape_same[of row] by (auto split: sum.splits)

lemma sample_latest:
  "latest [] u = None" "latest [sealed_row 1 genesis genesis proposal] ''U-1'' = Some (sealed_row 1 genesis genesis proposal)"
  "latest [sealed_row 1 genesis genesis proposal, sealed_row 2 demo_hash demo_hash approval] ''U-1'' = Some (sealed_row 2 demo_hash demo_hash approval)"
  by (simp_all add: latest_def sealed_texts draft_texts)

lemma sample_row_1: "row_ok demo_digest [] (sealed_row 1 genesis genesis proposal)"
  by (simp add: row_ok_def shape_passes[OF sample_shape_1] sealed_fields sealed_texts draft_texts sample_latest
      sample_transition_1 seal_demo check_supersession_def head_hash_def)

lemma sample_row_2: "row_ok demo_digest [sealed_row 1 genesis genesis proposal] (sealed_row 2 demo_hash demo_hash approval)"
  by (simp add: row_ok_def shape_passes[OF sample_shape_2] sealed_fields sealed_texts draft_texts sample_latest
      sample_transition_2 seal_demo check_supersession_def head_hash_def flip: text_field_def)

lemma sample_row_3:
  "row_ok demo_digest [sealed_row 1 genesis genesis proposal, sealed_row 2 demo_hash demo_hash approval] (sealed_row 3 demo_hash demo_hash application)"
  by (simp add: row_ok_def shape_passes[OF sample_shape_3] sealed_fields sealed_texts draft_texts sample_latest
      sample_transition_3 seal_demo check_supersession_def head_hash_def flip: text_field_def)

lemma sample_updates_ok: "updates_ok demo_digest sample_updates"
proof -
  have "updates_ok demo_digest ((([] @ [sealed_row 1 genesis genesis proposal]) @ [sealed_row 2 demo_hash demo_hash approval]) @
      [sealed_row 3 demo_hash demo_hash application])"
    unfolding updates_ok_snoc using sample_row_1 sample_row_2 sample_row_3 by (simp add: updates_ok_def)
  then show ?thesis by (simp add: sample_updates_def)
qed

section \<open>A superseded update\<close>

definition superseded_updates :: "json list" where
  "superseded_updates = [sealed_row 1 genesis genesis proposal, sealed_row 2 demo_hash genesis counterproposal,
     sealed_row 3 demo_hash demo_hash supersession]"

lemma superseded_shape_2: "case update_shape (sealed_row 2 demo_hash genesis counterproposal) of Inl _ \<Rightarrow> False | Inr _ \<Rightarrow> True"
  by code_simp

lemma superseded_shape_3: "case update_shape (sealed_row 3 demo_hash demo_hash supersession) of Inl _ \<Rightarrow> False | Inr _ \<Rightarrow> True"
  by code_simp

lemma superseded_transition_2: "update_transition (sealed_row 2 demo_hash genesis counterproposal) None = Inr ()"
  by code_simp

lemma superseded_transition_3:
  "update_transition (sealed_row 3 demo_hash demo_hash supersession) (Some (sealed_row 1 genesis genesis proposal)) = Inr ()"
  by code_simp

lemma superseded_draft_fields:
  "fld counterproposal ''update_id'' = JStr ''U-2''" "fld supersession ''update_id'' = JStr ''U-1''"
  "fld counterproposal ''row_id'' = JStr ''R-4''" "fld supersession ''row_id'' = JStr ''R-5''"
  "fld counterproposal ''transition'' = JStr ''proposed''" "fld supersession ''transition'' = JStr ''superseded''"
  "fld supersession ''superseded_by_update_id'' = JStr ''U-2''"
  by code_simp+

lemma superseded_draft_texts:
  "text_field counterproposal ''update_id'' = ''U-2''" "text_field supersession ''update_id'' = ''U-1''"
  "text_field counterproposal ''row_id'' = ''R-4''" "text_field supersession ''row_id'' = ''R-5''"
  "text_field counterproposal ''transition'' = ''proposed''" "text_field supersession ''transition'' = ''superseded''"
  "text_field (sealed_row n prior update_prior supersession) ''superseded_by_update_id'' = ''U-2''"
  by (simp_all add: text_field_def superseded_draft_fields sealed_row_def fld_upd)

lemma superseded_latest:
  "latest [sealed_row 1 genesis genesis proposal] ''U-2'' = None"
  "latest [sealed_row 1 genesis genesis proposal, sealed_row 2 demo_hash genesis counterproposal] ''U-1'' =
     Some (sealed_row 1 genesis genesis proposal)"
  "latest [sealed_row 1 genesis genesis proposal, sealed_row 2 demo_hash genesis counterproposal] ''U-2'' =
     Some (sealed_row 2 demo_hash genesis counterproposal)"
  by (simp_all add: latest_def sealed_texts draft_texts superseded_draft_texts)

lemma superseded_row_2: "row_ok demo_digest [sealed_row 1 genesis genesis proposal] (sealed_row 2 demo_hash genesis counterproposal)"
  by (simp add: row_ok_def shape_passes[OF superseded_shape_2] sealed_fields sealed_texts draft_texts superseded_draft_texts
      superseded_latest superseded_transition_2 seal_demo check_supersession_def head_hash_def flip: text_field_def)

lemma superseded_check:
  "check_supersession (log_of [sealed_row 1 genesis genesis proposal, sealed_row 2 demo_hash genesis counterproposal])
     (sealed_row 3 demo_hash demo_hash supersession) = Inr ()"
proof -
  let ?rows = "[sealed_row 1 genesis genesis proposal, sealed_row 2 demo_hash genesis counterproposal]"
  have "''U-2'' \<in> set (proposals (log_of ?rows))"
    unfolding log_of_fields
    by (rule image_eqI[of _ _ "sealed_row 2 demo_hash genesis counterproposal"]) (simp_all add: sealed_texts superseded_draft_texts)
  moreover have "\<not> chase (lineage (log_of ?rows)) [''U-1''] ''U-2''"
    by (simp add: chase.simps[of _ _ "''U-2''"] log_of_fields superseded_latest sealed_texts superseded_draft_texts)
  ultimately show ?thesis
    by (simp add: check_supersession_def sealed_texts superseded_draft_texts guard_def)
qed

lemma superseded_row_3:
  "row_ok demo_digest [sealed_row 1 genesis genesis proposal, sealed_row 2 demo_hash genesis counterproposal]
     (sealed_row 3 demo_hash demo_hash supersession)"
  by (simp add: row_ok_def shape_passes[OF superseded_shape_3] sealed_fields sealed_texts draft_texts superseded_draft_texts
      superseded_latest superseded_transition_3 superseded_check seal_demo head_hash_def flip: text_field_def)

lemma superseded_updates_ok: "updates_ok demo_digest superseded_updates"
proof -
  have "updates_ok demo_digest ((([] @ [sealed_row 1 genesis genesis proposal]) @ [sealed_row 2 demo_hash genesis counterproposal]) @
      [sealed_row 3 demo_hash demo_hash supersession])"
    unfolding updates_ok_snoc using sample_row_1 superseded_row_2 superseded_row_3 by (simp add: updates_ok_def)
  then show ?thesis by (simp add: superseded_updates_def)
qed

section \<open>Instances\<close>

lemma update_lifecycle_witness:
  "\<exists>receipt. verify_updates demo_digest sample_updates = Inr receipt \<and>
     successively stage_step (map stage_of (rows_of ''U-1'' sample_updates))"
  using sample_updates_ok verify_updates_iff update_lifecycle by blast

lemma applied_needs_review_witness:
  "\<exists>review. review \<in> set [sealed_row 1 genesis genesis proposal, sealed_row 2 demo_hash demo_hash approval] \<and>
     approving_review review (sealed_row 3 demo_hash demo_hash application)"
proof -
  obtain receipt where "verify_updates demo_digest ([sealed_row 1 genesis genesis proposal, sealed_row 2 demo_hash demo_hash approval] @
      sealed_row 3 demo_hash demo_hash application # []) = Inr receipt"
    using sample_updates_ok verify_updates_iff[of demo_digest sample_updates] by (auto simp: sample_updates_def)
  from applied_needs_review[OF this] show ?thesis by (auto simp: sealed_texts draft_texts)
qed

lemma patches_in_scope_witness:
  "\<exists>path. pointer_segments (fld (hd (the_list (fld proposal ''proposed_patch''))) ''path'') = Inr path \<and>
     is_under path [''tasks'', text_field (sealed_row 1 genesis genesis proposal) ''target_task'']"
proof -
  obtain receipt where receipt: "verify_updates demo_digest sample_updates = Inr receipt"
    using sample_updates_ok verify_updates_iff by blast
  have "the_list (fld proposal ''proposed_patch'') \<noteq> []" by code_simp
  then show ?thesis
    using patches_in_scope[OF receipt, of "sealed_row 1 genesis genesis proposal" "hd (the_list (fld proposal ''proposed_patch''))"]
    by (auto simp: sample_updates_def sealed_fields)
qed

lemma append_reads_back_witness:
  "\<exists>file' row. append_update demo_digest demo_float None proposal (JStr (sha_prefix @ demo_hash)) = (file', Inr row) \<and>
     read_updates demo_digest demo_float file' = Inr [canon row]"
proof -
  have draft: "is_obj proposal" "keys_are proposal update_draft_keys" "is_hash True (JStr (sha_prefix @ demo_hash))"
    "fld proposal ''expected_board_sha256'' = JStr (sha_prefix @ demo_hash)" by code_simp+
  have "updates_ok demo_digest ([] @ [sealed_row 1 genesis genesis proposal])"
    unfolding updates_ok_snoc using sample_row_1 by (simp add: updates_ok_def)
  then obtain receipt where "verify_updates demo_digest [sealed_row 1 genesis genesis proposal] = Inr receipt"
    using verify_updates_iff by auto
  then have "build_row demo_digest proposal [] = Inr (sealed_row 1 genesis genesis proposal)"
    using draft by (simp add: build_row_def seal_demo update_upd latest_of_def head_hash_def flip: sealed_row_def)
  then obtain file' row where row: "append_update demo_digest demo_float None proposal (JStr (sha_prefix @ demo_hash)) = (file', Inr row)"
    using draft by (simp add: append_update_def append_log_def parse_bytes_def)
  have "python_value demo_float proposal" "utf8_value proposal" by code_simp+
  from append_reads_back[OF row this] show ?thesis using row by (auto simp: parse_bytes_def)
qed


lemma updates_tamper_evident_witness:
  "list_all2 same_content [sealed_row 1 genesis genesis proposal] [canon (sealed_row 1 genesis genesis proposal)]"
proof -
  let ?r = "sealed_row 1 genesis genesis proposal"
  have ok: "updates_ok demo_digest ([] @ [?r])" "updates_ok demo_digest ([] @ [canon ?r])"
    unfolding updates_ok_snoc using sample_row_1 row_ok_canon by (simp_all add: updates_ok_def)
  have obj: "is_obj ?r" by (simp add: sealed_row_def)
  obtain receipt receipt' where receipts: "verify_updates demo_digest [?r] = Inr receipt"
    "verify_updates demo_digest [canon ?r] = Inr receipt'" using ok verify_updates_iff by (metis append_Nil)
  moreover have "receipt' = receipt"
  proof -
    have "foldR (verify_update demo_digest) empty_log [?r] = Inr (log_of [?r])"
      "foldR (verify_update demo_digest) empty_log [canon ?r] = Inr (log_of [canon ?r])"
      using ok by (simp_all only: verify_rows_iff append_Nil)
    with receipts show ?thesis
      by (auto simp: verify_updates_def log_of_def add_row_def empty_log_def canon_simps simp del: foldR.simps)
  qed
  moreover have "no_collision demo_digest ''row_hash'' [?r] [canon ?r]"
    using obj by (simp add: no_collision_def canon_simps dumps_canon)
  moreover have "python_value demo_float ?r" "python_value demo_float (canon ?r)" by code_simp+
  then have "\<forall>r \<in> set [?r] \<union> set [canon ?r]. plain_object demo_float r"
    using obj by (simp add: plain_object_def)
  ultimately show ?thesis using updates_tamper_evident by metis
qed


lemma supersession_acyclic_witness:
  "(''U-1'', ''U-2'') \<in> replacements superseded_updates \<and> acyclic (replacements superseded_updates)"
proof -
  obtain receipt where receipt: "verify_updates demo_digest superseded_updates = Inr receipt"
    using superseded_updates_ok verify_updates_iff by blast
  have "(''U-1'', ''U-2'') \<in> replacements superseded_updates"
    unfolding replacements_def
    by (rule image_eqI[of _ _ "sealed_row 3 demo_hash demo_hash supersession"])
      (simp_all add: superseded_updates_def sealed_texts superseded_draft_texts)
  then show ?thesis using supersession_acyclic[OF receipt] by blast
qed

end
