(* ===== verification/Activity.thy ===== *)
theory Activity
  imports Protocol
begin

text \<open>
  The activity log, \<open>scripts/workgraph_activity.py\<close>: what agents report about tasks. Events are
  chained by hash; an event may reply to or correct an earlier event of the same task.
  \<open>verify_rows\<close> goes over the log three times: for the shape of every row, for duplicate ids and
  cycles of corrections, and for the chain and the references.
\<close>

section \<open>Vocabulary\<close>

definition event_kinds :: "string list" where
  "event_kinds = [''progress'', ''observation'', ''question'', ''concern'', ''blocker'',
     ''test_result'', ''decision_request'', ''handoff'', ''correction'']"

definition author_roles :: "string list" where
  "author_roles = [''Worker'', ''Tester'', ''Auditor'', ''Parent'', ''user'', ''system'']"

text \<open>\<open>IDENTITY_KEYS\<close> in the order they are checked\<close>

definition author_facts :: "string list" where
  "author_facts = [''agent_id'', ''agent_name'', ''model'', ''provider'', ''route_id'', ''runtime'']"

definition event_keys :: "string list" where
  "event_keys = [''schema_version'', ''event_id'', ''task_id'', ''sequence'', ''timestamp'',
     ''event_kind'', ''author_role'', ''identity'', ''body'', ''evidence'',
     ''reply_to'', ''correction_of'', ''board_sha256'', ''previous_event_hash'',
     ''event_hash'']"

definition event_draft_keys :: "string list" where
  "event_draft_keys = filter (\<lambda>k. k \<notin> set [''sequence'', ''previous_event_hash'', ''event_hash'']) event_keys"

definition event_evidence_keys :: "string list" where
  "event_evidence_keys = [''evidence_id'', ''locator'', ''digest'']"

abbreviation activity_error :: "string \<Rightarrow> 'a result" where
  "activity_error c \<equiv> Inl (ActivityError c)"

section \<open>The shape of an event\<close>

definition activity_string :: "json \<Rightarrow> string \<Rightarrow> string result" where
  "activity_string v c = require_string ActivityError v c"

definition activity_timestamp :: "json \<Rightarrow> unit result" where
  "activity_timestamp v = require_time ActivityError v ''activity_timestamp_invalid''"

definition activity_fact :: "json \<Rightarrow> string \<Rightarrow> bool \<Rightarrow> unit result" where
  "activity_fact v field observed = require_fact ActivityError ''activity'' v field observed"

definition activity_identity :: "json \<Rightarrow> unit result" where
  "activity_identity v =
     (if \<not> keys_are v author_facts then activity_error ''activity_identity_invalid''
      else eachR (\<lambda>field. activity_fact (fld v field) field (field = ''runtime'')) author_facts)"

definition evidence_entry :: "string list \<Rightarrow> json \<Rightarrow> string list result" where
  "evidence_entry seen entry =
     (if \<not> keys_are entry event_evidence_keys then activity_error ''activity_evidence_invalid''
      else bind (activity_string (fld entry ''evidence_id'') ''activity_evidence_id_invalid'') (\<lambda>evidence_id.
      bind (activity_string (fld entry ''locator'') ''activity_evidence_locator_invalid'') (\<lambda>_.
      if fld entry ''digest'' \<noteq> JStr ''unknown'' \<and> \<not> is_hash True (fld entry ''digest'')
      then activity_error ''activity_evidence_digest_invalid''
      else if evidence_id \<in> set seen then activity_error ''activity_evidence_duplicate''
      else Inr (evidence_id # seen))))"

definition activity_evidence :: "json \<Rightarrow> unit result" where
  "activity_evidence v =
     (if \<not> is_list v then activity_error ''activity_evidence_invalid''
      else bind (foldR evidence_entry [] (the_list v)) (\<lambda>_. Inr ()))"

definition reference_fields :: "string list" where
  "reference_fields = [''reply_to'', ''correction_of'']"

text \<open>the second half of \<open>_validate_shape\<close>: references and hashes\<close>

definition event_links_shape :: "json \<Rightarrow> unit result" where
  "event_links_shape row =
     bind (eachR (\<lambda>field. if fld row field = JNull then Inr []
         else activity_string (fld row field) (''activity_'' @ field @ ''_invalid'')) reference_fields) (\<lambda>_.
     let correction = (fld row ''event_kind'' = JStr ''correction''); target = fld row ''correction_of'' in
     if correction \<and> target = JNull then activity_error ''activity_correction_target_required''
     else if \<not> correction \<and> target \<noteq> JNull then activity_error ''activity_correction_kind_required''
     else if \<not> is_hash True (fld row ''board_sha256'') then activity_error ''activity_board_hash_invalid''
     else if \<not> is_hash False (fld row ''previous_event_hash'') then activity_error ''activity_previous_hash_invalid''
     else guard (is_hash False (fld row ''event_hash'')) (ActivityError ''activity_event_hash_invalid''))"

definition event_shape :: "json \<Rightarrow> json result" where
  "event_shape row =
     (if \<not> keys_are row event_keys then activity_error ''activity_row_shape_invalid''
      else bind (require_version ActivityError ''activity_schema'' (fld row ''schema_version'')) (\<lambda>_.
      bind (activity_string (fld row ''event_id'') ''activity_event_id_invalid'') (\<lambda>_.
      bind (activity_string (fld row ''task_id'') ''activity_task_id_invalid'') (\<lambda>_.
      bind (require_positive ActivityError (fld row ''sequence'') ''activity_sequence_invalid'') (\<lambda>_.
      bind (activity_timestamp (fld row ''timestamp'')) (\<lambda>_.
      bind (require_in ActivityError (fld row ''event_kind'') event_kinds ''activity_event_kind_invalid'') (\<lambda>_.
      bind (require_in ActivityError (fld row ''author_role'') author_roles ''activity_author_role_invalid'') (\<lambda>_.
      bind (activity_identity (fld row ''identity'')) (\<lambda>_.
      bind (activity_string (fld row ''body'') ''activity_body_invalid'') (\<lambda>_.
      bind (activity_evidence (fld row ''evidence'')) (\<lambda>_.
      bind (event_links_shape row) (\<lambda>_. Inr row))))))))))))"

section \<open>Verification\<close>

definition event_id :: "json \<Rightarrow> string" where
  "event_id row = the_str (fld row ''event_id'')"

text \<open>the pass for duplicate ids\<close>

definition distinct_events :: "json list \<Rightarrow> string list result" where
  "distinct_events rows = foldR (\<lambda>seen row. if event_id row \<in> set seen
     then activity_error ''activity_event_id_duplicate'' else Inr (event_id row # seen)) [] rows"

text \<open>the pass for cycles: from a correction follow the corrections; is one met twice?\<close>

definition correction_edges :: "json list \<Rightarrow> (string \<times> string) list" where
  "correction_edges rows = map (\<lambda>row. (event_id row, the_str (fld row ''correction_of'')))
     (filter (\<lambda>row. fld row ''correction_of'' \<noteq> JNull) rows)"

function correction_walk :: "(string \<times> string) list \<Rightarrow> string list \<Rightarrow> string \<Rightarrow> bool" where
  "correction_walk edges visited target = (case map_of edges target of
     None \<Rightarrow> False
   | Some next_target \<Rightarrow> if target \<in> set visited then True else correction_walk edges (target # visited) next_target)"
  by pat_completeness auto
termination
proof (relation "measure (\<lambda>(edges, visited, _). card (fst ` set edges - set visited))", goal_cases)
  case (2 edges visited target next_target)
  then have "target \<in> fst ` set edges - set visited" by (auto dest: map_of_SomeD intro: rev_image_eqI)
  then have "card (fst ` set edges - set (target # visited)) < card (fst ` set edges - set visited)"
    by (intro psubset_card_mono) auto
  then show ?case by simp
qed simp

declare correction_walk.simps [simp del]

definition acyclic_corrections :: "json list \<Rightarrow> unit result" where
  "acyclic_corrections rows = (let edges = correction_edges rows in
     eachR (\<lambda>e. guard (\<not> correction_walk edges [] e) (ActivityError ''activity_correction_cycle'')) (map fst edges))"

text \<open>the pass for the chain: the number of events, the last hash and the events by id\<close>

record activity_log =
  events_seen :: nat
  last_event_hash :: string
  by_id :: "(string \<times> json) list"

definition check_target :: "json list \<Rightarrow> (string \<times> json) list \<Rightarrow> json \<Rightarrow> string \<Rightarrow> unit result" where
  "check_target all_rows known row field = (let target = fld row field in
     if target = JNull then Inr ()
     else case map_of known (the_str target) of
       None \<Rightarrow> if the_str target \<notin> set (map event_id all_rows)
         then activity_error (''activity_'' @ field @ ''_target_missing'')
         else activity_error (''activity_'' @ field @ ''_target_not_prior'')
     | Some event \<Rightarrow> guard (fld event ''task_id'' = fld row ''task_id'') (ActivityError (''activity_'' @ field @ ''_task_mismatch'')))"

definition verify_event :: "(string \<Rightarrow> string) \<Rightarrow> json option \<Rightarrow> json list \<Rightarrow> activity_log \<Rightarrow> json \<Rightarrow> activity_log result" where
  "verify_event sha board all_rows log row =
     (if fld row ''sequence'' \<noteq> JInt (int (events_seen log) + 1) then activity_error ''activity_sequence_non_monotonic''
      else if the_str (fld row ''previous_event_hash'') \<noteq> last_event_hash log then activity_error ''activity_hash_chain_broken''
      else if seal sha ''event_hash'' row \<noteq> the_str (fld row ''event_hash'') then activity_error ''activity_event_hash_mismatch''
      else if board \<noteq> None \<and> fld row ''board_sha256'' \<noteq> the board then activity_error ''activity_board_hash_mismatch''
      else bind (eachR (check_target all_rows (by_id log) row) reference_fields) (\<lambda>_.
        Inr \<lparr>events_seen = Suc (events_seen log), last_event_hash = the_str (fld row ''event_hash''),
          by_id = AList.update (event_id row) row (by_id log)\<rparr>))"

definition verify_events :: "(string \<Rightarrow> string) \<Rightarrow> json option \<Rightarrow> json list \<Rightarrow> json result" where
  "verify_events sha board rows =
     bind (mapR event_shape rows) (\<lambda>validated.
     bind (distinct_events validated) (\<lambda>_.
     bind (acyclic_corrections validated) (\<lambda>_.
     bind (foldR (verify_event sha board validated) \<lparr>events_seen = 0, last_event_hash = genesis, by_id = []\<rparr> validated) (\<lambda>log.
     Inr (JObj [(''event_count'', JInt (int (length rows))), (''head_hash'', JStr (last_event_hash log)),
       (''schema_version'', JInt 1), (''status'', JStr ''valid'')])))))"

section \<open>The log file\<close>

definition parse_activity :: "(string \<Rightarrow> json) \<Rightarrow> string \<Rightarrow> bool \<Rightarrow> json list result" where
  "parse_activity flt raw allow_empty = parse_bytes flt ActivityError ''activity'' raw allow_empty"

definition read_activity :: "(string \<Rightarrow> string) \<Rightarrow> (string \<Rightarrow> json) \<Rightarrow> string option \<Rightarrow> json list result" where
  "read_activity sha flt file = (case file of
     None \<Rightarrow> activity_error ''activity_log_missing''
   | Some raw \<Rightarrow> bind (parse_activity flt raw False) (\<lambda>rows.
       bind (verify_events sha None rows) (\<lambda>_. Inr rows)))"

definition build_event :: "(string \<Rightarrow> string) \<Rightarrow> json \<Rightarrow> json list \<Rightarrow> json result" where
  "build_event sha draft rows =
     (if \<not> keys_are draft event_draft_keys then activity_error ''activity_draft_shape_invalid''
      else let row = upd ''event_hash'' (JStr genesis)
          (upd ''previous_event_hash'' (JStr (head_hash ''event_hash'' rows))
          (upd ''sequence'' (JInt (int (length rows) + 1)) draft));
          row' = upd ''event_hash'' (JStr (seal sha ''event_hash'' row)) row in
        bind (verify_events sha None (rows @ [row'])) (\<lambda>_. Inr row'))"

definition append_event :: "(string \<Rightarrow> string) \<Rightarrow> (string \<Rightarrow> json) \<Rightarrow> string option \<Rightarrow> json \<Rightarrow> string option \<times> json result" where
  "append_event sha flt file draft =
     append_log flt ActivityError ''activity'' (verify_events sha None) (build_event sha draft) file"

definition replay_activity :: "(string \<Rightarrow> string) \<Rightarrow> (string \<Rightarrow> json) \<Rightarrow> string option \<Rightarrow> string option \<Rightarrow> string option \<Rightarrow> json list result" where
  "replay_activity sha flt file task kind = bind (read_activity sha flt file) (\<lambda>rows.
     if kind \<noteq> None \<and> the kind \<notin> set event_kinds then activity_error ''activity_filter_kind_invalid''
     else Inr (filter (\<lambda>row. (task = None \<or> fld row ''task_id'' = JStr (the task)) \<and>
       (kind = None \<or> fld row ''event_kind'' = JStr (the kind))) rows))"

definition consume_activity :: "(string \<Rightarrow> string) \<Rightarrow> (string \<Rightarrow> json) \<Rightarrow> string option \<Rightarrow> json \<Rightarrow> json option \<Rightarrow> json result" where
  "consume_activity sha flt file cursor limit = bind (read_activity sha flt file) (\<lambda>rows.
     bind (consume_rows ActivityError ''activity'' ''event_hash'' rows cursor limit) (\<lambda>(cursor', selected).
     Inr (JObj [(''cursor'', cursor'), (''events'', JList selected),
       (''remaining'', JInt (int (length rows) - (the_int (fld cursor' ''next_sequence'') - 1))),
       (''status'', JStr ''ok'')])))"

end
