(* ===== verification/Notes.thy ===== *)
theory Notes
  imports Activity
begin

text \<open>
  Task notes, \<open>scripts/workgraph_notes.py\<close>: a front of the activity log. A note is an activity event;
  the script creates notes, presents them with their corrections and replies under filters, and keeps
  for each consumer (and task) a cursor file that says up to where the notes have been read. A failure
  of the activity log is reported under a code of its own. The files are a state: the activity log
  with its path, device and inode (the cursor is bound to these) and the cursor files by name; the
  checks that a name is no link or other alias, locks and temporary files are not modelled.
\<close>

abbreviation notes_error :: "string \<Rightarrow> 'a result" where
  "notes_error c \<equiv> Inl (NotesError c)"

section \<open>Ids and errors\<close>

definition safe_char :: "char \<Rightarrow> bool" where
  "safe_char c = (65 \<le> code c \<and> code c \<le> 90 \<or> 97 \<le> code c \<and> code c \<le> 122 \<or> 48 \<le> code c \<and> code c \<le> 57)"

text \<open>\<open>SAFE_ID.fullmatch(s)\<close>\<close>

definition safe_text :: "string \<Rightarrow> bool" where
  "safe_text s = (s \<noteq> [] \<and> safe_char (hd s) \<and> list_all (\<lambda>c. safe_char c \<or> c \<in> set ''._-'') (tl s) \<and> length s \<le> 128)"

definition safe_id :: "json \<Rightarrow> string \<Rightarrow> string result" where
  "safe_id v c = (if is_str v \<and> safe_text (the_str v) then Inr (the_str v) else notes_error c)"

text \<open>\<open>_translate\<close>, and an operation of the activity log under it\<close>

definition translate_error :: "exn \<Rightarrow> exn" where
  "translate_error e = (case e of ActivityError c \<Rightarrow> NotesError (''notes_underlying_'' @ c) | _ \<Rightarrow> e)"

definition underlying :: "'a result \<Rightarrow> 'a result" where
  "underlying r = (case r of Inl e \<Rightarrow> Inl (translate_error e) | Inr x \<Rightarrow> Inr x)"

definition note_rows :: "(string \<Rightarrow> string) \<Rightarrow> (string \<Rightarrow> json) \<Rightarrow> string \<Rightarrow> bool \<Rightarrow> json option \<Rightarrow> json list result" where
  "note_rows sha flt raw allow_empty board = underlying (bind (parse_activity flt raw allow_empty) (\<lambda>rows.
     bind (if rows = [] then Inr JNull else verify_events sha board rows) (\<lambda>_. Inr rows)))"

section \<open>Creating a note\<close>

definition check_draft :: "json \<Rightarrow> string \<Rightarrow> unit result" where
  "check_draft draft current =
     (if \<not> is_obj draft then notes_error ''notes_draft_invalid''
      else bind (safe_id (fld draft ''event_id'') ''notes_event_id_invalid'') (\<lambda>_.
      bind (safe_id (fld draft ''task_id'') ''notes_task_id_invalid'') (\<lambda>_.
      if fld draft ''board_sha256'' \<noteq> JStr current then notes_error ''notes_board_hash_stale''
      else if \<not> hashable (fld draft ''event_kind'') then Inl TypeError
      else guard (in_strs (fld draft ''event_kind'') event_kinds) (NotesError ''notes_kind_invalid''))))"

definition created :: "json \<Rightarrow> json \<Rightarrow> json" where
  "created kind row = JObj [(''authority_effect'', JStr ''none''), (''acceptance_effect'', JStr ''none''),
     (''decision_status'', JStr (if kind = JStr ''decision_request'' then ''pending'' else ''not_applicable'')),
     (''event'', row), (''operation'', JStr ''create''), (''protocol'', JStr ''workgraph_notes''),
     (''schema_version'', JInt 1), (''status'', JStr ''ok'')]"

definition create_note :: "(string \<Rightarrow> string) \<Rightarrow> (string \<Rightarrow> json) \<Rightarrow> string option \<Rightarrow> json \<Rightarrow> string \<Rightarrow> string option \<times> json result" where
  "create_note sha flt file draft current = (case check_draft draft current of
     Inl e \<Rightarrow> (file, Inl e)
   | Inr _ \<Rightarrow>
       let raw = (case file of None \<Rightarrow> [] | Some raw \<Rightarrow> raw);
         outcome = bind (note_rows sha flt raw True None) (\<lambda>rows. underlying (build_event sha draft rows)) in
       (Some (case outcome of Inl _ \<Rightarrow> raw | Inr row \<Rightarrow> raw @ dumps row @ newline),
        bind outcome (\<lambda>row. Inr (created (fld draft ''event_kind'') row))))"

section \<open>Corrections\<close>

text \<open>From a row follow \<open>correction_of\<close> to a row that is no correction; \<open>None\<close> when that never ends.\<close>

definition notes_by_id :: "json list \<Rightarrow> (string \<times> json) list" where
  "notes_by_id rows = foldl (\<lambda>d row. AList.update (event_id row) row d) [] rows"

partial_function (option) trace_root :: "(string \<times> json) list \<Rightarrow> json \<Rightarrow> json result option" where
  "trace_root known cursor =
     (if fld cursor ''correction_of'' = JNull then Some (Inr cursor)
      else case map_of known (the_str (fld cursor ''correction_of'')) of
        None \<Rightarrow> Some (Inl KeyError)
      | Some event \<Rightarrow> trace_root known event)"

fun trace_roots :: "(string \<times> json) list \<Rightarrow> (string \<times> string) list \<Rightarrow> json list \<Rightarrow> (string \<times> string) list result option" where
  "trace_roots known roots [] = Some (Inr roots)"
| "trace_roots known roots (row # rows) = (case trace_root known row of
     None \<Rightarrow> None
   | Some (Inl e) \<Rightarrow> Some (Inl e)
   | Some (Inr original) \<Rightarrow> trace_roots known (AList.update (event_id row) (event_id original) roots) rows)"

definition root_of :: "(string \<times> string) list \<Rightarrow> json \<Rightarrow> string" where
  "root_of roots row = the (map_of roots (event_id row))"

definition latest_rows :: "(string \<times> string) list \<Rightarrow> json list \<Rightarrow> (string \<times> json) list" where
  "latest_rows roots rows = foldl (\<lambda>d row. AList.update (root_of roots row) row d) [] rows"

definition presentation :: "string \<Rightarrow> string \<Rightarrow> string \<Rightarrow> json" where
  "presentation i root latest = JObj [(''corrected'', JBool (latest \<noteq> root)), (''current'', JBool (i = latest)),
     (''latest_event_id'', JStr latest), (''original_event_id'', JStr root), (''superseded'', JBool (i \<noteq> latest)),
     (''visible_marker'', JStr (if latest \<noteq> root then ''corrected'' else ''original''))]"

definition row_presentation :: "(string \<times> string) list \<Rightarrow> (string \<times> json) list \<Rightarrow> json \<Rightarrow> json" where
  "row_presentation roots latest row = (let root = root_of roots row in
     presentation (event_id row) root (event_id (the (map_of latest root))))"

definition correction_metadata :: "json list \<Rightarrow> json result option" where
  "correction_metadata rows = (case trace_roots (notes_by_id rows) [] rows of
     None \<Rightarrow> None
   | Some (Inl e) \<Rightarrow> Some (Inl e)
   | Some (Inr roots) \<Rightarrow> Some (Inr (JObj (foldl (\<lambda>d row.
       AList.update (event_id row) (row_presentation roots (latest_rows roots rows) row) d) [] rows))))"

section \<open>Filters\<close>

text \<open>the filters by a set of texts, with the field each selects on\<close>

definition text_filters :: "(string \<times> string) list" where
  "text_filters = [(''task_ids'', ''task_id''), (''event_ids'', ''event_id''), (''kinds'', ''event_kind''), (''roles'', ''author_role'')]"

definition filter_keys :: "string list" where
  "filter_keys = [''task_ids'', ''event_ids'', ''kinds'', ''roles'', ''identity'', ''evidence_presence'', ''corrected_state'', ''relationship'']"

definition identity_filter_keys :: "string list" where
  "identity_filter_keys = [''field'', ''value'', ''provenance'']"

definition note_relationship_keys :: "string list" where
  "note_relationship_keys = [''mode'', ''event_id'']"

definition relationship_modes :: "string list" where
  "relationship_modes = [''roots'', ''direct_replies'', ''descendants'', ''correction_targets'', ''corrected_history'']"

definition corrected_states :: "string list" where
  "corrected_states = [''current'', ''superseded'', ''corrected_history'', ''uncorrected'']"

definition identity_filter_ok :: "json \<Rightarrow> unit result" where
  "identity_filter_ok v =
     (if v = JNull then Inr ()
      else if \<not> is_obj v \<or> \<not> list_all (\<lambda>k. k \<in> set identity_filter_keys) (keys v) then notes_error ''notes_filter_identity_invalid''
      else if \<not> hashable (fld v ''field'') then Inl TypeError
      else guard (in_strs (fld v ''field'') author_facts \<and> is_str (fld v ''value'') \<and> (has_key v ''provenance'' \<longrightarrow> is_str (fld v ''provenance'')))
        (NotesError ''notes_filter_identity_invalid''))"

definition relationship_ok :: "json \<Rightarrow> unit result" where
  "relationship_ok v =
     (if v = JNull then Inr ()
      else if \<not> keys_are v note_relationship_keys then notes_error ''notes_filter_relationship_invalid''
      else if \<not> hashable (fld v ''mode'') then Inl TypeError
      else if \<not> in_strs (fld v ''mode'') relationship_modes then notes_error ''notes_filter_relationship_invalid''
      else if fld v ''mode'' = JStr ''roots'' then Inr ()
      else bind (safe_id (fld v ''event_id'') ''notes_filter_relationship_invalid'') (\<lambda>_. Inr ()))"

definition validate_filters :: "json \<Rightarrow> json result" where
  "validate_filters filters =
     (if filters = JNull then Inr (JObj [])
      else if \<not> is_obj filters \<or> \<not> list_all (\<lambda>k. k \<in> set filter_keys) (keys filters) then notes_error ''notes_filter_invalid''
      else if \<not> list_all (\<lambda>(k, _). has_key filters k \<longrightarrow> is_list (fld filters k) \<and> list_all is_str (the_list (fld filters k))) text_filters
      then notes_error ''notes_filter_invalid''
      else if has_key filters ''evidence_presence'' \<and> \<not> is_bool (fld filters ''evidence_presence'') then notes_error ''notes_filter_invalid''
      else if \<not> hashable (fld filters ''corrected_state'') then Inl TypeError
      else if fld filters ''corrected_state'' \<noteq> JNull \<and> \<not> in_strs (fld filters ''corrected_state'') corrected_states
      then notes_error ''notes_filter_invalid''
      else bind (identity_filter_ok (fld filters ''identity'')) (\<lambda>_.
        bind (relationship_ok (fld filters ''relationship'')) (\<lambda>_. Inr filters)))"

section \<open>Presenting notes\<close>

definition by_texts :: "json \<Rightarrow> json list \<Rightarrow> json list" where
  "by_texts filters rows = foldl (\<lambda>selected (key, field). if has_key filters key
     then filter (\<lambda>row. fld row field \<in> set (the_list (fld filters key))) selected else selected) rows text_filters"

definition by_evidence :: "json \<Rightarrow> json list \<Rightarrow> json list" where
  "by_evidence filters rows = (if has_key filters ''evidence_presence''
     then filter (\<lambda>row. fld filters ''evidence_presence'' = JBool (the_list (fld row ''evidence'') \<noteq> [])) rows else rows)"

definition by_identity :: "json \<Rightarrow> json list \<Rightarrow> json list" where
  "by_identity filters rows = (let wanted = fld filters ''identity'' in
     if wanted = JNull then rows
     else filter (\<lambda>row. let fact = fld (fld row ''identity'') (the_str (fld wanted ''field'')) in
       fld fact ''value'' = fld wanted ''value'' \<and>
       (has_key wanted ''provenance'' \<longrightarrow> fld fact ''provenance'' = fld wanted ''provenance'')) rows)"

text \<open>the metadata of a row, and a flag of it\<close>

definition about :: "json \<Rightarrow> json \<Rightarrow> json" where
  "about meta row = fld meta (event_id row)"

definition flagged :: "json \<Rightarrow> string \<Rightarrow> json \<Rightarrow> bool" where
  "flagged meta flag row = (fld (about meta row) flag = JBool True)"

definition by_state :: "json \<Rightarrow> json \<Rightarrow> json list \<Rightarrow> json list" where
  "by_state meta filters rows = (let state = fld filters ''corrected_state'' in
     if state = JNull then rows
     else filter (\<lambda>row. state = JStr ''current'' \<and> flagged meta ''current'' row \<or>
       state = JStr ''superseded'' \<and> flagged meta ''superseded'' row \<or>
       state = JStr ''corrected_history'' \<and> flagged meta ''corrected'' row \<or>
       state = JStr ''uncorrected'' \<and> \<not> flagged meta ''corrected'' row) rows)"

text \<open>
  The loop for the descendants: the replies to the frontier that are new are the next frontier. The
  sets are lists. Every round but the last adds an id of a row.
\<close>

definition new_replies :: "json list \<Rightarrow> string list \<Rightarrow> string list \<Rightarrow> string list" where
  "new_replies rows descendants frontier = filter (\<lambda>i. i \<notin> set descendants)
     (map event_id (filter (\<lambda>row. fld row ''reply_to'' \<in> set (map JStr frontier)) rows))"

lemma new_replies_fewer:
  assumes "new_replies rows descendants frontier \<noteq> []"
  shows "card (event_id ` set rows - set (descendants @ new_replies rows descendants frontier)) < card (event_id ` set rows - set descendants)"
proof -
  obtain i where "i \<in> set (new_replies rows descendants frontier)" using assms by (meson hd_in_set)
  moreover have "set (new_replies rows descendants frontier) \<subseteq> event_id ` set rows - set descendants"
    by (auto simp: new_replies_def)
  ultimately show ?thesis by (intro psubset_card_mono) auto
qed

function descendants_of :: "json list \<Rightarrow> string list \<Rightarrow> string list \<Rightarrow> string list" where
  "descendants_of rows descendants frontier = (if frontier = [] then descendants
     else let found = new_replies rows descendants frontier in descendants_of rows (descendants @ found) found)"
  by pat_completeness auto
termination
proof (relation "measure (\<lambda>(rows, descendants, frontier). 2 * card (event_id ` set rows - set descendants) + (if frontier = [] then 0 else 1))", goal_cases)
  case (2 rows descendants frontier found)
  then show ?case
    using new_replies_fewer[of rows descendants frontier] by (cases "found = []") auto
qed simp

declare descendants_of.simps [simp del]

definition by_relation :: "json list \<Rightarrow> json \<Rightarrow> json \<Rightarrow> json list \<Rightarrow> json list result" where
  "by_relation rows meta filters selected =
     (let relation = fld filters ''relationship''; mode = fld relation ''mode''; target = fld relation ''event_id'' in
      if relation = JNull then Inr selected
      else if mode = JStr ''roots'' then Inr (filter (\<lambda>row. fld row ''reply_to'' = JNull) selected)
      else if mode = JStr ''direct_replies'' then Inr (filter (\<lambda>row. fld row ''reply_to'' = target) selected)
      else if mode = JStr ''correction_targets'' then
        (let targets = filter (\<lambda>v. v \<noteq> JNull) (map (\<lambda>row. fld row ''correction_of'') rows) in
         Inr (filter (\<lambda>row. fld row ''event_id'' \<in> set targets \<and> (target = JNull \<or> fld row ''event_id'' = target)) selected))
      else if mode = JStr ''corrected_history'' then
        (if \<not> has_key meta (the_str target) then notes_error ''notes_filter_event_missing''
         else let root = fld (fld meta (the_str target)) ''original_event_id'' in
           Inr (filter (\<lambda>row. fld (about meta row) ''original_event_id'' = root) selected))
      else let descendants = descendants_of rows [] [the_str target] in
        Inr (filter (\<lambda>row. event_id row \<in> set descendants) selected))"

definition pending_decision :: json where
  "pending_decision = JObj [(''status'', JStr ''pending''), (''authority_effect'', JStr ''none''), (''acceptance_effect'', JStr ''none'')]"

definition presented :: "json \<Rightarrow> json \<Rightarrow> json" where
  "presented meta row = upd ''decision'' (if fld row ''event_kind'' = JStr ''decision_request'' then pending_decision else JNull)
     (upd ''presentation'' (about meta row) row)"

definition present_rows :: "json list \<Rightarrow> json \<Rightarrow> json result option" where
  "present_rows rows filters = (case validate_filters filters of
     Inl e \<Rightarrow> Some (Inl e)
   | Inr f \<Rightarrow> map_option (\<lambda>m. bind m (\<lambda>meta.
       bind (by_relation rows meta f (by_state meta f (by_identity f (by_evidence f (by_texts f rows))))) (\<lambda>selected.
       Inr (JObj [(''event_count'', JInt (int (length selected))), (''events'', JList (map (presented meta) selected)),
         (''operation'', JStr ''present''), (''protocol'', JStr ''workgraph_notes''),
         (''schema_version'', JInt 1), (''status'', JStr ''ok'')])))) (correction_metadata rows))"

section \<open>The files\<close>

record ledger_file =
  path_text :: string
  device :: int
  inode :: int
  bytes :: string

record notes_files =
  ledger :: "ledger_file option"
  cursors :: "(string \<times> string) list"

definition present_notes :: "(string \<Rightarrow> string) \<Rightarrow> (string \<Rightarrow> json) \<Rightarrow> notes_files \<Rightarrow> json \<Rightarrow> json option \<Rightarrow> json result option" where
  "present_notes sha flt files filters board = (case ledger files of
     None \<Rightarrow> Some (notes_error ''notes_activity_unavailable'')
   | Some file \<Rightarrow> (case note_rows sha flt (bytes file) False board of
       Inl e \<Rightarrow> Some (Inl e)
     | Inr rows \<Rightarrow> present_rows rows filters))"

section \<open>Cursors\<close>

definition note_cursor_keys :: "string list" where
  "note_cursor_keys = [''schema_version'', ''consumer_id'', ''ledger_path'', ''ledger_identity'', ''task_id'', ''next_sequence'', ''head_hash'']"

definition ledger_identity :: "(string \<Rightarrow> string) \<Rightarrow> ledger_file \<Rightarrow> string" where
  "ledger_identity sha file = sha (path_text file @ [byte 0] @ dec_int (device file) @ [byte 0] @ dec_int (inode file))"

text \<open>the name of the cursor file in \<open>cursors/notes\<close>\<close>

definition cursor_name :: "(string \<Rightarrow> string) \<Rightarrow> string \<Rightarrow> string option \<Rightarrow> string" where
  "cursor_name sha consumer task =
     consumer @ ''--'' @ (case task of None \<Rightarrow> ''global'' | Some t \<Rightarrow> ''task-'' @ sha t) @ ''.json''"

definition task_value :: "string option \<Rightarrow> json" where
  "task_value task = (case task of None \<Rightarrow> JNull | Some t \<Rightarrow> JStr t)"

definition note_cursor :: "ledger_file \<Rightarrow> string \<Rightarrow> string \<Rightarrow> string option \<Rightarrow> int \<Rightarrow> json \<Rightarrow> json" where
  "note_cursor file ident consumer task n head = JObj [(''schema_version'', JInt 1), (''consumer_id'', JStr consumer),
     (''ledger_path'', JStr (path_text file)), (''ledger_identity'', JStr ident), (''task_id'', task_value task),
     (''next_sequence'', JInt n), (''head_hash'', head)]"

text \<open>the decoding of a cursor file: what \<open>_load_cursor\<close> does not catch escapes\<close>

definition cursor_error :: "exn \<Rightarrow> exn" where
  "cursor_error e = (case e of JSONDecodeError \<Rightarrow> NotesError ''notes_cursor_corrupt''
     | ActivityError _ \<Rightarrow> NotesError ''notes_cursor_corrupt'' | _ \<Rightarrow> e)"

definition read_cursor :: "(string \<Rightarrow> json) \<Rightarrow> string \<Rightarrow> json result" where
  "read_cursor flt raw = (if \<not> utf8_ok raw then Inl UnicodeDecodeError
     else case loads flt (no_duplicates ActivityError ''activity'') raw of
       Inl e \<Rightarrow> Inl (cursor_error e)
     | Inr value \<Rightarrow> Inr value)"

definition load_cursor :: "(string \<Rightarrow> string) \<Rightarrow> (string \<Rightarrow> json) \<Rightarrow> (string \<times> string) list \<Rightarrow> ledger_file \<Rightarrow>
    string \<Rightarrow> string \<Rightarrow> string option \<Rightarrow> json result" where
  "load_cursor sha flt files file ident consumer task = (case map_of files (cursor_name sha consumer task) of
     None \<Rightarrow> Inr (note_cursor file ident consumer task 1 (JStr genesis))
   | Some raw \<Rightarrow> bind (read_cursor flt raw) (\<lambda>value.
       if \<not> keys_are value note_cursor_keys \<or> \<not> py_eq (fld value ''schema_version'') (JInt 1) \<or> is_bool (fld value ''schema_version'')
       then notes_error ''notes_cursor_corrupt''
       else if fld value ''consumer_id'' \<noteq> JStr consumer \<or> fld value ''task_id'' \<noteq> task_value task \<or>
         fld value ''ledger_path'' \<noteq> JStr (path_text file) \<or> fld value ''ledger_identity'' \<noteq> JStr ident
       then notes_error ''notes_cursor_other_ledger''
       else Inr value))"

definition cursor_position :: "json \<Rightarrow> json list \<Rightarrow> int result" where
  "cursor_position cursor rows = (let next = fld cursor ''next_sequence'' in
     if \<not> is_int next \<or> the_int next < 1 \<or> int (length rows) + 1 < the_int next then notes_error ''notes_cursor_stale''
     else if \<not> py_eq (fld cursor ''head_hash'') (prior_hash ''event_hash'' rows (the_int next)) then notes_error ''notes_cursor_stale''
     else Inr (the_int next))"

text \<open>what \<open>unread_notes\<close> and \<open>mark_read\<close> do under the lock: the log, its rows and the cursor in place\<close>

definition open_cursor :: "(string \<Rightarrow> string) \<Rightarrow> (string \<Rightarrow> json) \<Rightarrow> notes_files \<Rightarrow> string \<Rightarrow> string option \<Rightarrow> (ledger_file \<times> json list \<times> json) result" where
  "open_cursor sha flt files consumer task = (case ledger files of
     None \<Rightarrow> notes_error ''notes_activity_unavailable''
   | Some file \<Rightarrow>
       bind (safe_id (JStr consumer) ''notes_consumer_id_invalid'') (\<lambda>_.
       bind (case task of None \<Rightarrow> Inr [] | Some t \<Rightarrow> safe_id (JStr t) ''notes_task_id_invalid'') (\<lambda>_.
       bind (note_rows sha flt (bytes file) False None) (\<lambda>rows.
       bind (load_cursor sha flt (cursors files) file (ledger_identity sha file) consumer task) (\<lambda>cursor.
       bind (cursor_position cursor rows) (\<lambda>_. Inr (file, rows, cursor)))))))"

definition of_task :: "string option \<Rightarrow> json \<Rightarrow> bool" where
  "of_task task row = (task = None \<or> fld row ''task_id'' = task_value task)"

definition unread_notes :: "(string \<Rightarrow> string) \<Rightarrow> (string \<Rightarrow> json) \<Rightarrow> notes_files \<Rightarrow> string \<Rightarrow> string option \<Rightarrow> json result" where
  "unread_notes sha flt files consumer task = bind (open_cursor sha flt files consumer task) (\<lambda>(file, rows, cursor).
     let events = filter (of_task task) (drop (nat (the_int (fld cursor ''next_sequence'') - 1)) rows) in
     Inr (JObj [(''cursor'', cursor), (''event_count'', JInt (int (length events))), (''events'', JList events),
       (''operation'', JStr ''unread''), (''protocol'', JStr ''workgraph_notes''), (''schema_version'', JInt 1), (''status'', JStr ''ok'')]))"

definition mark_read :: "(string \<Rightarrow> string) \<Rightarrow> (string \<Rightarrow> json) \<Rightarrow> notes_files \<Rightarrow> string \<Rightarrow> string option \<Rightarrow> (notes_files \<times> json) result" where
  "mark_read sha flt files consumer task = bind (open_cursor sha flt files consumer task) (\<lambda>(file, rows, _).
     let cursor = note_cursor file (ledger_identity sha file) consumer task (int (length rows) + 1) (JStr (head_hash ''event_hash'' rows)) in
     Inr (files\<lparr>cursors := AList.update (cursor_name sha consumer task) (dumps cursor @ newline) (cursors files)\<rparr>,
       JObj [(''cursor'', cursor), (''operation'', JStr ''mark_read''), (''protocol'', JStr ''workgraph_notes''),
         (''schema_version'', JInt 1), (''status'', JStr ''ok'')]))"

end
