(* ===== verification/Activity_Log.thy ===== *)
theory Activity_Log
  imports Activity Canonical
begin

text \<open>
  Properties of the activity log. Verification goes over the whole log three times; it accepts
  exactly when every event, on its own, is right after the events before it, so the log can be
  extended event by event and the search for cycles of corrections never finds one in a log
  whose references point backwards.
\<close>

section \<open>One event after others\<close>

definition refers_back :: "json list \<Rightarrow> json \<Rightarrow> string \<Rightarrow> bool" where
  "refers_back before row field \<longleftrightarrow> fld row field = JNull \<or>
     (\<exists>event \<in> set before. event_id event = the_str (fld row field) \<and> fld event ''task_id'' = fld row ''task_id'')"

definition event_ok :: "(string \<Rightarrow> string) \<Rightarrow> json option \<Rightarrow> json list \<Rightarrow> json \<Rightarrow> bool" where
  "event_ok sha board before row \<longleftrightarrow> event_shape row = Inr row \<and>
     event_id row \<notin> event_id ` set before \<and>
     fld row ''sequence'' = JInt (int (length before) + 1) \<and>
     the_str (fld row ''previous_event_hash'') = head_hash ''event_hash'' before \<and>
     seal sha ''event_hash'' row = the_str (fld row ''event_hash'') \<and>
     (board = None \<or> board = Some (fld row ''board_sha256'')) \<and>
     (\<forall>field \<in> set reference_fields. refers_back before row field)"

definition events_ok :: "(string \<Rightarrow> string) \<Rightarrow> json option \<Rightarrow> json list \<Rightarrow> bool" where
  "events_ok sha board rows \<longleftrightarrow> (\<forall>i < length rows. event_ok sha board (take i rows) (rows ! i))"

lemma events_ok_Nil [simp]: "events_ok sha board []"
  by (simp add: events_ok_def)

lemma events_ok_snoc: "events_ok sha board (rows @ [r]) \<longleftrightarrow> events_ok sha board rows \<and> event_ok sha board rows r"
  by (auto simp: events_ok_def nth_append less_Suc_eq)

lemma event_shape_same: "event_shape v = Inr r \<Longrightarrow> r = v"
  by (auto simp: event_shape_def result_simps)

lemma events_ok_shapes: "events_ok sha board rows \<Longrightarrow> r \<in> set rows \<Longrightarrow> event_shape r = Inr r"
  by (induction rows rule: rev_induct) (auto simp: events_ok_snoc event_ok_def)

lemma events_ok_distinct: "events_ok sha board rows \<Longrightarrow> distinct (map event_id rows)"
  by (induction rows rule: rev_induct) (auto simp: events_ok_snoc event_ok_def)

section \<open>The three passes\<close>

lemma mapR_shapes: "mapR event_shape rows = Inr vs \<Longrightarrow> vs = rows \<and> (\<forall>r \<in> set rows. event_shape r = Inr r)"
  by (induction rows arbitrary: vs) (auto simp: bind_eq_Inr dest: event_shape_same)

lemma mapR_shapes_same: "(\<forall>r \<in> set rows. event_shape r = Inr r) \<Longrightarrow> mapR event_shape rows = Inr rows"
  by (induction rows) auto

lemma distinct_events_iff: "(\<exists>seen. distinct_events rows = Inr seen) \<longleftrightarrow> distinct (map event_id rows)"
proof -
  have "(\<exists>seen. foldR (\<lambda>seen row. if event_id row \<in> set seen
      then activity_error ''activity_event_id_duplicate'' else Inr (event_id row # seen)) acc rows = Inr seen) \<longleftrightarrow>
    distinct (map event_id rows) \<and> event_id ` set rows \<inter> set acc = {}" for acc
    by (induction rows arbitrary: acc) auto
  from this[of "[]"] show ?thesis by (simp add: distinct_events_def)
qed

text \<open>corrections that only point backwards have no cycle\<close>

definition ranked :: "(string \<times> string) list \<Rightarrow> (string \<Rightarrow> nat) \<Rightarrow> bool" where
  "ranked edges rank \<longleftrightarrow> (\<forall>(u, v) \<in> set edges. rank v < rank u)"

lemma ranked_walk: "ranked edges rank \<Longrightarrow> (\<forall>v \<in> set visited. rank target < rank v) \<Longrightarrow> \<not> correction_walk edges visited target"
proof (induction edges visited target rule: correction_walk.induct)
  case (1 edges visited target)
  show ?case
  proof (cases "map_of edges target")
    case None
    then show ?thesis by (simp add: correction_walk.simps[of edges visited target])
  next
    case (Some v)
    then have v: "rank v < rank target" using 1(2) by (auto simp: ranked_def dest!: map_of_SomeD)
    have target: "target \<notin> set visited" using 1(3) by auto
    have "\<forall>w \<in> set (target # visited). rank v < rank w" using v 1(3) by auto
    then have "\<not> correction_walk edges (target # visited) v" using 1(1)[OF Some target 1(2)] by blast
    then show ?thesis using Some target by (simp add: correction_walk.simps[of edges visited target])
  qed
qed

lemma events_ranked: "events_ok sha board rows \<Longrightarrow> \<exists>rank. ranked (correction_edges rows) rank"
proof (induction rows rule: rev_induct)
  case Nil
  then show ?case by (simp add: correction_edges_def ranked_def)
next
  case (snoc r rows)
  then have r: "events_ok sha board rows" "event_ok sha board rows r" by (simp_all add: events_ok_snoc)
  then obtain rank where rank: "ranked (correction_edges rows) rank" using snoc by blast
  define target where "target = the_str (fld r ''correction_of'')"
  have backward: "refers_back rows r ''correction_of''" using r(2) by (simp add: event_ok_def reference_fields_def)
  have fresh: "event_id r \<notin> event_id ` set rows" using r(2) by (simp add: event_ok_def)
  have prior: "v \<in> event_id ` set rows" if "(u, v) \<in> set (correction_edges rows)" for u v
  proof -
    from that obtain row where "row \<in> set rows" "fld row ''correction_of'' \<noteq> JNull" "v = the_str (fld row ''correction_of'')"
      by (auto simp: correction_edges_def)
    note row = this
    then obtain before later where split: "rows = before @ row # later" by (meson split_list)
    have "event_ok sha board before row"
      using r(1) unfolding events_ok_def split by (metis add.right_neutral append_eq_conv_conj length_append
        less_add_same_cancel1 list.size(4) nth_append_length zero_less_Suc add_Suc_right)
    then have "refers_back before row ''correction_of''" by (simp add: event_ok_def reference_fields_def)
    then obtain event where "event \<in> set before" "event_id event = v" using row by (auto simp: refers_back_def)
    then show ?thesis unfolding split by (intro image_eqI[of _ _ event]) simp_all
  qed
  have "ranked (correction_edges (rows @ [r])) (rank(event_id r := Suc (rank target)))"
  proof (unfold ranked_def, clarify)
    fix u v
    assume "(u, v) \<in> set (correction_edges (rows @ [r]))"
    then consider "(u, v) \<in> set (correction_edges rows)" | "u = event_id r" "v = target" "fld r ''correction_of'' \<noteq> JNull"
      by (auto simp: correction_edges_def target_def split: if_splits)
    then show "(rank(event_id r := Suc (rank target))) v < (rank(event_id r := Suc (rank target))) u"
    proof cases
      case 1
      then have "u \<in> event_id ` set rows" by (auto simp: correction_edges_def)
      then have "u \<noteq> event_id r" "v \<noteq> event_id r" using fresh prior[OF 1] by metis+
      then show ?thesis using 1 rank by (auto simp: ranked_def)
    next
      case 2
      then have "target \<in> event_id ` set rows" using backward unfolding refers_back_def target_def by (metis image_eqI)
      then have "target \<noteq> event_id r" using fresh by metis
      then show ?thesis using 2 by simp
    qed
  qed
  then show ?case by blast
qed

lemma events_acyclic: "events_ok sha board rows \<Longrightarrow> acyclic_corrections rows = Inr ()"
  using events_ranked ranked_walk[of "correction_edges rows" _ "[]"]
  by (fastforce simp: acyclic_corrections_def Let_def eachR_eq_Inr guard_eq_Inr)

text \<open>the state of the last pass is determined by the events read\<close>

definition activity_of :: "json list \<Rightarrow> activity_log" where
  "activity_of rows = \<lparr>events_seen = length rows, last_event_hash = head_hash ''event_hash'' rows,
     by_id = foldl (\<lambda>known row. AList.update (event_id row) row known) [] rows\<rparr>"

lemma by_id_of: "map_of (by_id (activity_of rows)) i = find (\<lambda>row. event_id row = i) (rev rows)"
  by (induction rows rule: rev_induct) (simp_all add: activity_of_def update_conv)

lemma check_target_iff:
  assumes "distinct (map event_id rows)"
  shows "check_target all_rows (by_id (activity_of rows)) row field = Inr () \<longleftrightarrow> refers_back rows row field"
proof (cases "fld row field = JNull")
  case False
  show ?thesis
  proof (cases "find (\<lambda>event. event_id event = the_str (fld row field)) (rev rows)")
    case None
    then have "\<not> refers_back rows row field" using False by (auto simp: refers_back_def find_None_iff)
    then show ?thesis using False None by (simp add: check_target_def Let_def by_id_of)
  next
    case (Some event)
    then have event: "event \<in> set rows" "event_id event = the_str (fld row field)"
      by (auto simp: find_Some_iff) (metis length_rev nth_mem set_rev)
    have "e = event" if "e \<in> set rows" "event_id e = the_str (fld row field)" for e
      using that event assms by (metis distinct_map inj_on_def)
    then have "refers_back rows row field \<longleftrightarrow> fld event ''task_id'' = fld row ''task_id''"
      using False event unfolding refers_back_def by metis
    then show ?thesis using False Some by (simp add: check_target_def Let_def by_id_of guard_eq_Inr)
  qed
qed (simp add: check_target_def refers_back_def)

lemma chain_iff:
  assumes "distinct (map event_id rows)" "\<forall>r \<in> set rows. event_shape r = Inr r"
  shows "foldR (verify_event sha board all_rows) (activity_of []) rows = Inr log \<longleftrightarrow> events_ok sha board rows \<and> log = activity_of rows"
  using assms
proof (induction rows arbitrary: log rule: rev_induct)
  case Nil
  then show ?case by auto
next
  case (snoc r rows)
  have "verify_event sha board all_rows (activity_of rows) r = Inr log \<longleftrightarrow> event_ok sha board rows r \<and> log = activity_of (rows @ [r])"
    using snoc.prems
    by (cases board) (auto simp: verify_event_def event_ok_def result_simps check_target_iff,
      auto simp: activity_of_def head_hash_def)
  then show ?case using snoc by (auto simp: foldR_snoc_Inr events_ok_snoc)
qed

lemma verify_events_iff: "(\<exists>receipt. verify_events sha board rows = Inr receipt) \<longleftrightarrow> events_ok sha board rows"
proof
  assume "\<exists>receipt. verify_events sha board rows = Inr receipt"
  then obtain receipt log where
    v: "mapR event_shape rows = Inr rows" "\<forall>r \<in> set rows. event_shape r = Inr r" "distinct (map event_id rows)"
      "foldR (verify_event sha board rows) (activity_of []) rows = Inr log"
    unfolding verify_events_def bind_eq_Inr using mapR_shapes distinct_events_iff
    by (auto simp: activity_of_def head_hash_def)
  then show "events_ok sha board rows" using chain_iff by blast
next
  assume ok: "events_ok sha board rows"
  then have shapes: "\<forall>r \<in> set rows. event_shape r = Inr r" and d: "distinct (map event_id rows)"
    using events_ok_shapes events_ok_distinct by blast+
  obtain seen where "distinct_events rows = Inr seen" using distinct_events_iff d by blast
  moreover have "foldR (verify_event sha board rows) (activity_of []) rows = Inr (activity_of rows)"
    using chain_iff[OF d shapes] ok by blast
  ultimately show "\<exists>receipt. verify_events sha board rows = Inr receipt"
    using mapR_shapes_same[OF shapes] events_acyclic[OF ok]
    by (simp add: verify_events_def activity_of_def head_hash_def)
qed

section \<open>Facts of an event\<close>

lemma event_shape_facts:
  assumes "event_shape row = Inr r"
  shows "keys_are row event_keys" "\<exists>i. fld row ''sequence'' = JInt i" "event_links_shape row = Inr ()"
    "is_hash False (fld row ''previous_event_hash'')" "is_hash False (fld row ''event_hash'')"
    "fld row ''event_kind'' = JStr ''correction'' \<longleftrightarrow> fld row ''correction_of'' \<noteq> JNull"
    "\<exists>i. fld row ''event_id'' = JStr i"
  using assms by (auto simp: event_shape_def event_links_shape_def activity_string_def result_simps Let_def)

lemma events_ok_split: "events_ok sha board (before @ row # later) \<Longrightarrow> event_ok sha board before row"
proof -
  assume "events_ok sha board (before @ row # later)"
  then show ?thesis unfolding events_ok_def
    by (drule_tac x = "length before" in spec) simp
qed

lemma events_ok_prefix: "events_ok sha board (before @ later) \<Longrightarrow> events_ok sha board before"
  by (induction later rule: rev_induct) (auto simp: events_ok_snoc simp flip: append_assoc)

interpretation events: hash_log sha "''event_hash''" "''previous_event_hash''" "events_ok sha board" for sha board
proof
  fix rows r
  assume "events_ok sha board (rows @ [r])"
  then have r: "events_ok sha board rows" "event_ok sha board rows r" by (simp_all add: events_ok_snoc)
  then show "events_ok sha board rows" by simp
  from r(2) have shape: "event_shape r = Inr r" by (simp add: event_ok_def)
  obtain h p where "fld r ''event_hash'' = JStr h" "fld r ''previous_event_hash'' = JStr p"
    using event_shape_facts(4,5)[OF shape] by (auto simp: is_hash_def split: json.splits)
  then show "fld r ''previous_event_hash'' = JStr (head_hash ''event_hash'' rows)"
    "fld r ''event_hash'' = JStr (seal sha ''event_hash'' r)"
    using r(2) by (simp_all add: event_ok_def)
qed

text \<open>
  C21: the three passes of the verifier accept a log with one more event exactly when they
  accept the log without it and the event is right after the events before it.
\<close>

theorem activity_incremental:
  "(\<exists>receipt. verify_events sha board (rows @ [row]) = Inr receipt) =
   ((\<exists>receipt. verify_events sha board rows = Inr receipt) \<and> event_ok sha board rows row)"
  unfolding verify_events_iff by (rule events_ok_snoc)

section \<open>Corrections\<close>

definition corrects :: "json list \<Rightarrow> (json \<times> json) set" where
  "corrects rows = {(row, event). row \<in> set rows \<and> event \<in> set rows \<and>
     fld row ''correction_of'' \<noteq> JNull \<and> event_id event = the_str (fld row ''correction_of'')}"

lemma corrects_mono: "set rows \<subseteq> set rows' \<Longrightarrow> corrects rows \<subseteq> corrects rows'"
  by (auto simp: corrects_def)

text \<open>
  In a verified activity log the corrections lead from every event to an original one, which
  is no correction, along events of the same task.
\<close>

theorem correction_has_original:
  assumes "verify_events sha board rows = Inr receipt" "row \<in> set rows"
  shows "\<exists>original. (row, original) \<in> (corrects rows)\<^sup>* \<and> original \<in> set rows \<and>
    fld original ''event_kind'' \<noteq> JStr ''correction'' \<and> fld original ''task_id'' = fld row ''task_id''"
proof -
  have "events_ok sha board rows" using assms(1) verify_events_iff by blast
  then show ?thesis using assms(2)
  proof (induction rows arbitrary: row rule: rev_induct)
    case (snoc r rows)
    then have r: "events_ok sha board rows" "event_ok sha board rows r" by (simp_all add: events_ok_snoc)
    have mono: "(corrects rows)\<^sup>* \<subseteq> (corrects (rows @ [r]))\<^sup>*" by (intro rtrancl_mono corrects_mono) auto
    have old: "\<exists>original. (event, original) \<in> (corrects (rows @ [r]))\<^sup>* \<and> original \<in> set (rows @ [r]) \<and>
        fld original ''event_kind'' \<noteq> JStr ''correction'' \<and> fld original ''task_id'' = fld event ''task_id''"
      if "event \<in> set rows" for event
      using snoc.IH[OF r(1) that] mono by auto
    show ?case
    proof (cases "row \<in> set rows")
      case False
      then have row: "row = r" using snoc.prems(2) by simp
      have shape: "event_shape r = Inr r" using r(2) by (simp add: event_ok_def)
      show ?thesis
      proof (cases "fld r ''correction_of'' = JNull")
        case True
        then have "fld r ''event_kind'' \<noteq> JStr ''correction''" using event_shape_facts(6)[OF shape] by simp
        then show ?thesis using row by auto
      next
        case correction: False
        have "refers_back rows r ''correction_of''" using r(2) by (simp add: event_ok_def reference_fields_def)
        then obtain event where event: "event \<in> set rows" "event_id event = the_str (fld r ''correction_of'')"
          "fld event ''task_id'' = fld r ''task_id''" using correction unfolding refers_back_def by metis
        then have "(r, event) \<in> corrects (rows @ [r])" using correction by (simp add: corrects_def)
        with old[OF event(1)] show ?thesis unfolding row event(3)[symmetric] by (meson converse_rtrancl_into_rtrancl)
      qed
    qed (use old in blast)
  qed simp
qed

section \<open>Appending\<close>

lemma activity_fact_canon [canon_simps]: "activity_fact (canon v) field observed = activity_fact v field observed"
  by (simp add: activity_fact_def canon_simps)

lemma activity_identity_canon [canon_simps]: "activity_identity (canon v) = activity_identity v"
  by (simp add: activity_identity_def canon_simps)

lemma evidence_entry_canon [canon_simps]: "evidence_entry seen (canon v) = evidence_entry seen v"
  unfolding evidence_entry_def activity_string_def canon_simps is_canon list.map_disc_iff ..

lemma activity_evidence_canon [canon_simps]: "activity_evidence (canon v) = activity_evidence v"
  by (simp add: activity_evidence_def canon_simps foldR_map)

lemma event_links_canon [canon_simps]: "event_links_shape (canon v) = event_links_shape v"
  unfolding event_links_shape_def Let_def activity_string_def canon_simps is_canon list.map_disc_iff ..

lemma event_shape_canon: "event_shape row = Inr row \<Longrightarrow> event_shape (canon row) = Inr (canon row)"
  by (auto simp: event_shape_def activity_string_def activity_timestamp_def result_simps canon_simps)

lemma event_id_canon [canon_simps]: "event_id (canon row) = event_id row"
  by (simp add: event_id_def canon_simps)

lemma plain_text_canon: "fld row k = JNull \<or> (\<exists>s. fld row k = JStr s) \<Longrightarrow> fld (canon row) k = fld row k"
  by (auto simp: canon_simps)

lemma refers_back_canon [canon_simps]:
  assumes "event_shape row = Inr row"
  shows "refers_back before (canon row) field = refers_back before row field"
proof -
  have "fld (canon row) ''task_id'' = fld row ''task_id''"
    using assms by (intro plain_text_canon) (auto simp: event_shape_def activity_string_def result_simps)
  then show ?thesis unfolding refers_back_def by (simp add: canon_simps)
qed

lemma event_ok_canon: "event_ok sha board rows row \<Longrightarrow> event_ok sha board rows (canon row)"
proof -
  assume ok: "event_ok sha board rows row"
  then have shape: "event_shape row = Inr row" by (simp add: event_ok_def)
  then have obj: "is_obj row" using event_shape_facts(1) by (auto simp: keys_are_iff)
  have "is_hash True (fld row ''board_sha256'')"
    using event_shape_facts(3)[OF shape] by (auto simp: event_links_shape_def result_simps Let_def)
  then have "fld (canon row) ''board_sha256'' = fld row ''board_sha256''"
    by (intro plain_text_canon) (auto simp: is_hash_def split: json.splits)
  then show ?thesis using ok event_shape_canon[OF shape] obj shape
    by (simp add: event_ok_def canon_simps)
qed

lemma build_event_ok:
  assumes "build_event sha draft rows = Inr row"
  shows "event_ok sha None rows row"
proof -
  from assms have "\<exists>receipt. verify_events sha None (rows @ [row]) = Inr receipt"
    by (auto simp: build_event_def Let_def result_simps)
  then show ?thesis by (simp add: verify_events_iff events_ok_snoc)
qed

lemma build_event_value:
  assumes "build_event sha draft rows = Inr row" "plain_object flt draft" "utf8_value draft"
  shows "plain_object flt row \<and> utf8_value row"
proof -
  from assms(1) obtain h where row: "row = upd ''event_hash'' (JStr h) (upd ''event_hash'' (JStr genesis)
      (upd ''previous_event_hash'' (JStr (head_hash ''event_hash'' rows)) (upd ''sequence'' (JInt (int (length rows) + 1)) draft)))"
    by (auto simp: build_event_def Let_def result_simps)
  have "event_shape row = Inr row" using build_event_ok[OF assms(1)] by (simp add: event_ok_def)
  then have "is_hash False (fld row ''previous_event_hash'')" "is_hash False (fld row ''event_hash'')"
    using event_shape_facts(4,5) by blast+
  then have "is_hash False (JStr (head_hash ''event_hash'' rows))" "is_hash False (JStr h)"
    by (simp_all add: row fld_upd)
  note good = this[THEN hash_value[of _ flt]]
  have g: "utf8_value (JStr genesis)" by code_simp
  have names: "utf8_ok ''event_hash''" "utf8_ok ''previous_event_hash''" "utf8_ok ''sequence''" by code_simp+
  have "plain_object flt row" unfolding row using good assms(2) by (intro plain_upd) simp_all
  moreover have "utf8_value row" unfolding row using good g names assms(2,3)
    by (intro utf8_value_upd) (simp_all add: plain_object_def)
  ultimately show ?thesis ..
qed

interpretation activity_file: log_file flt ActivityError "''activity''" "verify_events sha None" "build_event sha" "events_ok sha None" for flt sha
proof
  fix draft rows row
  assume "build_event sha draft rows = Inr row" "events_ok sha None rows" "plain_object flt draft" "utf8_value draft"
  then show "plain_object flt row \<and> utf8_value row \<and> events_ok sha None (rows @ [canon row])"
    using build_event_value event_ok_canon build_event_ok by (simp add: events_ok_snoc)
qed (simp_all add: verify_events_iff)

text \<open>
  C22: an event that is appended is read back: the log is the old one followed by the event, in
  canonical form, and its old bytes are unchanged.
\<close>

theorem append_event_reads_back:
  assumes "append_event sha flt content draft = (content', Inr row)" "plain_object flt draft" "utf8_value draft"
  shows "\<exists>raw rows. raw = (case content of None \<Rightarrow> [] | Some raw \<Rightarrow> raw) \<and> content' = Some (raw @ row_line row) \<and>
    parse_activity flt raw True = Inr rows \<and> read_activity sha flt content' = Inr (rows @ [canon row])"
proof -
  from activity_file.read_back[OF assms(1)[unfolded append_event_def] assms(2,3)] obtain raw rows where
    raw: "raw = (case content of None \<Rightarrow> [] | Some raw \<Rightarrow> raw)" "content' = Some (raw @ row_line row)"
    "parse_bytes flt ActivityError ''activity'' raw True = Inr rows"
    "parse_bytes flt ActivityError ''activity'' (raw @ row_line row) False = Inr (rows @ [canon row])"
    "events_ok sha None (rows @ [canon row])" by blast
  then obtain receipt where "verify_events sha None (rows @ [canon row]) = Inr receipt" using verify_events_iff by blast
  then show ?thesis using raw by (simp add: read_activity_def parse_activity_def)
qed

text \<open>
  Whatever a consumer of the activity log that keeps its cursor has been given is the log's
  beginning, each event once and in order, and its next call without a limit gives it the rest.
\<close>

theorem activity_consumed_once:
  assumes "reading (\<lambda>rows. verify_events sha board rows \<in> range Inr) (consume_rows ActivityError ''activity'' ''event_hash'') log cursor given"
  shows "given = take (length given) log \<and>
    (\<exists>cursor'. consume_rows ActivityError ''activity'' ''event_hash'' log cursor None = Inr (cursor', drop (length given) log))"
proof -
  have "(\<lambda>rows. verify_events sha board rows \<in> range Inr) = events_ok sha board"
    by (rule ext) (simp add: verify_events_iff[symmetric] image_iff)
  then show ?thesis using events.reading_exact assms by simp
qed

end
