(* ===== verification/Notes_Properties.thy ===== *)
theory Notes_Properties
  imports Notes Activity_Log
begin

text \<open>
  Properties of the notes: for a verified log the loops of the presentation end, every note is traced
  to its original and every family of corrections has one current note; and the descendants presented
  are the closure of the replies.
\<close>

section \<open>Dictionaries built row by row\<close>

lemma find_last: "find P (rev xs) = (if filter P xs = [] then None else Some (last (filter P xs)))"
  by (induction xs rule: rev_induct) simp_all

lemma rows_by_key: "map_of (foldl (\<lambda>d row. AList.update (g row) (f row) d) d0 rows) k =
    (case find (\<lambda>row. g row = k) (rev rows) of None \<Rightarrow> map_of d0 k | Some row \<Rightarrow> Some (f row))"
  by (induction rows rule: rev_induct) (simp_all add: update_conv)

lemma rows_by_id:
  assumes "distinct (map event_id rows)" "row \<in> set rows"
  shows "map_of (foldl (\<lambda>d row. AList.update (event_id row) (f row) d) d0 rows) (event_id row) = Some (f row)"
proof -
  let ?same = "filter (\<lambda>r. event_id r = event_id row) rows"
  have some: "?same \<noteq> []" using assms(2) by (auto simp: filter_empty_conv)
  then have "last ?same \<in> set ?same" by (rule last_in_set)
  then have "last ?same = row" using assms by (simp add: distinct_map inj_on_def)
  then show ?thesis using some by (simp add: rows_by_key find_last)
qed

lemma note_rows_ok: "note_rows sha flt raw allow_empty board = Inr rows \<Longrightarrow> events_ok sha board rows"
  by (auto simp: note_rows_def underlying_def bind_eq_Inr split: sum.splits if_splits)
    (use verify_events_iff in blast)

section \<open>Originals\<close>

definition original_of :: "json list \<Rightarrow> json \<Rightarrow> json \<Rightarrow> bool" where
  "original_of rows row original \<longleftrightarrow> original \<in> set rows \<and> (row, original) \<in> (corrects rows)\<^sup>* \<and> fld original ''correction_of'' = JNull"

lemma corrects_unique:
  assumes "distinct (map event_id rows)"
  shows "single_valued (corrects rows)"
proof (rule single_valuedI)
  fix row a b
  assume "(row, a) \<in> corrects rows" "(row, b) \<in> corrects rows"
  then have "a \<in> set rows" "b \<in> set rows" "event_id a = event_id b" by (auto simp: corrects_def)
  then show "a = b" using assms by (metis distinct_map inj_on_def)
qed

lemma original_unique:
  assumes "distinct (map event_id rows)" "original_of rows row a" "original_of rows row b"
  shows "a = b"
proof -
  have "(a, b) \<in> (corrects rows)\<^sup>* \<or> (b, a) \<in> (corrects rows)\<^sup>*"
    using single_valued_confluent[OF corrects_unique[OF assms(1)]] assms(2,3) by (auto simp: original_of_def)
  moreover have "y = x" if "(x, y) \<in> (corrects rows)\<^sup>*" "fld x ''correction_of'' = JNull" for x y
    using that by (auto simp: corrects_def elim: converse_rtranclE)
  ultimately show ?thesis using assms(2,3) by (auto simp: original_of_def)
qed

lemma traced:
  assumes "events_ok sha board rows" "row \<in> set rows"
  shows "\<exists>original. trace_root (notes_by_id rows) row = Some (Inr original) \<and> original_of rows row original"
proof -
  have "\<exists>original. trace_root (notes_by_id rows) (rows ! n) = Some (Inr original) \<and> original_of rows (rows ! n) original"
    if "n < length rows" for n
    using that
  proof (induction n rule: less_induct)
    case (less n)
    let ?row = "rows ! n"
    show ?case
    proof (cases "fld ?row ''correction_of'' = JNull")
      case True
      then show ?thesis using less.prems by (subst trace_root.simps) (simp add: original_of_def)
    next
      case False
      have "refers_back (take n rows) ?row ''correction_of''"
        using assms(1) less.prems by (simp add: events_ok_def event_ok_def reference_fields_def)
      then obtain event where event: "event \<in> set (take n rows)" "event_id event = the_str (fld ?row ''correction_of'')"
        using False by (auto simp: refers_back_def)
      then obtain m where m: "m < n" "event = rows ! m" by (auto simp: in_set_conv_nth)
      then have "event \<in> set rows" using less.prems by simp
      then have known: "map_of (notes_by_id rows) (the_str (fld ?row ''correction_of'')) = Some event"
        unfolding notes_by_id_def event(2)[symmetric] by (rule rows_by_id[OF events_ok_distinct[OF assms(1)]])
      have step: "(?row, event) \<in> corrects rows" using False event(2) \<open>event \<in> set rows\<close> less.prems by (simp add: corrects_def)
      obtain original where "trace_root (notes_by_id rows) event = Some (Inr original)" "original_of rows event original"
        using less.IH[OF m(1)] less.prems m by auto
      then show ?thesis using False known step
        by (subst trace_root.simps) (auto simp: original_of_def intro: converse_rtrancl_into_rtrancl)
    qed
  qed
  then show ?thesis using assms(2) by (auto simp: in_set_conv_nth)
qed

lemma traced_all:
  assumes "\<forall>row \<in> set rows. trace_root known row = Some (Inr (f row))"
  shows "trace_roots known roots rows = Some (Inr (foldl (\<lambda>d row. AList.update (event_id row) (event_id (f row)) d) roots rows))"
  using assms by (induction rows arbitrary: roots) simp_all

text \<open>The metadata of a verified log: the original of each row, and the last row with this original\<close>

definition latest_note :: "json list \<Rightarrow> json \<Rightarrow> json" where
  "latest_note rows original = last (filter (\<lambda>row. (row, original) \<in> (corrects rows)\<^sup>*) rows)"

lemma latest_exists:
  "original \<in> set rows \<Longrightarrow> latest_note rows original \<in> set rows \<and> (latest_note rows original, original) \<in> (corrects rows)\<^sup>*"
  unfolding latest_note_def using last_in_set[of "filter (\<lambda>row. (row, original) \<in> (corrects rows)\<^sup>*) rows"]
  by (auto simp: filter_empty_conv)

lemma metadata_of:
  assumes "events_ok sha board rows"
  obtains f meta where "correction_metadata rows = Some (Inr meta)"
    "\<And>row. row \<in> set rows \<Longrightarrow> original_of rows row (f row)"
    "\<And>row. row \<in> set rows \<Longrightarrow> about meta row = presentation (event_id row) (event_id (f row)) (event_id (latest_note rows (f row)))"
proof -
  note distinct = events_ok_distinct[OF assms]
  obtain f where f: "\<forall>row \<in> set rows. trace_root (notes_by_id rows) row = Some (Inr (f row)) \<and> original_of rows row (f row)"
    using traced[OF assms] by metis
  define roots where "roots = foldl (\<lambda>d row. AList.update (event_id row) (event_id (f row)) d) [] rows"
  have root: "root_of roots row = event_id (f row)" if "row \<in> set rows" for row
    using rows_by_id[OF distinct that, of "\<lambda>r. event_id (f r)" "[]"] by (simp add: root_of_def roots_def)
  have latest: "map_of (latest_rows roots rows) (event_id (f row)) = Some (latest_note rows (f row))" if row: "row \<in> set rows" for row
  proof -
    have "root_of roots r = event_id (f row) \<longleftrightarrow> (r, f row) \<in> (corrects rows)\<^sup>*" if r: "r \<in> set rows" for r
    proof -
      have o: "original_of rows r (f r)" "original_of rows row (f row)" using f row r by auto
      have "event_id (f r) = event_id (f row) \<longleftrightarrow> f r = f row"
        using o distinct by (metis distinct_map inj_on_def original_of_def)
      also have "\<dots> \<longleftrightarrow> (r, f row) \<in> (corrects rows)\<^sup>*"
        using o original_unique[OF distinct o(1)] by (metis original_of_def)
      finally show ?thesis using root[OF r] by simp
    qed
    then have same: "filter (\<lambda>r. root_of roots r = event_id (f row)) rows = filter (\<lambda>r. (r, f row) \<in> (corrects rows)\<^sup>*) rows"
      by (rule filter_cong[OF refl])
    have "filter (\<lambda>r. (r, f row) \<in> (corrects rows)\<^sup>*) rows \<noteq> []"
      using row f by (auto simp: filter_empty_conv original_of_def)
    then show ?thesis by (simp add: latest_rows_def rows_by_key find_last same latest_note_def)
  qed
  show ?thesis
  proof
    show "correction_metadata rows = Some (Inr (JObj (foldl (\<lambda>d row.
        AList.update (event_id row) (row_presentation roots (latest_rows roots rows) row) d) [] rows)))"
      using traced_all[of rows "notes_by_id rows" f "[]"] f by (simp add: correction_metadata_def roots_def)
    show "about (JObj (foldl (\<lambda>d row. AList.update (event_id row) (row_presentation roots (latest_rows roots rows) row) d) [] rows)) row =
        presentation (event_id row) (event_id (f row)) (event_id (latest_note rows (f row)))" if "row \<in> set rows" for row
      using rows_by_id[OF distinct that, of "row_presentation roots (latest_rows roots rows)" "[]"]
      by (simp add: about_def fld_def get_def) (simp add: row_presentation_def root[OF that] latest[OF that])
  qed (use f in blast)
qed

lemma presentation_fields:
  "fld (presentation i root latest) ''original_event_id'' = JStr root" "fld (presentation i root latest) ''latest_event_id'' = JStr latest"
  "fld (presentation i root latest) ''current'' = JBool (i = latest)" "fld (presentation i root latest) ''superseded'' = JBool (i \<noteq> latest)"
  "fld (presentation i root latest) ''corrected'' = JBool (latest \<noteq> root)"
  by (simp_all add: presentation_def fld_JObj_Cons)

text \<open>
  C23: in the metadata of a verified log every note has the original its corrections lead back to, a
  note of the same task that corrects nothing; of the notes with the same original exactly the last in
  the log is current, the others are superseded, and they count as corrected when it is not the
  original. Tracing the corrections ends for every note.
\<close>

theorem corrections_presented:
  assumes "note_rows sha flt raw allow_empty board = Inr rows"
  shows "\<exists>meta. correction_metadata rows = Some (Inr meta) \<and> (\<forall>row \<in> set rows. \<exists>original \<in> set rows.
    (row, original) \<in> (corrects rows)\<^sup>* \<and> fld original ''correction_of'' = JNull \<and> fld original ''task_id'' = fld row ''task_id'' \<and>
    fld (about meta row) ''original_event_id'' = JStr (event_id original) \<and>
    fld (about meta row) ''latest_event_id'' = JStr (event_id (latest_note rows original)) \<and>
    fld (about meta row) ''current'' = JBool (row = latest_note rows original) \<and>
    fld (about meta row) ''superseded'' = JBool (row \<noteq> latest_note rows original) \<and>
    fld (about meta row) ''corrected'' = JBool (latest_note rows original \<noteq> original))"
proof -
  note ok = note_rows_ok[OF assms]
  note distinct = events_ok_distinct[OF ok]
  obtain f meta where meta: "correction_metadata rows = Some (Inr meta)" "\<And>row. row \<in> set rows \<Longrightarrow> original_of rows row (f row)"
    "\<And>row. row \<in> set rows \<Longrightarrow> about meta row = presentation (event_id row) (event_id (f row)) (event_id (latest_note rows (f row)))"
    using that by (rule metadata_of[OF ok])
  have same: "event_id a = event_id b \<longleftrightarrow> a = b" if "a \<in> set rows" "b \<in> set rows" for a b
    using that distinct by (metis distinct_map inj_on_def)
  have "f row \<in> set rows \<and> (row, f row) \<in> (corrects rows)\<^sup>* \<and> fld (f row) ''correction_of'' = JNull \<and> fld (f row) ''task_id'' = fld row ''task_id'' \<and>
      fld (about meta row) ''original_event_id'' = JStr (event_id (f row)) \<and>
      fld (about meta row) ''latest_event_id'' = JStr (event_id (latest_note rows (f row))) \<and>
      fld (about meta row) ''current'' = JBool (row = latest_note rows (f row)) \<and>
      fld (about meta row) ''superseded'' = JBool (row \<noteq> latest_note rows (f row)) \<and>
      fld (about meta row) ''corrected'' = JBool (latest_note rows (f row) \<noteq> f row)" if row: "row \<in> set rows" for row
  proof -
    have o: "f row \<in> set rows" "(row, f row) \<in> (corrects rows)\<^sup>*" "fld (f row) ''correction_of'' = JNull"
      using meta(2)[OF row] by (auto simp: original_of_def)
    obtain receipt where "verify_events sha board rows = Inr receipt" using ok verify_events_iff by blast
    from correction_has_original[OF this row] obtain original where original: "(row, original) \<in> (corrects rows)\<^sup>*" "original \<in> set rows"
      "fld original ''event_kind'' \<noteq> JStr ''correction''" "fld original ''task_id'' = fld row ''task_id''" by blast
    then have "original_of rows row original"
      using event_shape_facts(6)[OF events_ok_shapes[OF ok original(2)]] by (auto simp: original_of_def)
    then have task: "fld (f row) ''task_id'' = fld row ''task_id''"
      using original_unique[OF distinct meta(2)[OF row]] original(4) by blast
    have latest: "latest_note rows (f row) \<in> set rows" using latest_exists[OF o(1)] by blast
    show ?thesis
      unfolding meta(3)[OF row] presentation_fields same[OF row latest] same[OF latest o(1)] 
      by (intro conjI refl o task)
  qed
  then show ?thesis using meta(1) by blast
qed

section \<open>Replies\<close>

definition replies :: "json list \<Rightarrow> (string \<times> string) set" where
  "replies rows = {(i, event_id row) | i row. row \<in> set rows \<and> fld row ''reply_to'' = JStr i}"

lemma set_new_replies: "set (new_replies rows descendants frontier) = replies rows `` set frontier - set descendants"
  by (auto simp: new_replies_def replies_def)

lemma descendants_step: "(a, b) \<in> (replies rows)\<^sup>+ \<Longrightarrow> (b, c) \<in> replies rows \<Longrightarrow> (a, c) \<in> (replies rows)\<^sup>+"
  by (rule trancl_into_trancl)

lemma descendants_reached:
  assumes "set frontier \<subseteq> insert t (set descendants)" "\<forall>i \<in> set descendants. (t, i) \<in> (replies rows)\<^sup>+"
    "replies rows `` (insert t (set descendants) - set frontier) \<subseteq> set descendants"
  shows "set (descendants_of rows descendants frontier) = {i. (t, i) \<in> (replies rows)\<^sup>+}"
  using assms
proof (induction rows descendants frontier rule: descendants_of.induct)
  case (1 rows descendants frontier)
  show ?case
  proof (cases "frontier = []")
    case True
    have "(t, i) \<in> (replies rows)\<^sup>+ \<Longrightarrow> i \<in> set descendants" for i
      by (induction rule: trancl_induct) (use 1(4) True in auto)
    then show ?thesis using True 1(3) by (auto simp: descendants_of.simps[of rows descendants])
  next
    case False
    let ?found = "new_replies rows descendants frontier"
    have "set (descendants_of rows (descendants @ ?found) ?found) = {i. (t, i) \<in> (replies rows)\<^sup>+}"
    proof (rule 1(1)[OF False refl])
      show "set ?found \<subseteq> insert t (set (descendants @ ?found))" by auto
      show "\<forall>i \<in> set (descendants @ ?found). (t, i) \<in> (replies rows)\<^sup>+"
        using 1(2,3) by (auto simp: set_new_replies intro: descendants_step)
      show "replies rows `` (insert t (set (descendants @ ?found)) - set ?found) \<subseteq> set (descendants @ ?found)"
        using 1(4) by (auto simp: set_new_replies)
    qed
    then show ?thesis using False by (simp add: descendants_of.simps[of rows descendants] Let_def)
  qed
qed

lemma descendants_exact: "set (descendants_of rows [] [t]) = {i. (t, i) \<in> (replies rows)\<^sup>+}"
  by (rule descendants_reached) auto

definition descendants_filter :: "string \<Rightarrow> json" where
  "descendants_filter target = JObj [(''relationship'', JObj [(''mode'', JStr ''descendants''), (''event_id'', JStr target)])]"

text \<open>
  C24: asked for the descendants of an event, the presentation of a verified log gives, in the order of
  the log, exactly the notes that reply to it directly or through other replies: the loop over
  frontiers of replies ends and misses none.
\<close>

theorem descendants_presented:
  assumes "ledger files = Some file" "note_rows sha flt (bytes file) False board = Inr rows" "safe_text target"
  shows "\<exists>answer. present_notes sha flt files (descendants_filter target) board = Some (Inr answer) \<and>
    map event_id (the_list (fld answer ''events'')) = map event_id (filter (\<lambda>row. (target, event_id row) \<in> (replies rows)\<^sup>+) rows)"
proof -
  let ?filter = "descendants_filter target"
  obtain meta where meta: "correction_metadata rows = Some (Inr meta)"
    by (rule metadata_of[OF note_rows_ok[OF assms(2)]])
  have valid: "validate_filters ?filter = Inr ?filter"
    using assms(3) by (simp add: validate_filters_def descendants_filter_def filter_keys_def text_filters_def keys_def fld_JObj_Cons fld_JObj_Nil
        has_key_def get_def identity_filter_ok_def relationship_ok_def keys_are_def note_relationship_keys_def in_strs_def
        relationship_modes_def safe_id_def hashable_def)
  have all: "by_state meta ?filter (by_identity ?filter (by_evidence ?filter (by_texts ?filter rows))) = rows"
    by (simp add: by_state_def by_identity_def by_evidence_def by_texts_def text_filters_def descendants_filter_def has_key_def get_def
        fld_JObj_Cons fld_JObj_Nil)
  have "by_relation rows meta ?filter rows = Inr (filter (\<lambda>row. (target, event_id row) \<in> (replies rows)\<^sup>+) rows)"
    by (simp add: by_relation_def descendants_filter_def fld_JObj_Cons fld_JObj_Nil descendants_exact)
  moreover have "event_id (presented meta row) = event_id row" for row
    by (simp add: event_id_def presented_def fld_upd)
  ultimately show ?thesis
    by (simp add: present_notes_def assms(1,2) present_rows_def valid meta all fld_JObj_Cons comp_def)
qed

end
