(* ===== verification/Notes_Cursors.thy ===== *)
theory Notes_Cursors
  imports Notes_Properties
begin

text \<open>
  Writing notes and marking them as read: creating a note is appending an activity event under the codes
  of the notes, and a cursor that was written is read back and stands where the consumer left.
\<close>

section \<open>Creating\<close>

lemma note_rows_parsed: "note_rows sha flt raw True None = underlying (bind (parse_activity flt raw True) (\<lambda>rows.
    bind (if rows = [] then Inr JNull else verify_events sha None rows) (\<lambda>_. Inr rows)))"
  by (simp add: note_rows_def)

lemma underlying_bind: "underlying (bind m f) = bind (underlying m) (\<lambda>x. underlying (f x))"
  by (cases m) (simp_all add: underlying_def)

lemma underlying_simps [simp]: "underlying (Inl e) = Inl (translate_error e)" "underlying (Inr x) = Inr x"
  by (simp_all add: underlying_def)

text \<open>what is done under the lock is \<open>append_event\<close>, its failures translated\<close>

lemma create_note_appends:
  assumes "check_draft draft current = Inr u"
  shows "create_note sha flt file draft current =
    (fst (append_event sha flt file draft),
     bind (underlying (snd (append_event sha flt file draft))) (\<lambda>row. Inr (created (fld draft ''event_kind'') row)))"
proof -
  define raw where "raw = (case file of None \<Rightarrow> [] | Some raw \<Rightarrow> raw)"
  define out where "out = bind (parse_activity flt raw True) (\<lambda>rows.
    bind (if rows = [] then Inr JNull else verify_events sha None rows) (\<lambda>_. build_event sha draft rows))"
  have "bind (note_rows sha flt raw True None) (\<lambda>rows. underlying (build_event sha draft rows)) = underlying out"
    by (simp add: note_rows_parsed underlying_bind bind_assoc out_def)
  moreover have "append_event sha flt file draft = (Some (case out of Inl _ \<Rightarrow> raw | Inr row \<Rightarrow> raw @ dumps row @ newline), out)"
    by (simp only: append_event_def append_log_def parse_activity_def Let_def out_def raw_def)
  ultimately show ?thesis using assms
    by (cases out) (simp_all add: create_note_def flip: raw_def)
qed

lemma created_note_reads_back:
  assumes "create_note sha flt file draft current = (file', Inr answer)" "plain_object flt draft" "utf8_value draft"
  shows "\<exists>rows. note_rows sha flt (case file of None \<Rightarrow> [] | Some raw \<Rightarrow> raw) True None = Inr rows \<and>
    file' = Some ((case file of None \<Rightarrow> [] | Some raw \<Rightarrow> raw) @ row_line (fld answer ''event'')) \<and>
    note_rows sha flt (the file') False None = Inr (rows @ [canon (fld answer ''event'')])"
proof -
  obtain u where check: "check_draft draft current = Inr u"
    using assms(1) by (auto simp: create_note_def split: sum.splits)
  obtain row where row: "append_event sha flt file draft = (file', Inr row)" and answer: "fld answer ''event'' = row"
    using assms(1) unfolding create_note_appends[OF check]
    by (cases "append_event sha flt file draft"; cases "snd (append_event sha flt file draft)")
      (auto simp: created_def fld_JObj_Cons)
  from activity_file.read_back[OF row[unfolded append_event_def] assms(2,3)] obtain raw rows where
    raw: "raw = (case file of None \<Rightarrow> [] | Some raw \<Rightarrow> raw)" "file' = Some (raw @ row_line row)"
    "parse_bytes flt ActivityError ''activity'' raw True = Inr rows"
    "parse_bytes flt ActivityError ''activity'' (raw @ row_line row) False = Inr (rows @ [canon row])"
    "events_ok sha None (rows @ [canon row])" by blast
  then obtain r s where "verify_events sha None (rows @ [canon row]) = Inr r" "verify_events sha None rows = Inr s"
    using verify_events_iff events_ok_prefix by metis
  then show ?thesis using raw by (auto simp: note_rows_def parse_activity_def answer)
qed

section \<open>Cursors\<close>

lemma safe_text_utf8: "safe_text s \<Longrightarrow> utf8_ok s"
proof -
  assume s: "safe_text s"
  then have "list_all (\<lambda>c. safe_char c \<or> c \<in> set ''._-'') s" by (cases s) (auto simp: safe_text_def)
  moreover have "safe_char c \<or> c \<in> set ''._-'' \<Longrightarrow> code c < 128" for c by (auto simp: safe_char_def code_def)
  ultimately have "list_all (\<lambda>c. code c < 128) s" by (auto simp: list_all_iff)
  then show "utf8_ok s" by (rule utf8_ok_ascii)
qed

lemma safe_id_eq_Inr [result_simps]: "safe_id v c = Inr s \<longleftrightarrow> v = JStr s \<and> safe_text s"
  by (cases v) (auto simp: safe_id_def)

lemma open_cursor_eq_Inr:
  "open_cursor sha flt files consumer task = Inr (file, rows, cursor) \<longleftrightarrow>
    ledger files = Some file \<and> safe_text consumer \<and> (\<forall>t. task = Some t \<longrightarrow> safe_text t) \<and>
    note_rows sha flt (bytes file) False None = Inr rows \<and>
    load_cursor sha flt (cursors files) file (ledger_identity sha file) consumer task = Inr cursor \<and>
    (\<exists>n. cursor_position cursor rows = Inr n)"
  by (auto simp: open_cursor_def result_simps split: option.splits)

lemma cursor_reads_back:
  assumes "utf8_ok consumer" "utf8_ok (path_text file)" "utf8_ok ident" "utf8_value (task_value task)" "utf8_ok head"
  shows "read_cursor flt (dumps (note_cursor file ident consumer task n (JStr head)) @ newline) =
    Inr (canon (note_cursor file ident consumer task n (JStr head)))"
proof -
  let ?c = "note_cursor file ident consumer task n (JStr head)"
  have names: "list_all utf8_ok (map fst (the_obj ?c))" unfolding note_cursor_def by code_simp
  have "python_value flt (task_value task)" by (simp add: task_value_def split: option.splits)
  then have plain: "python_value flt ?c" "is_obj ?c" by (simp_all add: note_cursor_def)
  have "utf8_value ?c" using assms names by (simp add: note_cursor_def)
  then have "utf8_ok (dumps ?c @ newline)"
    using utf8_ok_append[OF utf8_ok_dumps] utf8_ok_ascii[of newline] by (simp add: newline_def)
  moreover have "skip newline = []" by code_simp
  ultimately show ?thesis
    using loads_object_text[OF no_duplicates_keeps plain] by (simp add: read_cursor_def)
qed

text \<open>Bytes that do not decode escape as \<open>UnicodeDecodeError\<close>: only the errors of the parser are caught.\<close>

lemma undecodable_cursor_escapes:
  assumes "map_of (cursors files) (cursor_name sha consumer task) = Some raw" "\<not> utf8_ok raw"
    "ledger files = Some file" "note_rows sha flt (bytes file) False None = Inr rows"
    "safe_text consumer" "\<forall>t. task = Some t \<longrightarrow> safe_text t"
  shows "unread_notes sha flt files consumer task = Inl UnicodeDecodeError"
  using assms by (cases task) (simp_all add: unread_notes_def open_cursor_def load_cursor_def read_cursor_def safe_id_def)

lemma cursor_accepted:
  assumes "map_of files (cursor_name sha consumer task) = Some raw" "read_cursor flt raw = Inr (canon (note_cursor file ident consumer task n head))"
  shows "load_cursor sha flt files file ident consumer task = Inr (canon (note_cursor file ident consumer task n head))"
proof -
  have "canon (task_value task) = task_value task" by (simp add: task_value_def split: option.splits)
  then show ?thesis using assms
    by (simp add: load_cursor_def canon_simps) (simp add: note_cursor_def note_cursor_keys_def keys_are_def keys_def fld_JObj_Cons canon_simps)
qed

lemma head_value:
  assumes "events_ok sha board rows"
  shows "utf8_ok (head_hash ''event_hash'' rows)" "rows \<noteq> [] \<Longrightarrow> fld (last rows) ''event_hash'' = JStr (head_hash ''event_hash'' rows)"
proof -
  have g: "utf8_ok genesis" by code_simp
  have last: "fld (last rows) ''event_hash'' = JStr (head_hash ''event_hash'' rows) \<and> utf8_ok (head_hash ''event_hash'' rows)" if "rows \<noteq> []"
  proof -
    have "is_hash False (fld (last rows) ''event_hash'')"
      using event_shape_facts(5)[OF events_ok_shapes[OF assms last_in_set[OF that]]] .
    moreover obtain h where "fld (last rows) ''event_hash'' = JStr h" using calculation by (auto simp: is_hash_def split: json.splits)
    ultimately show ?thesis using hash_value[of "fld (last rows) ''event_hash''"] that by (simp add: head_hash_def)
  qed
  show "utf8_ok (head_hash ''event_hash'' rows)" using last g by (cases "rows = []") (simp_all add: head_hash_def)
  show "rows \<noteq> [] \<Longrightarrow> fld (last rows) ''event_hash'' = JStr (head_hash ''event_hash'' rows)" using last by blast
qed


end
