(* ===== verification/Activity_Sample.thy ===== *)
theory Activity_Sample
  imports Activity_Log Demo
begin

text \<open>
  A concrete activity log, an observation and its correction, and instances of the properties.
\<close>

definition observation :: json where
  "observation =
     JObj [(''schema_version'', JInt 1), (''event_id'', JStr ''E-1''), (''task_id'', JStr ''T-1''),
       (''timestamp'', JStr ''2026-01-01T00:00:00Z''), (''event_kind'', JStr ''observation''),
       (''author_role'', JStr ''Worker''),
       (''identity'', JObj [(''agent_name'', JObj [(''value'', JStr ''unknown''), (''provenance'', JStr ''unknown'')]),
          (''agent_id'', JObj [(''value'', JStr ''agent-1''), (''provenance'', JStr ''parent_assigned'')]),
          (''provider'', JObj [(''value'', JStr ''unknown''), (''provenance'', JStr ''unknown'')]),
          (''model'', JObj [(''value'', JStr ''unknown''), (''provenance'', JStr ''unknown'')]),
          (''route_id'', JObj [(''value'', JStr ''unknown''), (''provenance'', JStr ''unknown'')]),
          (''runtime'', JObj [(''value'', JStr ''unknown''), (''provenance'', JStr ''unknown'')])]),
       (''body'', JStr ''The build passes.''),
       (''evidence'', JList [JObj [(''evidence_id'', JStr ''EV-1''), (''locator'', JStr ''logs/build.txt''),
          (''digest'', JStr ''unknown'')]]),
       (''reply_to'', JNull), (''correction_of'', JNull), (''board_sha256'', JStr (sha_prefix @ demo_hash))]"

definition correction :: json where
  "correction = upd ''event_id'' (JStr ''E-2'') (upd ''event_kind'' (JStr ''correction'')
     (upd ''body'' (JStr ''The build fails.'') (upd ''correction_of'' (JStr ''E-1'') observation)))"

definition sealed_event :: "int \<Rightarrow> string \<Rightarrow> json \<Rightarrow> json" where
  "sealed_event n prior draft = upd ''event_hash'' (JStr demo_hash) (upd ''previous_event_hash'' (JStr prior)
     (upd ''sequence'' (JInt n) draft))"

definition sample_events :: "json list" where
  "sample_events = [sealed_event 1 genesis observation, sealed_event 2 demo_hash correction]"

lemma observation_shape: "case event_shape (sealed_event 1 genesis observation) of Inl _ \<Rightarrow> False | Inr _ \<Rightarrow> True"
  by code_simp

lemma correction_shape: "case event_shape (sealed_event 2 demo_hash correction) of Inl _ \<Rightarrow> False | Inr _ \<Rightarrow> True"
  by code_simp

lemma event_shape_passes: "case event_shape row of Inl _ \<Rightarrow> False | Inr _ \<Rightarrow> True \<Longrightarrow> event_shape row = Inr row"
  using event_shape_same[of row] by (auto split: sum.splits)

lemma sample_event_fields:
  "fld observation ''event_id'' = JStr ''E-1''" "fld correction ''event_id'' = JStr ''E-2''"
  "fld observation ''task_id'' = JStr ''T-1''" "fld correction ''task_id'' = JStr ''T-1''"
  "fld observation ''reply_to'' = JNull" "fld correction ''reply_to'' = JNull"
  "fld observation ''correction_of'' = JNull" "fld correction ''correction_of'' = JStr ''E-1''"
  by code_simp+

lemma sealed_event_fields:
  "fld (sealed_event n prior draft) ''event_hash'' = JStr demo_hash" "fld (sealed_event n prior draft) ''sequence'' = JInt n"
  "fld (sealed_event n prior draft) ''previous_event_hash'' = JStr prior"
  "fld (sealed_event n prior draft) ''task_id'' = fld draft ''task_id''"
  "fld (sealed_event n prior draft) ''reply_to'' = fld draft ''reply_to''"
  "fld (sealed_event n prior draft) ''correction_of'' = fld draft ''correction_of''"
  "event_id (sealed_event n prior draft) = event_id draft"
  by (simp_all add: sealed_event_def event_id_def fld_upd)

lemma observation_ok: "event_ok demo_digest None [] (sealed_event 1 genesis observation)"
  by (simp add: event_ok_def event_shape_passes[OF observation_shape] sealed_event_fields sample_event_fields
      reference_fields_def refers_back_def head_hash_def seal_demo)

lemma correction_ok: "event_ok demo_digest None [sealed_event 1 genesis observation] (sealed_event 2 demo_hash correction)"
  by (simp add: event_ok_def event_shape_passes[OF correction_shape] sealed_event_fields sample_event_fields
      reference_fields_def refers_back_def head_hash_def seal_demo event_id_def[of observation] event_id_def[of correction])

lemma sample_events_ok: "events_ok demo_digest None sample_events"
proof -
  have "events_ok demo_digest None (([] @ [sealed_event 1 genesis observation]) @ [sealed_event 2 demo_hash correction])"
    unfolding events_ok_snoc using observation_ok correction_ok by simp
  then show ?thesis by (simp add: sample_events_def)
qed

section \<open>Instances\<close>

lemma correction_has_original_witness:
  "\<exists>original. (sealed_event 2 demo_hash correction, original) \<in> (corrects sample_events)\<^sup>* \<and>
     fld original ''event_kind'' \<noteq> JStr ''correction''"
proof -
  obtain receipt where "verify_events demo_digest None sample_events = Inr receipt"
    using sample_events_ok verify_events_iff by blast
  from correction_has_original[OF this, of "sealed_event 2 demo_hash correction"] show ?thesis
    by (auto simp: sample_events_def)
qed

lemma append_event_reads_back_witness:
  "\<exists>content' row. append_event demo_digest demo_float None observation = (content', Inr row) \<and>
     read_activity demo_digest demo_float content' = Inr [canon row]"
proof -
  have draft: "keys_are observation event_draft_keys" "python_value demo_float observation" "utf8_value observation"
    by code_simp+
  then have plain: "plain_object demo_float observation" by (simp add: plain_object_def keys_are_iff)
  have "events_ok demo_digest None ([] @ [sealed_event 1 genesis observation])"
    unfolding events_ok_snoc using observation_ok by simp
  then obtain receipt where "verify_events demo_digest None [sealed_event 1 genesis observation] = Inr receipt"
    using verify_events_iff by (metis append_Nil)
  then have "build_event demo_digest observation [] = Inr (sealed_event 1 genesis observation)"
    using draft by (simp add: build_event_def seal_demo update_upd head_hash_def flip: sealed_event_def)
  then obtain content' row where row: "append_event demo_digest demo_float None observation = (content', Inr row)"
    by (simp add: append_event_def append_log_def parse_bytes_def)
  from append_event_reads_back[OF row plain draft(3)] row show ?thesis by (auto simp: parse_activity_def parse_bytes_def)
qed

lemma activity_consumed_once_witness:
  "\<exists>cursor'. consume_rows ActivityError ''activity'' ''event_hash'' sample_events (cursor_at ''event_hash'' sample_events ''reader'' 0) None =
     Inr (cursor', sample_events)"
proof -
  have "verify_events demo_digest None sample_events \<in> range Inr"
    using sample_events_ok verify_events_iff[of demo_digest None sample_events] by auto
  moreover have "\<not> blank ''reader''" by code_simp
  ultimately have "reading (\<lambda>rows. verify_events demo_digest None rows \<in> range Inr)
      (consume_rows ActivityError ''activity'' ''event_hash'')
      sample_events (cursor_at ''event_hash'' sample_events ''reader'' 0) []"
    using reading.start[of "\<lambda>rows. verify_events demo_digest None rows \<in> range Inr"] by (simp add: cursor_at_def head_hash_def)
  from activity_consumed_once[OF this] show ?thesis by simp
qed

end
