(* ===== verification/Notes_Sample.thy ===== *)
theory Notes_Sample
  imports Notes_Cursors Activity_Sample
begin

text \<open>
  A log of two notes, an observation and a correction that also replies to it, and instances of the
  properties of the notes.
\<close>

definition answer_note :: json where
  "answer_note = upd ''reply_to'' (JStr ''E-1'') correction"

definition first_note :: json where
  "first_note = sealed_event 1 genesis observation"

definition second_note :: json where
  "second_note = sealed_event 2 demo_hash answer_note"

lemma notes_plain:
  "plain_object demo_float first_note" "utf8_value first_note" "plain_object demo_float second_note" "utf8_value second_note"
proof -
  have "python_value demo_float first_note \<and> utf8_value first_note \<and> python_value demo_float second_note \<and> utf8_value second_note"
    by code_simp
  then show "plain_object demo_float first_note" "utf8_value first_note" "plain_object demo_float second_note" "utf8_value second_note"
    by (simp_all add: plain_object_def) (simp_all add: first_note_def second_note_def sealed_event_def)
qed

lemma notes_shapes:
  "case event_shape second_note of Inl _ \<Rightarrow> False | Inr _ \<Rightarrow> True" "event_id answer_note = ''E-2''"
  "fld answer_note ''task_id'' = JStr ''T-1''" "fld answer_note ''reply_to'' = JStr ''E-1''" "fld answer_note ''correction_of'' = JStr ''E-1''"
  by code_simp+

lemma second_ok: "event_ok demo_digest None [canon first_note] second_note"
proof -
  have "event_id observation = ''E-1''" by code_simp
  then show ?thesis
    using event_shape_passes[OF notes_shapes(1)]
    by (simp add: event_ok_def second_note_def first_note_def sealed_event_fields sample_event_fields notes_shapes
        reference_fields_def refers_back_def head_hash_def seal_demo canon_simps)
qed

lemma notes_ok: "events_ok demo_digest None [canon first_note]" "events_ok demo_digest None [canon first_note, canon second_note]"
proof -
  have one: "event_ok demo_digest None [] (canon first_note)" unfolding first_note_def by (rule event_ok_canon[OF observation_ok])
  have "events_ok demo_digest None ([] @ [canon first_note])" unfolding events_ok_snoc using one by simp
  moreover have "events_ok demo_digest None ([canon first_note] @ [canon second_note])"
    unfolding events_ok_snoc using calculation event_ok_canon[OF second_ok] by simp
  ultimately show "events_ok demo_digest None [canon first_note]" "events_ok demo_digest None [canon first_note, canon second_note]" by simp_all
qed

lemma first_log: "note_rows demo_digest demo_float (row_line first_note) False None = Inr [canon first_note]"
proof -
  have "parse_bytes demo_float ActivityError ''activity'' [] True = Inr []" by (simp add: parse_bytes_def)
  from parse_bytes_append[OF this notes_plain(1,2)] show ?thesis
    using notes_ok(1) verify_events_iff[of demo_digest None "[canon first_note]"]
    by (auto simp: note_rows_def parse_activity_def)
qed

lemma second_log: "note_rows demo_digest demo_float (row_line first_note @ row_line second_note) False None = Inr [canon first_note, canon second_note]"
proof -
  have "parse_bytes demo_float ActivityError ''activity'' [] True = Inr []" by (simp add: parse_bytes_def)
  from parse_bytes_append[OF parse_bytes_append[OF this notes_plain(1,2), of True] notes_plain(3,4)] show ?thesis
    using notes_ok(2) verify_events_iff[of demo_digest None "[canon first_note, canon second_note]"]
    by (auto simp: note_rows_def parse_activity_def)
qed

lemma note_fields:
  "event_id first_note = ''E-1''" "event_id second_note = ''E-2''" "fld second_note ''reply_to'' = JStr ''E-1''"
  "fld second_note ''correction_of'' = JStr ''E-1''" "fld first_note ''correction_of'' = JNull" "fld second_note ''task_id'' = JStr ''T-1''"
  by code_simp+

section \<open>Instances\<close>

lemma corrections_presented_witness:
  "\<exists>meta. correction_metadata [canon first_note, canon second_note] = Some (Inr meta) \<and>
     fld (about meta (canon second_note)) ''original_event_id'' = JStr ''E-1''"
  using corrections_presented[OF second_log] by (fastforce simp: canon_simps note_fields)

definition sample_file :: ledger_file where
  "sample_file = \<lparr>path_text = ''/work/.goalbuddy-board/activity.jsonl'', device = 1, inode = 7, bytes = row_line first_note @ row_line second_note\<rparr>"

lemma sample_file_bytes: "bytes sample_file = row_line first_note @ row_line second_note"
  "sample_file\<lparr>bytes := row_line first_note, bytes := row_line first_note @ row_line second_note\<rparr> = sample_file"
  by (simp_all add: sample_file_def)

lemma descendants_presented_witness:
  "\<exists>answer. present_notes demo_digest demo_float \<lparr>ledger = Some sample_file, cursors = []\<rparr> (descendants_filter ''E-1'') None = Some (Inr answer) \<and>
     ''E-2'' \<in> set (map event_id (the_list (fld answer ''events'')))"
proof -
  let ?rows = "[canon first_note, canon second_note]"
  have "(''E-1'', event_id (canon second_note)) \<in> replies ?rows"
    by (auto simp: replies_def canon_simps note_fields intro!: exI[of _ "canon second_note"])
  then have "canon second_note \<in> set (filter (\<lambda>row. (''E-1'', event_id row) \<in> (replies ?rows)\<^sup>+) ?rows)" by auto
  then have "event_id (canon second_note) \<in> set (map event_id (filter (\<lambda>row. (''E-1'', event_id row) \<in> (replies ?rows)\<^sup>+) ?rows))"
    unfolding set_map by (rule imageI)
  then have second: "''E-2'' \<in> set (map event_id (filter (\<lambda>row. (''E-1'', event_id row) \<in> (replies ?rows)\<^sup>+) ?rows))"
    unfolding event_id_canon note_fields .
  have "ledger \<lparr>ledger = Some sample_file, cursors = []\<rparr> = Some sample_file" "safe_text ''E-1''" by simp code_simp
  from descendants_presented[OF this(1) second_log[folded sample_file_bytes(1)] this(2)] second show ?thesis by metis
qed


end
