(* ===== verification/Ledger.thy ===== *)
theory Ledger
  imports HashLog
begin

text \<open>
  The dispatch ledger, \<open>scripts/dispatch_ledger.py\<close>: an append-only file of events about the
  dispatch of tasks, one canonical JSON text per line, chained by hash. \<open>verify_ledger\<close> reads a
  ledger as text, \<open>append_event\<close> and \<open>append_events_idempotent\<close> extend it under a lock, \<open>replay\<close>
  folds the events into the active leases and the outcome of the tasks.

  \<open>msg\<close> is the wording of the interpreter's exception for an input that cannot be decoded, which
  the script copies into the detail of its own error.
\<close>

section \<open>Events\<close>

definition ledger_error :: "string \<Rightarrow> string \<Rightarrow> 'a result" where
  "ledger_error c detail = Inl (LedgerError c detail)"

lemma ledger_error_eq_Inr [simp]: "ledger_error c detail \<noteq> Inr x" "Inr x \<noteq> ledger_error c detail"
  by (simp_all add: ledger_error_def)

lemma if_ledger_error_eq_Inr [result_simps]: "((if b then ledger_error c detail else r) = Inr y) \<longleftrightarrow> \<not> b \<and> r = Inr y"
  by (auto simp: ledger_error_def)

definition event_types :: "string list" where
  "event_types = [''task_enqueued'', ''classification_rejected'',
     ''preflight_cache_hit'', ''preflight_cache_miss'', ''preflight_cache_expired'',
     ''preflight_probe_in_flight'', ''candidate_rejected'',
     ''lease_granted'', ''lease_denied'', ''lease_released'', ''lease_expired'',
     ''lease_recovered'', ''budget_reserved'', ''budget_reconciled'',
     ''dispatch_started'', ''dispatch_finished'', ''execution_unknown'',
     ''quality_accepted'', ''quality_rejected'', ''retry_queued'', ''schedule_closed'']"

definition event_fields :: "string list" where
  "event_fields = [''schema_version'', ''event_id'', ''event_type'', ''timestamp'', ''goal_id'',
     ''checkpoint_id'', ''task_id'', ''assignment_id'', ''envelope_sha256'',
     ''config_sha256'', ''board_sha256'', ''route'', ''lease'', ''accounting'', ''evidence'']"

definition record_fields :: "string list" where
  "record_fields = event_fields @ [''sequence'', ''previous_event_hash'', ''event_hash'']"

text \<open>\<open>bool(v)\<close> and \<open>v.get(k, d)\<close>\<close>

definition truthy :: "json \<Rightarrow> bool" where
  "truthy v = (case v of JNull \<Rightarrow> False | JBool b \<Rightarrow> b | JInt i \<Rightarrow> i \<noteq> 0 | JFloat m k r \<Rightarrow> m \<noteq> 0
     | JStr s \<Rightarrow> s \<noteq> [] | JList xs \<Rightarrow> xs \<noteq> [] | JObj kvs \<Rightarrow> kvs \<noteq> [])"

definition get_or :: "json \<Rightarrow> string \<Rightarrow> json \<Rightarrow> json" where
  "get_or v k d = (case get v k of None \<Rightarrow> d | Some x \<Rightarrow> x)"

definition ledger_mapping :: "json \<Rightarrow> string \<Rightarrow> json result" where
  "ledger_mapping v field = (if is_obj v then Inr v else ledger_error ''event_invalid'' (field @ '' must be an object''))"

definition ledger_string :: "json \<Rightarrow> string \<Rightarrow> string result" where
  "ledger_string v field = (if is_str v \<and> the_str v \<noteq> [] \<and> byte 0 \<notin> set (the_str v) then Inr (the_str v)
     else ledger_error ''event_invalid'' (field @ '' must be a nonempty string''))"

definition ledger_digest :: "json \<Rightarrow> string \<Rightarrow> unit result" where
  "ledger_digest v field = bind (ledger_string v field) (\<lambda>s.
     guard (sha_text s) (LedgerError ''event_invalid'' (field @ '' must be sha256-prefixed lowercase SHA-256'')))"

definition validate_event :: "json \<Rightarrow> json result" where
  "validate_event v = bind (ledger_mapping v ''event'') (\<lambda>event.
     let unknown = sorted_diff (keys event) event_fields; missing = sorted_diff event_fields (keys event) in
     if unknown \<noteq> [] then ledger_error ''event_invalid'' (''unknown field:'' @ hd unknown)
     else if missing \<noteq> [] then ledger_error ''event_invalid'' (''missing field:'' @ hd missing)
     else if \<not> py_eq (fld event ''schema_version'') (JInt 1) then ledger_error ''event_invalid'' ''schema_version''
     else bind (eachR (\<lambda>field. ledger_string (fld event field) field)
       [''event_id'', ''goal_id'', ''checkpoint_id'', ''task_id'', ''assignment_id'']) (\<lambda>_.
     bind (require_in (\<lambda>c. LedgerError c ''event_type'') (fld event ''event_type'') event_types ''event_invalid'') (\<lambda>_.
     if \<not> is_str (fld event ''timestamp'') \<or> parse_seconds (the_str (fld event ''timestamp'')) = None
     then ledger_error ''event_invalid'' ''timestamp''
     else bind (eachR (\<lambda>field. ledger_digest (fld event field) field) [''envelope_sha256'', ''config_sha256'', ''board_sha256'']) (\<lambda>_.
     bind (eachR (\<lambda>field. ledger_mapping (fld event field) field) [''route'', ''lease'', ''accounting'', ''evidence'']) (\<lambda>_.
     if get_or (fld event ''accounting'') ''observed_tokens'' (JStr ''unknown'') = JNull
     then ledger_error ''unknown_accounting_erased'' ''observed_tokens''
     else Inr event)))))"

section \<open>Verification\<close>

text \<open>\<open>{field: row[field] for field in EVENT_FIELDS}\<close> and \<open>{**event, ...}\<close>\<close>

definition event_part :: "json \<Rightarrow> json" where
  "event_part row = JObj (map (\<lambda>field. (field, fld row field)) event_fields)"

definition chained :: "json \<Rightarrow> int \<Rightarrow> string \<Rightarrow> json" where
  "chained event n previous = upd ''previous_event_hash'' (JStr previous) (upd ''sequence'' (JInt n) event)"

definition verify_record :: "(string \<Rightarrow> string) \<Rightarrow> int \<Rightarrow> string \<Rightarrow> json \<Rightarrow> json result" where
  "verify_record sha n previous v =
     bind (ledger_mapping v (''record['' @ dec n @ '']'')) (\<lambda>row.
     let unknown = sorted_diff (keys row) record_fields; missing = sorted_diff record_fields (keys row) in
     if unknown \<noteq> [] then ledger_error ''ledger_record_invalid'' (dec n @ '':unknown:'' @ hd unknown)
     else if missing \<noteq> [] then ledger_error ''ledger_record_invalid'' (dec n @ '':missing:'' @ hd missing)
     else bind (validate_event (event_part row)) (\<lambda>event.
     if \<not> py_eq (fld row ''sequence'') (JInt n) then ledger_error ''ledger_sequence_mismatch'' (dec n)
     else if fld row ''previous_event_hash'' \<noteq> JStr previous then ledger_error ''ledger_chain_mismatch'' (dec n)
     else if fld row ''event_hash'' \<noteq> JStr (seal sha ''event_hash'' row) then ledger_error ''ledger_hash_mismatch'' (dec n)
     else Inr (upd ''event_hash'' (fld row ''event_hash'') (chained event n previous))))"

record verified =
  event_count :: nat
  ledger_head :: string
  event_ids :: "string list"
  ledger_rows :: "json list"

definition no_events :: verified where
  "no_events = \<lparr>event_count = 0, ledger_head = genesis, event_ids = [], ledger_rows = []\<rparr>"

definition row_event_id :: "json \<Rightarrow> string" where
  "row_event_id row = the_str (fld row ''event_id'')"

definition add_record :: "json \<Rightarrow> verified \<Rightarrow> verified" where
  "add_record row v = \<lparr>event_count = Suc (event_count v), ledger_head = the_str (fld row ''event_hash''),
     event_ids = row_event_id row # event_ids v, ledger_rows = ledger_rows v @ [row]\<rparr>"

definition verify_value :: "(string \<Rightarrow> string) \<Rightarrow> verified \<Rightarrow> json \<Rightarrow> verified result" where
  "verify_value sha v value = bind (verify_record sha (int (event_count v) + 1) (ledger_head v) value) (\<lambda>row.
     if row_event_id row \<in> set (event_ids v) then ledger_error ''ledger_event_duplicate'' (row_event_id row)
     else Inr (add_record row v))"

definition verify_line :: "(string \<Rightarrow> string) \<Rightarrow> (string \<Rightarrow> json) \<Rightarrow> (string \<Rightarrow> string) \<Rightarrow> verified \<Rightarrow> string \<Rightarrow> verified result" where
  "verify_line sha flt msg v line =
     (let n = dec (int (event_count v) + 1) in
      if blank line then ledger_error ''ledger_truncated'' (''blank line:'' @ n)
      else case loads flt dict_of line of
        Inl e \<Rightarrow> if e = JSONDecodeError then ledger_error ''ledger_truncated'' (''line '' @ n @ '':'' @ msg line) else Inl e
      | Inr value \<Rightarrow> verify_value sha v value)"

definition verify_lines :: "(string \<Rightarrow> string) \<Rightarrow> (string \<Rightarrow> json) \<Rightarrow> (string \<Rightarrow> string) \<Rightarrow> string option \<Rightarrow> string list \<Rightarrow> verified result" where
  "verify_lines sha flt msg expected_head lines =
     bind (foldR (verify_line sha flt msg) no_events lines) (\<lambda>v.
     if expected_head \<noteq> None \<and> ledger_head v \<noteq> the expected_head
     then ledger_error ''ledger_expected_head_mismatch'' (the expected_head) else Inr v)"

definition verify_ledger :: "(string \<Rightarrow> string) \<Rightarrow> (string \<Rightarrow> json) \<Rightarrow> (string \<Rightarrow> string) \<Rightarrow> string option \<Rightarrow> string option \<Rightarrow> verified result" where
  "verify_ledger sha flt msg expected_head content = (case content of
     None \<Rightarrow> if expected_head \<noteq> None \<and> expected_head \<noteq> Some genesis
       then ledger_error ''ledger_expected_head_mismatch'' (the expected_head)
       else verify_lines sha flt msg expected_head []
   | Some raw \<Rightarrow>
       if raw \<noteq> [] \<and> \<not> ends_with raw newline then ledger_error ''ledger_truncated'' ''missing terminal newline''
       else if \<not> utf8_ok raw then ledger_error ''ledger_invalid_utf8'' (msg raw)
       else verify_lines sha flt msg expected_head (splitlines text_end raw))"

section \<open>Appending\<close>

definition write_records :: "string option \<Rightarrow> json list \<Rightarrow> string option" where
  "write_records content records = (if records = [] then content
     else Some ((case content of None \<Rightarrow> [] | Some raw \<Rightarrow> raw) @ concat (map (\<lambda>r. dumps r @ newline) records)))"

text \<open>the record of an event after the event number \<open>n\<close> with the hash \<open>previous\<close>\<close>

definition new_record :: "(string \<Rightarrow> string) \<Rightarrow> json \<Rightarrow> nat \<Rightarrow> string \<Rightarrow> json" where
  "new_record sha event n previous = (let row = chained event (int n + 1) previous in
     upd ''event_hash'' (JStr (sha (dumps row))) row)"

definition append_ledger :: "(string \<Rightarrow> string) \<Rightarrow> (string \<Rightarrow> json) \<Rightarrow> (string \<Rightarrow> string) \<Rightarrow> string option \<Rightarrow> int option \<Rightarrow>
    string option \<Rightarrow> json \<Rightarrow> (string option \<times> json) result" where
  "append_ledger sha flt msg expected_head expected_sequence content value =
     bind (validate_event value) (\<lambda>event.
     bind (verify_ledger sha flt msg expected_head content) (\<lambda>v.
     if expected_sequence \<noteq> None \<and> int (event_count v) \<noteq> the expected_sequence
     then ledger_error ''ledger_expected_sequence_mismatch'' (dec_int (the expected_sequence))
     else if row_event_id event \<in> set (event_ids v) then ledger_error ''ledger_event_duplicate'' (row_event_id event)
     else let row = new_record sha event (event_count v) (ledger_head v) in
       Inr (write_records content [row], row)))"

text \<open>what two events with the same id must agree on: everything but the timestamp\<close>

definition comparable :: "json \<Rightarrow> string" where
  "comparable v = dumps (JObj (map (\<lambda>field. (field, fld v field)) (filter (\<lambda>field. field \<noteq> ''timestamp'') event_fields)))"

record batch =
  seen_records :: "(string \<times> json) list"
  planned :: "json list"
  batch_records :: "json list"
  appended :: nat
  idempotent :: nat

definition empty_batch :: batch where
  "empty_batch = \<lparr>seen_records = [], planned = [], batch_records = [], appended = 0, idempotent = 0\<rparr>"

definition reuse :: "json \<Rightarrow> json \<Rightarrow> batch \<Rightarrow> batch result" where
  "reuse event existing b =
     (if comparable existing \<noteq> comparable event then ledger_error ''ledger_event_conflict'' (row_event_id event)
      else Inr (b\<lparr>batch_records := batch_records b @ [existing], idempotent := Suc (idempotent b)\<rparr>))"

definition plan_event :: "(string \<Rightarrow> string) \<Rightarrow> verified \<Rightarrow> batch \<Rightarrow> json \<Rightarrow> batch result" where
  "plan_event sha v b event =
     (case map_of (rev (map (\<lambda>row. (row_event_id row, row)) (ledger_rows v))) (row_event_id event) of
        Some existing \<Rightarrow> reuse event existing b
      | None \<Rightarrow> (case map_of (seen_records b) (row_event_id event) of
          Some previous \<Rightarrow> reuse event previous b
        | None \<Rightarrow> let row = new_record sha event (event_count v + length (planned b))
              (if planned b = [] then ledger_head v else the_str (fld (last (planned b)) ''event_hash'')) in
            Inr \<lparr>seen_records = AList.update (row_event_id event) row (seen_records b), planned = planned b @ [row],
              batch_records = batch_records b @ [row], appended = Suc (appended b), idempotent = idempotent b\<rparr>))"

text \<open>A \<open>TypeError\<close> while the batch is validated is reported as a batch that is no sequence.\<close>

definition validate_batch :: "json \<Rightarrow> json list result" where
  "validate_batch values = (if \<not> is_list values then ledger_error ''events_invalid'' ''batch must be a sequence''
     else case mapR validate_event (the_list values) of
       Inl e \<Rightarrow> if e = TypeError then ledger_error ''events_invalid'' ''batch must be a sequence'' else Inl e
     | Inr events \<Rightarrow> Inr events)"

definition append_batch :: "(string \<Rightarrow> string) \<Rightarrow> (string \<Rightarrow> json) \<Rightarrow> (string \<Rightarrow> string) \<Rightarrow> string option \<Rightarrow> json \<Rightarrow> (string option \<times> batch) result" where
  "append_batch sha flt msg content values =
     bind (validate_batch values) (\<lambda>events.
     bind (verify_ledger sha flt msg None content) (\<lambda>v.
     bind (foldR (plan_event sha v) empty_batch events) (\<lambda>b.
     Inr (write_records content (planned b), b))))"

definition append_once :: "(string \<Rightarrow> string) \<Rightarrow> (string \<Rightarrow> json) \<Rightarrow> (string \<Rightarrow> string) \<Rightarrow> string option \<Rightarrow> json \<Rightarrow> (string option \<times> json) result" where
  "append_once sha flt msg content value = bind (append_batch sha flt msg content (JList [value])) (\<lambda>(content', b).
     Inr (content', hd (batch_records b)))"

section \<open>Replay\<close>

text \<open>
  Dictionaries keyed by a value of the event: keys that Python takes for equal are one key, so
  the key is kept in normal form; a list or a dictionary is no key.
\<close>

definition ended_leases :: "string list" where
  "ended_leases = [''lease_released'', ''lease_expired'', ''lease_recovered'']"

definition lease_id_of :: "json \<Rightarrow> json" where
  "lease_id_of row = fld (fld row ''lease'') ''lease_id''"

definition event_type :: "json \<Rightarrow> string" where
  "event_type row = the_str (fld row ''event_type'')"

definition lease_step :: "(json \<times> json) list \<Rightarrow> json \<Rightarrow> (json \<times> json) list result" where
  "lease_step active row = (let i = lease_id_of row in
     if event_type row = ''lease_granted'' \<and> truthy i
     then (if hashable i then Inr (AList.update (norm i) row active) else Inl TypeError)
     else if event_type row \<in> set ended_leases \<and> truthy i
     then (if hashable i then Inr (AList.delete (norm i) active) else Inl TypeError)
     else Inr active)"

record replayed =
  replayed_count :: nat
  replayed_head :: string
  active_leases :: "(json \<times> json) list"
  quality_accepted :: "(json \<times> int) list"
  unknown_accounting :: nat
  terminal_status :: "(string \<times> string) list"

definition count_key :: "json \<Rightarrow> (json \<times> int) list \<Rightarrow> (json \<times> int) list result" where
  "count_key k counts = (if hashable k
     then Inr (AList.update (norm k) ((case map_of counts (norm k) of None \<Rightarrow> 0 | Some n \<Rightarrow> n) + 1) counts)
     else Inl TypeError)"

definition replay_row :: "replayed \<Rightarrow> json \<Rightarrow> replayed result" where
  "replay_row r row =
     bind (lease_step (active_leases r) row) (\<lambda>active.
     bind (if event_type row = ''quality_accepted''
       then count_key (get_or (fld row ''route'') ''provider'' (JStr ''unknown'')) (quality_accepted r)
       else Inr (quality_accepted r)) (\<lambda>counts.
     Inr \<lparr>replayed_count = replayed_count r, replayed_head = replayed_head r, active_leases = active, quality_accepted = counts,
       unknown_accounting = unknown_accounting r +
         (if get_or (fld row ''accounting'') ''observed_tokens'' (JStr ''unknown'') = JStr ''unknown'' then 1 else 0),
       terminal_status = (if event_type row \<in> set [''schedule_closed'', ''execution_unknown'']
         then AList.update (the_str (fld row ''task_id'')) (event_type row) (terminal_status r)
         else terminal_status r)\<rparr>))"

definition replay_ledger :: "verified \<Rightarrow> replayed result" where
  "replay_ledger v = foldR replay_row
     \<lparr>replayed_count = event_count v, replayed_head = ledger_head v, active_leases = [], quality_accepted = [], unknown_accounting = 0, terminal_status = []\<rparr> (ledger_rows v)"

end
