(* ===== verification/Broker.thy ===== *)
theory Broker
  imports Ledger
begin

text \<open>
  The preflight broker, \<open>scripts/preflight_broker.py\<close>: a cache of observations of routes, shared by
  processes that may probe a route. Whoever asks for an observation that is not cached gets a
  lease on the probe; the others are told that it is in flight until the lease ends or an
  observation is recorded. The state is a JSON object sealed by its digest, with a chained history;
  it is modelled as a value, \<open>None\<close> standing for no file. An operation runs under the lock and
  replaces the file as a whole, so its model returns the new state with its answer.
\<close>

section \<open>Checked values\<close>

abbreviation broker_error :: "string \<Rightarrow> 'a result" where
  "broker_error c \<equiv> Inl (PreflightBrokerError c)"

definition max_ttl :: int where
  "max_ttl = 300"

definition default_ttl :: int where
  "default_ttl = 60"

definition key_fields :: "string list" where
  "key_fields = [''provider'', ''exact_model'', ''route_id'', ''runtime'', ''reasoning'', ''proof_mode'']"

definition observation_input_keys :: "string list" where
  "observation_input_keys = [''schema_version'', ''availability'', ''health'', ''callability'',
     ''receipt_descriptor'', ''receipt_digest'']"

definition observation_keys :: "string list" where
  "observation_keys = observation_input_keys @ [''key'', ''observed_at'', ''expires_at'']"

definition lease_keys :: "string list" where
  "lease_keys = [''owner_token'', ''acquired_at'', ''expires_at'']"

definition entry_keys :: "string list" where
  "entry_keys = [''key'', ''lease'', ''observation'']"

definition state_keys :: "string list" where
  "state_keys = [''schema_version'', ''entries'', ''history'', ''state_sha256'']"

definition history_keys :: "string list" where
  "history_keys = [''sequence'', ''kind'', ''key_sha256'', ''at'', ''owner_token'', ''previous_event_sha256'', ''event_sha256'']"

definition status_values :: "(string \<times> string list) list" where
  "status_values = [(''availability'', [''available'', ''unavailable'', ''unknown'']),
     (''health'', [''healthy'', ''unhealthy'', ''unknown'']),
     (''callability'', [''callable'', ''not_callable'', ''unknown''])]"

definition digest_of :: "(string \<Rightarrow> string) \<Rightarrow> json \<Rightarrow> string" where
  "digest_of sha v = sha_prefix @ sha (dumps v)"

definition strict_text :: "json \<Rightarrow> string \<Rightarrow> string result" where
  "strict_text v c = (if \<not> is_str v \<or> the_str v = [] \<or> unstripped (the_str v) then broker_error c
     else if list_ex is_control (the_str v) then broker_error c else Inr (the_str v))"

definition broker_time :: "json \<Rightarrow> string \<Rightarrow> int result" where
  "broker_time v c = bind (strict_text v c) (\<lambda>s. case parse_time s of None \<Rightarrow> broker_error c | Some t \<Rightarrow> Inr t)"

definition duration :: "json \<Rightarrow> string \<Rightarrow> int result" where
  "duration v c = (if \<not> is_int v \<or> the_int v < 1 \<or> max_ttl < the_int v then broker_error c else Inr (the_int v))"

definition digest_text :: "json \<Rightarrow> bool" where
  "digest_text v = (is_str v \<and> sha_text (the_str v))"

text \<open>\<open>value != 1 or isinstance(value, bool)\<close>\<close>

definition version_one :: "json \<Rightarrow> bool" where
  "version_one v = (py_eq v (JInt 1) \<and> \<not> is_bool v)"

definition normalize_key :: "json \<Rightarrow> json result" where
  "normalize_key v = (if \<not> keys_are v key_fields then broker_error ''preflight_key_shape_invalid''
     else bind (mapR (\<lambda>field. bind (strict_text (fld v field) (''preflight_key_'' @ field @ ''_invalid'')) (\<lambda>s. Inr (field, JStr s))) key_fields)
       (\<lambda>kvs. Inr (JObj kvs)))"

definition key_digest :: "(string \<Rightarrow> string) \<Rightarrow> json \<Rightarrow> string result" where
  "key_digest sha v = bind (normalize_key v) (\<lambda>k. Inr (digest_of sha k))"

definition verify_observation :: "json \<Rightarrow> json \<Rightarrow> json result" where
  "verify_observation v expected_key =
     (if \<not> keys_are v observation_keys then broker_error ''preflight_observation_shape_invalid''
      else if \<not> version_one (fld v ''schema_version'') then broker_error ''preflight_observation_version_invalid''
      else bind (normalize_key (fld v ''key'')) (\<lambda>key.
      if \<not> py_eq key expected_key then broker_error ''preflight_observation_key_mismatch''
      else bind (eachR (\<lambda>(field, allowed). require_in PreflightBrokerError (fld v field) allowed
        (''preflight_observation_'' @ field @ ''_invalid'')) status_values) (\<lambda>_.
      bind (strict_text (fld v ''receipt_descriptor'') ''preflight_receipt_descriptor_invalid'') (\<lambda>_.
      if \<not> digest_text (fld v ''receipt_digest'') then broker_error ''preflight_receipt_digest_invalid''
      else bind (broker_time (fld v ''observed_at'') ''preflight_observed_at_invalid'') (\<lambda>observed.
      bind (broker_time (fld v ''expires_at'') ''preflight_expires_at_invalid'') (\<lambda>expires.
      if expires \<le> observed \<or> max_ttl * 1000000 < expires - observed then broker_error ''preflight_observation_expiry_invalid''
      else Inr v))))))"

section \<open>The state\<close>

definition without :: "string \<Rightarrow> string list \<Rightarrow> json \<Rightarrow> json" where
  "without k K v = JObj (map (\<lambda>f. (f, fld v f)) (filter (\<lambda>f. f \<noteq> k) K))"

definition seal_state :: "(string \<Rightarrow> string) \<Rightarrow> json \<Rightarrow> json" where
  "seal_state sha state = upd ''state_sha256'' (JStr (digest_of sha (without ''state_sha256'' state_keys state))) state"

definition empty_state :: "(string \<Rightarrow> string) \<Rightarrow> json" where
  "empty_state sha = (let state = JObj [(''schema_version'', JInt 1), (''entries'', JObj []), (''history'', JList [])] in
     upd ''state_sha256'' (JStr (digest_of sha state)) state)"

definition history_kinds' :: "string list" where
  "history_kinds' = [''probe_claimed'', ''probe_recovered'', ''observation_recorded'']"

text \<open>one turn of the loop over the history; the state is the next number and the last digest\<close>

definition check_history_event :: "(string \<Rightarrow> string) \<Rightarrow> int \<times> json \<Rightarrow> json \<Rightarrow> (int \<times> json) result" where
  "check_history_event sha s event = (case s of (index, previous) \<Rightarrow>
     if \<not> keys_are event history_keys then broker_error ''preflight_history_event_shape_invalid''
     else if \<not> py_eq (fld event ''sequence'') (JInt index) \<or> is_bool (fld event ''sequence'')
     then broker_error ''preflight_history_sequence_invalid''
     else bind (require_in PreflightBrokerError (fld event ''kind'') history_kinds' ''preflight_history_kind_invalid'') (\<lambda>_.
     if \<not> digest_text (fld event ''key_sha256'') then broker_error ''preflight_history_key_digest_invalid''
     else bind (broker_time (fld event ''at'') ''preflight_history_timestamp_invalid'') (\<lambda>_.
     bind (strict_text (fld event ''owner_token'') ''preflight_owner_token_invalid'') (\<lambda>_.
     if \<not> py_eq (fld event ''previous_event_sha256'') previous then broker_error ''preflight_history_chain_invalid''
     else if fld event ''event_sha256'' \<noteq> JStr (digest_of sha (without ''event_sha256'' history_keys event))
     then broker_error ''preflight_history_digest_mismatch''
     else Inr (index + 1, fld event ''event_sha256'')))))"

definition check_lease :: "json \<Rightarrow> unit result" where
  "check_lease lease =
     (if \<not> keys_are lease lease_keys then broker_error ''preflight_lease_shape_invalid''
      else bind (strict_text (fld lease ''owner_token'') ''preflight_owner_token_invalid'') (\<lambda>_.
      bind (broker_time (fld lease ''acquired_at'') ''preflight_lease_acquired_at_invalid'') (\<lambda>acquired.
      bind (broker_time (fld lease ''expires_at'') ''preflight_lease_expires_at_invalid'') (\<lambda>expires.
      guard (\<not> (expires \<le> acquired \<or> max_ttl * 1000000 < expires - acquired)) (PreflightBrokerError ''preflight_lease_expiry_invalid'')))))"

definition check_entry :: "(string \<Rightarrow> string) \<Rightarrow> string \<times> json \<Rightarrow> unit result" where
  "check_entry sha kv = (case kv of (digest, entry) \<Rightarrow>
     if \<not> sha_text digest then broker_error ''preflight_entry_digest_invalid''
     else if \<not> keys_are entry entry_keys then broker_error ''preflight_entry_shape_invalid''
     else bind (normalize_key (fld entry ''key'')) (\<lambda>key.
     if digest_of sha key \<noteq> digest then broker_error ''preflight_entry_key_digest_mismatch''
     else bind (if fld entry ''lease'' = JNull then Inr () else check_lease (fld entry ''lease'')) (\<lambda>_.
     if fld entry ''observation'' = JNull then Inr ()
     else bind (verify_observation (fld entry ''observation'') key) (\<lambda>_. Inr ()))))"

definition verify_state :: "(string \<Rightarrow> string) \<Rightarrow> json \<Rightarrow> json result" where
  "verify_state sha v =
     (if \<not> keys_are v state_keys then broker_error ''preflight_state_shape_invalid''
      else if \<not> version_one (fld v ''schema_version'') then broker_error ''preflight_state_version_invalid''
      else if \<not> digest_text (fld v ''state_sha256'') then broker_error ''preflight_state_digest_invalid''
      else if JStr (digest_of sha (without ''state_sha256'' state_keys v)) \<noteq> fld v ''state_sha256''
      then broker_error ''preflight_state_digest_mismatch''
      else if \<not> is_obj (fld v ''entries'') \<or> \<not> is_list (fld v ''history'') then broker_error ''preflight_state_shape_invalid''
      else bind (foldR (check_history_event sha) (1, JNull) (the_list (fld v ''history''))) (\<lambda>_.
      bind (eachR (check_entry sha) (the_obj (fld v ''entries''))) (\<lambda>_. Inr v)))"

definition read_state :: "(string \<Rightarrow> string) \<Rightarrow> json option \<Rightarrow> json result" where
  "read_state sha state_file = (case state_file of None \<Rightarrow> Inr (empty_state sha) | Some v \<Rightarrow> verify_state sha v)"

definition append_history :: "(string \<Rightarrow> string) \<Rightarrow> string \<Rightarrow> string \<Rightarrow> string \<Rightarrow> string \<Rightarrow> json \<Rightarrow> json" where
  "append_history sha kind digest at owner state =
     (let history = the_list (fld state ''history'');
          event = JObj [(''sequence'', JInt (int (length history) + 1)), (''kind'', JStr kind), (''key_sha256'', JStr digest),
            (''at'', JStr at), (''owner_token'', JStr owner),
            (''previous_event_sha256'', if history = [] then JNull else fld (last history) ''event_sha256'')] in
      upd ''history'' (JList (history @ [upd ''event_sha256'' (JStr (digest_of sha event)) event])) state)"

definition atomic_write :: "(string \<Rightarrow> string) \<Rightarrow> json \<Rightarrow> json result" where
  "atomic_write sha state = verify_state sha (seal_state sha state)"

section \<open>Operations\<close>

definition entry_of :: "json \<Rightarrow> string \<Rightarrow> json option" where
  "entry_of state digest = get (fld state ''entries'') digest"

definition set_entry :: "string \<Rightarrow> json \<Rightarrow> json \<Rightarrow> json" where
  "set_entry digest entry state = upd ''entries'' (upd digest entry (fld state ''entries'')) state"

definition expiry_of :: "json \<Rightarrow> string \<Rightarrow> int result" where
  "expiry_of v c = broker_time (fld v ''expires_at'') c"

definition probe_answer :: "string \<Rightarrow> string \<Rightarrow> json \<Rightarrow> bool \<Rightarrow> json" where
  "probe_answer decision digest lease recovered = JObj [(''schema_version'', JInt 1), (''decision'', JStr decision),
     (''key_sha256'', JStr digest), (''lease'', lease), (''recovered_abandoned_lease'', JBool recovered)]"

definition cache_hit :: "string \<Rightarrow> json \<Rightarrow> json" where
  "cache_hit digest observation = JObj [(''schema_version'', JInt 1), (''decision'', JStr ''cache_hit''),
     (''key_sha256'', JStr digest), (''observation'', observation)]"

text \<open>is there a value (not \<open>null\<close>) at \<open>k\<close> whose expiry is after \<open>t\<close>?\<close>

definition current :: "json option \<Rightarrow> string \<Rightarrow> int \<Rightarrow> string \<Rightarrow> bool result" where
  "current entry k t c = (case entry of None \<Rightarrow> Inr False
     | Some e \<Rightarrow> if fld e k = JNull then Inr False else bind (expiry_of (fld e k) c) (\<lambda>x. Inr (t < x)))"

definition claim_probe :: "(string \<Rightarrow> string) \<Rightarrow> json \<Rightarrow> json \<Rightarrow> string \<Rightarrow> string \<Rightarrow> string \<Rightarrow> int \<Rightarrow> int \<Rightarrow> (json option \<times> json) result" where
  "claim_probe sha state key digest owner now t seconds =
     bind (time_text_result (add_seconds t seconds)) (\<lambda>expires_at.
     let recovered = (case entry_of state digest of None \<Rightarrow> False | Some e \<Rightarrow> fld e ''lease'' \<noteq> JNull);
         lease = JObj [(''owner_token'', JStr owner), (''acquired_at'', JStr now), (''expires_at'', JStr expires_at)];
         state' = append_history sha (if recovered then ''probe_recovered'' else ''probe_claimed'') digest now owner
           (set_entry digest (JObj [(''key'', key), (''lease'', lease), (''observation'', JNull)]) state) in
     bind (atomic_write sha state') (\<lambda>state''. Inr (Some state'', probe_answer ''probe_required'' digest lease recovered)))"

definition request_probe :: "(string \<Rightarrow> string) \<Rightarrow> json option \<Rightarrow> json \<Rightarrow> json \<Rightarrow> json \<Rightarrow> json \<Rightarrow> (json option \<times> json) result" where
  "request_probe sha state_file key_value owner_token now lease_seconds =
     bind (normalize_key key_value) (\<lambda>key.
     bind (strict_text owner_token ''preflight_owner_token_invalid'') (\<lambda>owner.
     bind (broker_time now ''preflight_request_timestamp_invalid'') (\<lambda>t.
     bind (duration lease_seconds ''preflight_lease_duration_invalid'') (\<lambda>seconds.
     let digest = digest_of sha key in
     bind (read_state sha state_file) (\<lambda>state.
     let entry = entry_of state digest in
     bind (current entry ''observation'' t ''preflight_expires_at_invalid'') (\<lambda>hit.
     if hit then Inr (state_file, cache_hit digest (fld (the entry) ''observation''))
     else bind (current entry ''lease'' t ''preflight_lease_expires_at_invalid'') (\<lambda>leased.
     if leased then let lease = fld (the entry) ''lease'' in
       Inr (state_file, probe_answer (if fld lease ''owner_token'' = JStr owner then ''probe_required'' else ''probe_in_flight'') digest lease False)
     else claim_probe sha state key digest owner (the_str now) t seconds)))))))"

definition make_observation :: "json \<Rightarrow> json \<Rightarrow> string \<Rightarrow> string \<Rightarrow> json" where
  "make_observation v key now expires_at = upd ''expires_at'' (JStr expires_at) (upd ''observed_at'' (JStr now) (upd ''key'' key v))"

definition record_observation :: "(string \<Rightarrow> string) \<Rightarrow> json option \<Rightarrow> json \<Rightarrow> json \<Rightarrow> json \<Rightarrow> json \<Rightarrow> json \<Rightarrow> (json option \<times> json) result" where
  "record_observation sha state_file key_value v owner_token now ttl_seconds =
     bind (normalize_key key_value) (\<lambda>key.
     bind (strict_text owner_token ''preflight_owner_token_invalid'') (\<lambda>owner.
     bind (broker_time now ''preflight_record_timestamp_invalid'') (\<lambda>t.
     bind (duration ttl_seconds ''preflight_ttl_invalid'') (\<lambda>seconds.
     if \<not> keys_are v observation_input_keys then broker_error ''preflight_observation_input_shape_invalid''
     else if \<not> version_one (fld v ''schema_version'') then broker_error ''preflight_observation_version_invalid''
     else let digest = digest_of sha key in
     bind (time_text_result (add_seconds t seconds)) (\<lambda>expires_at.
     let observation = make_observation v key (the_str now) expires_at in
     bind (verify_observation observation key) (\<lambda>_.
     bind (read_state sha state_file) (\<lambda>state.
     case entry_of state digest of
       None \<Rightarrow> broker_error ''preflight_probe_lease_missing''
     | Some entry \<Rightarrow> let lease = fld entry ''lease'' in
         if lease = JNull then broker_error ''preflight_probe_lease_missing''
         else if fld lease ''owner_token'' \<noteq> JStr owner then broker_error ''preflight_probe_owner_mismatch''
         else bind (expiry_of lease ''preflight_lease_expires_at_invalid'') (\<lambda>e.
         if e \<le> t then broker_error ''preflight_probe_lease_expired''
         else let state' = append_history sha ''observation_recorded'' digest (the_str now) owner
             (set_entry digest (upd ''observation'' observation (upd ''lease'' JNull entry)) state) in
           bind (atomic_write sha state') (\<lambda>state''. Inr (Some state'',
             JObj [(''schema_version'', JInt 1), (''status'', JStr ''recorded''), (''key_sha256'', JStr digest),
               (''observation'', observation)]))))))))))"

text \<open>The observation is copied by printing it and reading it back: its canonical form.\<close>

definition read_current_observation :: "(string \<Rightarrow> string) \<Rightarrow> json option \<Rightarrow> json \<Rightarrow> json \<Rightarrow> json result" where
  "read_current_observation sha state_file key_value now =
     bind (normalize_key key_value) (\<lambda>key.
     bind (broker_time now ''preflight_read_timestamp_invalid'') (\<lambda>t.
     let digest = digest_of sha key in
     bind (case state_file of None \<Rightarrow> broker_error ''preflight_state_unreadable'' | Some v \<Rightarrow> verify_state sha v) (\<lambda>state.
     case entry_of state digest of
       None \<Rightarrow> broker_error ''preflight_entry_missing''
     | Some entry \<Rightarrow> let observation = fld entry ''observation'' in
         if observation = JNull then broker_error ''preflight_observation_missing''
         else bind (broker_time (fld observation ''observed_at'') ''preflight_observed_at_invalid'') (\<lambda>observed.
         bind (broker_time (fld observation ''expires_at'') ''preflight_expires_at_invalid'') (\<lambda>expires.
         if t < observed then broker_error ''preflight_observation_from_future''
         else if expires \<le> t then broker_error ''preflight_observation_expired''
         else Inr (JObj [(''schema_version'', JInt 1), (''status'', JStr ''current''), (''key_sha256'', JStr digest),
           (''observation'', canon observation), (''state_sha256'', fld state ''state_sha256''),
           (''entry_sha256'', JStr (digest_of sha entry))]))))))"

definition inspect_state :: "(string \<Rightarrow> string) \<Rightarrow> json option \<Rightarrow> json result" where
  "inspect_state sha state_file = bind (read_state sha state_file) (\<lambda>state.
     let entries = fld state ''entries'' in
     Inr (JObj [(''schema_version'', JInt 1), (''status'', JStr ''valid''), (''entry_count'', JInt (int (length (the_obj entries)))),
       (''event_count'', JInt (int (length (the_list (fld state ''history''))))), (''state_sha256'', fld state ''state_sha256''),
       (''entries'', JList (map (fld entries) (sort (keys entries))))]))"

end
