(* ===== verification/Broker_Properties.thy ===== *)
theory Broker_Properties
  imports Broker Demo
begin

text \<open>
  Properties of the preflight broker: operations on a valid state with valid arguments succeed
  and leave a valid state, a probe that has been granted is in flight for everybody else until its
  lease ends or its holder records an observation, and an observation is only read while it is
  current.
\<close>

section \<open>Texts\<close>

definition visible :: "string \<Rightarrow> bool" where
  "visible s = list_all (\<lambda>c. 33 \<le> code c \<and> code c < 127) s"

lemma visible_stripped: "visible s \<Longrightarrow> \<not> unstripped s"
proof -
  assume s: "visible s"
  have none: "ws_len t = 0" if "visible t" for t
  proof (cases t)
    case (Cons c r)
    then have "33 \<le> code c" "code c < 128" using that by (simp_all add: visible_def)
    then show ?thesis using Cons by simp
  qed (simp add: ws_len_def)
  have "visible (drop n s)" for n using s by (auto simp: visible_def list_all_iff dest: in_set_dropD)
  then show ?thesis using none s by (auto simp: unstripped_def)
qed

lemma visible_text: "visible s \<Longrightarrow> s \<noteq> [] \<Longrightarrow> strict_text (JStr s) c = Inr s"
  using visible_stripped[of s] by (auto simp: strict_text_def visible_def list_all_iff list_ex_iff is_control_def)

lemma scan_visible: "scan ts s = Some (ds, r) \<Longrightarrow> visible ts \<Longrightarrow> visible r \<Longrightarrow> visible s"
  by (induction ts s arbitrary: ds rule: scan.induct) (auto simp: visible_def is_digit_def split: if_splits)

lemma fraction_visible: "fraction r = Some us \<Longrightarrow> visible r"
proof (cases r)
  case (Cons c f)
  assume "fraction r = Some us"
  then show ?thesis
    using Cons by (cases f rule: rev_cases) (auto simp: fraction_def visible_def list_all_iff is_digit_def code_def split: if_splits)
qed (simp add: visible_def)

lemma time_visible: "parse_time s = Some t \<Longrightarrow> visible s \<and> s \<noteq> []"
proof -
  assume t: "parse_time s = Some t"
  have "visible ''9999-99-99T99:99:99''" by code_simp
  then have "visible s" using t scan_visible fraction_visible by (auto simp: parse_time_def split: option.splits)
  moreover have "parse_time [] = None" by code_simp
  ultimately show ?thesis using t by auto
qed

lemma strict_text_eq_Inr: "strict_text v c = Inr s \<longleftrightarrow> v = JStr s \<and> strict_text (JStr s) [] = Inr s"
  by (cases v) (auto simp: strict_text_def)

lemma strict_text_any: "strict_text v c = Inr s \<Longrightarrow> strict_text v c' = Inr s"
  by (auto simp: strict_text_def split: if_splits)

lemma broker_time_text: "parse_time s = Some t \<Longrightarrow> broker_time (JStr s) c = Inr t"
  by (simp add: broker_time_def visible_text time_visible)

lemma broker_time_eq_Inr: "broker_time v c = Inr t \<longleftrightarrow> (\<exists>s. v = JStr s \<and> parse_time s = Some t)"
proof
  assume "broker_time v c = Inr t"
  then obtain s where s: "strict_text v c = Inr s" "parse_time s = Some t"
    by (auto simp: broker_time_def bind_eq_Inr split: option.splits)
  then show "\<exists>s. v = JStr s \<and> parse_time s = Some t" using iffD1[OF strict_text_eq_Inr s(1)] by simp
qed (auto simp: broker_time_text)

lemma duration_eq_Inr: "duration v c = Inr n \<longleftrightarrow> v = JInt n \<and> 1 \<le> n \<and> n \<le> 300"
  by (cases v) (auto simp: duration_def max_ttl_def)

section \<open>Keys\<close>

lemma key_fields_distinct: "distinct key_fields"
  by (simp add: key_fields_def)

lemma mapR_pairs: "mapR (\<lambda>f. bind (m f) (\<lambda>s. Inr (f, JStr s))) F = Inr kvs \<Longrightarrow>
    \<exists>g. kvs = map (\<lambda>f. (f, JStr (g f))) F \<and> (\<forall>f \<in> set F. m f = Inr (g f))" if "distinct F"
  using that
proof (induction F arbitrary: kvs)
  case (Cons f F)
  then obtain s ks where s: "m f = Inr s" "kvs = (f, JStr s) # ks" "mapR (\<lambda>f. bind (m f) (\<lambda>s. Inr (f, JStr s))) F = Inr ks"
    by (auto simp: bind_eq_Inr)
  with Cons obtain g where "ks = map (\<lambda>f. (f, JStr (g f))) F" "\<forall>f \<in> set F. m f = Inr (g f)" by auto
  then show ?case using s Cons.prems(1) by (intro exI[of _ "g(f := s)"]) auto
qed simp

lemma mapR_pairs_intro: "(\<forall>f \<in> set F. m f = Inr (g f)) \<Longrightarrow>
    mapR (\<lambda>f. bind (m f) (\<lambda>s. Inr (f, JStr s))) F = Inr (map (\<lambda>f. (f, JStr (g f))) F)"
  by (induction F) auto

lemma normalize_key_idem:
  assumes "normalize_key v = Inr key"
  shows "normalize_key key = Inr key" "is_obj key"
proof -
  from assms have "keys_are v key_fields" and
    m: "mapR (\<lambda>field. bind (strict_text (fld v field) (''preflight_key_'' @ field @ ''_invalid'')) (\<lambda>s. Inr (field, JStr s))) key_fields = Inr (the_obj key)"
    and obj: "is_obj key"
    by (auto simp: normalize_key_def bind_eq_Inr split: if_splits)
  from mapR_pairs[OF key_fields_distinct m] obtain g where g: "the_obj key = map (\<lambda>f. (f, JStr (g f))) key_fields"
    "\<forall>f \<in> set key_fields. strict_text (fld v f) (''preflight_key_'' @ f @ ''_invalid'') = Inr (g f)" by auto
  have key: "key = JObj (map (\<lambda>f. (f, JStr (g f))) key_fields)" using obj g(1) by (cases key) auto
  have shape: "keys_are key key_fields" by (simp add: key keys_are_iff keys_def comp_def)
  have "\<forall>f \<in> set key_fields. strict_text (fld key f) (''preflight_key_'' @ f @ ''_invalid'') = Inr (g f)"
  proof
    fix f assume f: "f \<in> set key_fields"
    then have "strict_text (JStr (g f)) (''preflight_key_'' @ f @ ''_invalid'') = Inr (g f)"
      using iffD1[OF strict_text_eq_Inr g(2)[rule_format, OF f]] strict_text_any by blast
    then show "strict_text (fld key f) (''preflight_key_'' @ f @ ''_invalid'') = Inr (g f)" using f by (simp add: key fld_fields)
  qed
  then have "mapR (\<lambda>f. bind (strict_text (fld key f) (''preflight_key_'' @ f @ ''_invalid'')) (\<lambda>s. Inr (f, JStr s))) key_fields =
      Inr (map (\<lambda>f. (f, JStr (g f))) key_fields)" by (rule mapR_pairs_intro)
  then show "normalize_key key = Inr key" unfolding normalize_key_def using shape by (simp only: key) simp
  show "is_obj key" by (rule obj)
qed

section \<open>Valid states\<close>

definition last_digest :: "json list \<Rightarrow> json" where
  "last_digest history = (if history = [] then JNull else fld (last history) ''event_sha256'')"

lemma check_history_event_result:
  "check_history_event sha (index, previous) event = Inr s \<Longrightarrow> s = (index + 1, fld event ''event_sha256'')"
  unfolding check_history_event_def prod.case by (auto simp: result_simps split: if_splits)

lemma history_fold: "foldR (check_history_event sha) (1, JNull) history = Inr s \<Longrightarrow>
    s = (int (length history) + 1, last_digest history)"
proof (induction history arbitrary: s rule: rev_induct)
  case (snoc e history)
  then obtain t where t: "foldR (check_history_event sha) (1, JNull) history = Inr t" "check_history_event sha t e = Inr s"
    by (metis foldR_snoc_Inr)
  from snoc.IH[OF t(1)] t(2) have "s = (int (length history) + 1 + 1, fld e ''event_sha256'')"
    using check_history_event_result by metis
  then show ?case by (simp add: last_digest_def)
qed (simp add: last_digest_def)

definition state_ok :: "(string \<Rightarrow> string) \<Rightarrow> json \<Rightarrow> bool" where
  "state_ok sha v \<longleftrightarrow> verify_state sha v = Inr v"

definition contents_ok :: "(string \<Rightarrow> string) \<Rightarrow> json \<Rightarrow> bool" where
  "contents_ok sha v \<longleftrightarrow> keys_are v state_keys \<and> version_one (fld v ''schema_version'') \<and>
     is_obj (fld v ''entries'') \<and> is_list (fld v ''history'') \<and>
     (\<exists>s. foldR (check_history_event sha) (1, JNull) (the_list (fld v ''history'')) = Inr s) \<and>
     (\<forall>kv \<in> set (the_obj (fld v ''entries'')). check_entry sha kv = Inr ())"

lemma verify_state_eq_Inr: "verify_state sha v = Inr w \<longleftrightarrow> w = v \<and> contents_ok sha v \<and> digest_text (fld v ''state_sha256'') \<and>
    fld v ''state_sha256'' = JStr (digest_of sha (without ''state_sha256'' state_keys v))"
  by (auto simp: verify_state_def contents_ok_def result_simps)

lemma state_ok_contents: "state_ok sha v \<Longrightarrow> contents_ok sha v"
  by (simp add: state_ok_def verify_state_eq_Inr)

lemma without_upd: "without k K (upd k x v) = without k K v"
  by (simp add: without_def fld_upd)

lemma digest_of_text: "\<forall>s. hex64 (sha s) \<Longrightarrow> digest_text (JStr (digest_of sha v)) \<and> sha_text (digest_of sha v)"
  by (simp add: digest_text_def digest_of_def)

lemma sealed_ok: "contents_ok sha v \<Longrightarrow> \<forall>s. hex64 (sha s) \<Longrightarrow> atomic_write sha v = Inr (seal_state sha v) \<and> state_ok sha (seal_state sha v)"
proof -
  assume v: "contents_ok sha v" "\<forall>s. hex64 (sha s)"
  then have "contents_ok sha (seal_state sha v)"
    by (simp add: contents_ok_def seal_state_def fld_upd keys_are_upd state_keys_def)
  then show ?thesis
    using v(2) digest_of_text by (simp add: atomic_write_def state_ok_def verify_state_eq_Inr seal_state_def fld_upd without_upd)
qed

lemma contents_set_entry:
  assumes "contents_ok sha v" "check_entry sha (digest, entry) = Inr ()"
  shows "contents_ok sha (set_entry digest entry v)"
proof -
  have old: "kv = (digest, entry) \<or> kv \<in> set kvs" if "kv \<in> set (AList.update digest entry kvs)" for kv kvs
    using that by (induction kvs) (auto split: if_splits)
  then have "check_entry sha kv = Inr ()" if "kv \<in> set (the_obj (upd digest entry (fld v ''entries'')))" for kv
  proof -
    have "kv \<in> set (AList.update digest entry (the_obj (fld v ''entries'')))" using that by (simp add: upd_def)
    then show ?thesis using old[of kv "the_obj (fld v ''entries'')"] assms unfolding contents_ok_def by metis
  qed
  then show ?thesis using assms(1) by (simp add: contents_ok_def set_entry_def fld_upd keys_are_upd state_keys_def)
qed

lemma contents_append_history:
  assumes "contents_ok sha v" "\<forall>s. hex64 (sha s)" "kind \<in> set history_kinds'" "sha_text digest"
    "parse_time at = Some t" "strict_text (JStr owner) [] = Inr owner"
  shows "contents_ok sha (append_history sha kind digest at owner v)"
proof -
  let ?history = "the_list (fld v ''history'')"
  define event where "event = JObj [(''sequence'', JInt (int (length ?history) + 1)), (''kind'', JStr kind), (''key_sha256'', JStr digest),
    (''at'', JStr at), (''owner_token'', JStr owner), (''previous_event_sha256'', last_digest ?history)]"
  define event' where "event' = upd ''event_sha256'' (JStr (digest_of sha event)) event"
  from assms(1) obtain s where s: "foldR (check_history_event sha) (1, JNull) ?history = Inr s" by (auto simp: contents_ok_def)
  then have s': "s = (int (length ?history) + 1, last_digest ?history)" by (rule history_fold)
  have flds: "fld event' ''sequence'' = JInt (int (length ?history) + 1)" "fld event' ''kind'' = JStr kind"
    "fld event' ''key_sha256'' = JStr digest" "fld event' ''at'' = JStr at" "fld event' ''owner_token'' = JStr owner"
    "fld event' ''previous_event_sha256'' = last_digest ?history" "fld event' ''event_sha256'' = JStr (digest_of sha event)"
    by (simp_all add: event'_def event_def fld_upd fld_JObj_Cons)
  have "without ''event_sha256'' history_keys event' = event"
    by (simp add: without_def history_keys_def flds event_def)
  moreover have "keys_are event' history_keys"
    unfolding event'_def event_def by (simp add: keys_are_iff set_keys_upd) (auto simp: history_keys_def keys_def)
  moreover have "strict_text (JStr owner) ''preflight_owner_token_invalid'' = Inr owner" using assms(6) strict_text_any by blast
  moreover have "broker_time (JStr at) ''preflight_history_timestamp_invalid'' = Inr t" using assms(5) by (simp add: broker_time_eq_Inr)
  ultimately have "check_history_event sha s event' = Inr (int (length ?history) + 2, JStr (digest_of sha event))"
    using assms(3,4) by (simp add: check_history_event_def s' flds digest_text_def require_in_def guard_def)
  then have "foldR (check_history_event sha) (1, JNull) (?history @ [event']) = Inr (int (length ?history) + 2, JStr (digest_of sha event))"
    using s by (auto simp: foldR_snoc_Inr)
  moreover have "append_history sha kind digest at owner v = upd ''history'' (JList (?history @ [event'])) v"
    by (simp add: append_history_def event'_def event_def last_digest_def Let_def)
  ultimately show ?thesis
    using assms(1) by (simp add: contents_ok_def fld_upd keys_are_upd state_keys_def)
qed
lemma state_ok_iff: "\<exists>w. verify_state sha v = Inr w \<Longrightarrow> state_ok sha v"
  by (auto simp: state_ok_def verify_state_eq_Inr)

lemma empty_state_ok: "\<forall>s. hex64 (sha s) \<Longrightarrow> state_ok sha (empty_state sha)"
proof -
  let ?state = "JObj [(''schema_version'', JInt 1), (''entries'', JObj []), (''history'', JList [])]"
  assume sha: "\<forall>s. hex64 (sha s)"
  have state: "empty_state sha = upd ''state_sha256'' (JStr (digest_of sha ?state)) ?state"
    by (simp add: empty_state_def Let_def)
  have "without ''state_sha256'' state_keys ?state = ?state" by (simp add: without_def state_keys_def fld_JObj_Cons)
  moreover have "contents_ok sha (empty_state sha)"
    by (simp add: state contents_ok_def fld_upd fld_JObj_Cons keys_are_iff set_keys_upd version_one_def)
      (auto simp: state_keys_def keys_def)
  ultimately show ?thesis
    using digest_of_text[OF sha] by (simp add: state_ok_def verify_state_eq_Inr state fld_upd without_upd)
qed

lemma read_state_ok: "read_state sha f = Inr v \<Longrightarrow> \<forall>s. hex64 (sha s) \<Longrightarrow> state_ok sha v"
proof (cases f)
  case (Some w)
  assume "read_state sha f = Inr v"
  then have "verify_state sha w = Inr v" by (simp add: read_state_def Some)
  then show ?thesis unfolding state_ok_def by (metis verify_state_eq_Inr)
qed (auto simp: read_state_def empty_state_ok)

lemma entry_of_append_history [simp]: "entry_of (append_history sha kind d at owner v) d' = entry_of v d'"
  by (simp add: entry_of_def append_history_def Let_def fld_upd)

lemma entry_of_set_entry: "entry_of (set_entry d e v) d' = (if d' = d then Some e else entry_of v d')"
  by (simp add: entry_of_def set_entry_def fld_upd get_upd)

lemma entry_of_seal [simp]: "entry_of (seal_state sha v) d = entry_of v d"
  by (simp add: entry_of_def seal_state_def fld_upd)

lemma atomic_write_entry: "atomic_write sha v = Inr w \<Longrightarrow> state_ok sha w \<and> entry_of w d = entry_of v d"
  by (auto simp: atomic_write_def verify_state_eq_Inr state_ok_def)

section \<open>Entries\<close>

lemma entry_checked: "state_ok sha v \<Longrightarrow> entry_of v d = Some e \<Longrightarrow> check_entry sha (d, e) = Inr ()"
  unfolding entry_of_def get_def by (auto simp: contents_ok_def dest!: state_ok_contents map_of_SomeD)

lemma check_lease_eq_Inr: "check_lease l = Inr () \<longleftrightarrow> keys_are l lease_keys \<and>
    (\<exists>s. strict_text (fld l ''owner_token'') ''preflight_owner_token_invalid'' = Inr s) \<and>
    (\<exists>a e. (\<exists>s. fld l ''acquired_at'' = JStr s \<and> parse_time s = Some a) \<and>
      (\<exists>s. fld l ''expires_at'' = JStr s \<and> parse_time s = Some e) \<and> a < e \<and> e - a \<le> max_ttl * 1000000)"
  unfolding check_lease_def by (auto simp: result_simps broker_time_eq_Inr)

lemma lease_expiry: "state_ok sha v \<Longrightarrow> entry_of v d = Some e \<Longrightarrow> fld e ''lease'' \<noteq> JNull \<Longrightarrow>
    \<exists>x. \<forall>c. expiry_of (fld e ''lease'') c = Inr x"
proof -
  assume "state_ok sha v" "entry_of v d = Some e" "fld e ''lease'' \<noteq> JNull"
  then have "check_lease (fld e ''lease'') = Inr ()"
    using entry_checked[of sha v d e] by (auto simp: check_entry_def result_simps split: if_splits)
  then show ?thesis by (auto simp: check_lease_eq_Inr expiry_of_def broker_time_text)
qed

lemma verify_observation_times: "verify_observation v key = Inr w \<Longrightarrow> w = v \<and> (\<exists>a s e s'.
    fld v ''observed_at'' = JStr s \<and> parse_time s = Some a \<and>
    fld v ''expires_at'' = JStr s' \<and> parse_time s' = Some e \<and> a < e \<and> e - a \<le> max_ttl * 1000000)"
  unfolding verify_observation_def by (auto simp: bind_eq_Inr broker_time_eq_Inr split: if_splits)

lemma observation_checked:
  assumes "state_ok sha v" "entry_of v d = Some e" "fld e ''observation'' \<noteq> JNull"
  obtains key where "verify_observation (fld e ''observation'') key = Inr (fld e ''observation'')"
    "normalize_key (fld e ''key'') = Inr key" "d = digest_of sha key"
  using entry_checked[OF assms(1,2)] assms(3) verify_observation_times
  by (fastforce simp: check_entry_def bind_eq_Inr split: if_splits)

lemma current_total: "state_ok sha v \<Longrightarrow> k = ''observation'' \<or> k = ''lease'' \<Longrightarrow> \<exists>b. current (entry_of v d) k t c = Inr b"
proof (cases "entry_of v d")
  case (Some e)
  assume v: "state_ok sha v" and k: "k = ''observation'' \<or> k = ''lease''"
  have "\<exists>x. expiry_of (fld e k) c = Inr x" if "fld e k \<noteq> JNull"
  proof (cases "k = ''lease''")
    case True
    then show ?thesis using lease_expiry[OF v Some] that by blast
  next
    case False
    then have "k = ''observation''" using k by simp
    then show ?thesis
      using observation_checked[OF v Some] that verify_observation_times by (metis broker_time_text expiry_of_def)
  qed
  then show ?thesis by (auto simp: current_def Some)
qed (auto simp: current_def)

section \<open>Granting a probe\<close>

definition the_lease :: "string \<Rightarrow> string \<Rightarrow> string \<Rightarrow> json" where
  "the_lease owner now expires_at = JObj [(''owner_token'', JStr owner), (''acquired_at'', JStr now), (''expires_at'', JStr expires_at)]"

lemma claim_entry_ok:
  assumes "\<forall>s. hex64 (sha s)" "normalize_key key = Inr key" "strict_text (JStr owner) [] = Inr owner"
    "parse_time now = Some t" "parse_time e = Some (t + n * 1000000)" "1 \<le> n" "n \<le> 300"
  shows "check_entry sha (digest_of sha key, JObj [(''key'', key), (''lease'', the_lease owner now e), (''observation'', JNull)]) = Inr ()"
proof -
  have "keys_are (the_lease owner now e) lease_keys" by (auto simp: keys_are_iff the_lease_def lease_keys_def keys_def)
  moreover have "strict_text (JStr owner) ''preflight_owner_token_invalid'' = Inr owner" using assms(3) strict_text_any by blast
  ultimately have "check_lease (the_lease owner now e) = Inr ()"
    using assms(4-7) by (auto simp: check_lease_eq_Inr the_lease_def fld_JObj_Cons max_ttl_def)
  moreover have "keys_are (JObj [(''key'', key), (''lease'', the_lease owner now e), (''observation'', JNull)]) entry_keys"
    by (auto simp: keys_are_iff entry_keys_def keys_def)
  ultimately show ?thesis
    using assms(2) digest_of_text[OF assms(1)] by (simp add: check_entry_def fld_JObj_Cons the_lease_def)
qed

lemma claim_probe_ok:
  assumes "state_ok sha v" "\<forall>s. hex64 (sha s)" "normalize_key key = Inr key" "strict_text (JStr owner) [] = Inr owner"
    "parse_time now = Some t" "add_seconds t n = Inr u" "1 \<le> n" "n \<le> 300"
  obtains w r where "claim_probe sha v key (digest_of sha key) owner now t n =
      Inr (Some w, probe_answer ''probe_required'' (digest_of sha key) (the_lease owner now (time_text u)) r)"
    "state_ok sha w" "entry_of w (digest_of sha key) = Some (JObj [(''key'', key), (''lease'', the_lease owner now (time_text u)), (''observation'', JNull)])"
    "parse_time (time_text u) = Some (t + n * 1000000)"
proof -
  let ?d = "digest_of sha key" and ?entry = "JObj [(''key'', key), (''lease'', the_lease owner now (time_text u)), (''observation'', JNull)]"
  have u: "u = t + n * 1000000" using assms(6) by (auto simp: add_seconds_def Let_def split: if_splits)
  have e: "parse_time (time_text u) = Some (t + n * 1000000)" using add_seconds_text[OF assms(5,6)] assms(7) u by simp
  define r where "r = (case entry_of v ?d of None \<Rightarrow> False | Some e \<Rightarrow> fld e ''lease'' \<noteq> JNull)"
  define kind where "kind = (if r then ''probe_recovered'' else ''probe_claimed'')"
  let ?v = "append_history sha kind ?d now owner (set_entry ?d ?entry v)"
  have "kind \<in> set history_kinds'" by (simp add: kind_def history_kinds'_def)
  then have "contents_ok sha ?v"
    using digest_of_text[OF assms(2)] assms contents_set_entry[OF state_ok_contents[OF assms(1)] claim_entry_ok[OF assms(2-5) e assms(7,8)]]
    by (intro contents_append_history) auto
  from sealed_ok[OF this assms(2)] have w: "atomic_write sha ?v = Inr (seal_state sha ?v)" "state_ok sha (seal_state sha ?v)" by simp_all
  have "claim_probe sha v key ?d owner now t n = Inr (Some (seal_state sha ?v), probe_answer ''probe_required'' ?d (the_lease owner now (time_text u)) r)"
    using assms(6) w(1) by (simp add: claim_probe_def Let_def r_def kind_def the_lease_def)
  then show thesis by (rule that[OF _ w(2) _ e]) (simp add: entry_of_set_entry)
qed

definition answer_keys :: "string list" where
  "answer_keys = [''schema_version'', ''decision'', ''key_sha256'', ''lease'', ''recovered_abandoned_lease'']"

definition file_ok :: "(string \<Rightarrow> string) \<Rightarrow> json option \<Rightarrow> bool" where
  "file_ok sha f = (case f of None \<Rightarrow> True | Some v \<Rightarrow> state_ok sha v)"

lemma read_file_ok: "file_ok sha f \<Longrightarrow> \<forall>s. hex64 (sha s) \<Longrightarrow> \<exists>v. read_state sha f = Inr v \<and> state_ok sha v"
  using empty_state_ok by (cases f) (auto simp: file_ok_def read_state_def state_ok_def)

lemma hit_or_leased: "current (entry_of v d) k t c = Inr True \<Longrightarrow> \<exists>e. entry_of v d = Some e"
  by (auto simp: current_def split: option.splits)

text \<open>
  C30: a request for a probe, with a key, an owner, a time and a duration that are accepted, on no
  file or a valid state, is always answered: by the cached observation, by the lease of the probe
  in flight or by a new lease; and the state it leaves is valid. No operation is refused because of
  what earlier operations left in the file.
\<close>

theorem request_probe_total:
  assumes "\<forall>s. hex64 (sha s)" "file_ok sha f"
    and "normalize_key key_value = Inr key" "strict_text owner_token ''preflight_owner_token_invalid'' = Inr owner"
    and "broker_time now ''preflight_request_timestamp_invalid'' = Inr t"
    and "duration seconds ''preflight_lease_duration_invalid'' = Inr n" "add_seconds t n = Inr u"
  shows "\<exists>f' answer. request_probe sha f key_value owner_token now seconds = Inr (f', answer) \<and> file_ok sha f' \<and>
    fld answer ''decision'' \<in> {JStr ''cache_hit'', JStr ''probe_in_flight'', JStr ''probe_required''}"
proof -
  let ?d = "digest_of sha key"
  obtain v where v: "read_state sha f = Inr v" "state_ok sha v" using read_file_ok[OF assms(2,1)] by blast
  obtain hit where hit: "current (entry_of v ?d) ''observation'' t ''preflight_expires_at_invalid'' = Inr hit"
    using current_total[OF v(2)] by metis
  obtain leased where leased: "current (entry_of v ?d) ''lease'' t ''preflight_lease_expires_at_invalid'' = Inr leased"
    using current_total[OF v(2)] by metis
  obtain s where now: "now = JStr s" "parse_time s = Some t" using assms(5) by (auto simp: broker_time_eq_Inr)
  note steps = request_probe_def assms(3,4,6) assms(5)[unfolded now(1)] v(1) hit leased Let_def
  have owner: "strict_text (JStr owner) [] = Inr owner" using assms(4) strict_text_eq_Inr by blast
  have n: "1 \<le> n" "n \<le> 300" using assms(6) by (simp_all add: duration_eq_Inr)
  obtain w r where "claim_probe sha v key ?d owner s t n = Inr (Some w, probe_answer ''probe_required'' ?d (the_lease owner s (time_text u)) r)"
    "state_ok sha w"
    using claim_probe_ok[OF v(2) assms(1) normalize_key_idem(1)[OF assms(3)] owner now(2) assms(7) n] .
  then show ?thesis
    using assms(2) by (cases hit; cases leased) (simp_all add: steps now(1) file_ok_def cache_hit_def probe_answer_def fld_JObj_Cons)
qed

section \<open>A probe in flight\<close>

text \<open>the calls that may change the file; one that fails leaves it as it is\<close>

datatype call =
    Request (call_key: json) (call_owner: json) (call_now: json) (call_seconds: json)
  | Record (call_key: json) (call_owner: json) (call_now: json) (call_seconds: json) (call_value: json)

definition answer :: "(string \<Rightarrow> string) \<Rightarrow> json option \<Rightarrow> call \<Rightarrow> (json option \<times> json) result" where
  "answer sha f c = (case c of
     Request key owner now seconds \<Rightarrow> request_probe sha f key owner now seconds
   | Record key owner now seconds v \<Rightarrow> record_observation sha f key v owner now seconds)"

definition serve :: "(string \<Rightarrow> string) \<Rightarrow> call \<Rightarrow> json option \<Rightarrow> json option" where
  "serve sha c f = (case answer sha f c of Inl e \<Rightarrow> f | Inr r \<Rightarrow> fst r)"

text \<open>a lease at \<open>d\<close> held by \<open>owner\<close> until \<open>e\<close>, and no observation that is current after \<open>t\<close>\<close>

definition in_flight :: "(string \<Rightarrow> string) \<Rightarrow> string \<Rightarrow> json \<Rightarrow> int \<Rightarrow> int \<Rightarrow> json option \<Rightarrow> bool" where
  "in_flight sha d lease e t f \<longleftrightarrow> (\<exists>v entry. f = Some v \<and> state_ok sha v \<and> entry_of v d = Some entry \<and>
     fld entry ''lease'' = lease \<and> lease \<noteq> JNull \<and> (\<forall>c. expiry_of lease c = Inr e) \<and>
     (fld entry ''observation'' \<noteq> JNull \<longrightarrow> (\<exists>x. (\<forall>c. expiry_of (fld entry ''observation'') c = Inr x) \<and> x \<le> t)))"

lemma request_probe_cases:
  assumes "request_probe sha f kv ot now sec = Inr (f', ans)"
  obtains key owner s t n v where "normalize_key kv = Inr key" "strict_text ot ''preflight_owner_token_invalid'' = Inr owner"
    "now = JStr s" "parse_time s = Some t" "1 \<le> n" "n \<le> 300" "read_state sha f = Inr v"
    "(f' = f \<and> current (entry_of v (digest_of sha key)) ''observation'' t ''preflight_expires_at_invalid'' = Inr True \<and>
       ans = cache_hit (digest_of sha key) (fld (the (entry_of v (digest_of sha key))) ''observation'')) \<or>
     (f' = f \<and> current (entry_of v (digest_of sha key)) ''observation'' t ''preflight_expires_at_invalid'' = Inr False \<and>
       current (entry_of v (digest_of sha key)) ''lease'' t ''preflight_lease_expires_at_invalid'' = Inr True \<and>
       ans = probe_answer (if fld (fld (the (entry_of v (digest_of sha key))) ''lease'') ''owner_token'' = JStr owner
         then ''probe_required'' else ''probe_in_flight'') (digest_of sha key) (fld (the (entry_of v (digest_of sha key))) ''lease'') False) \<or>
     (current (entry_of v (digest_of sha key)) ''lease'' t ''preflight_lease_expires_at_invalid'' = Inr False \<and>
       claim_probe sha v key (digest_of sha key) owner s t n = Inr (f', ans))"
proof -
  from assms obtain key owner t n v hit where a: "normalize_key kv = Inr key" "strict_text ot ''preflight_owner_token_invalid'' = Inr owner"
    "broker_time now ''preflight_request_timestamp_invalid'' = Inr t" "duration sec ''preflight_lease_duration_invalid'' = Inr n"
    "read_state sha f = Inr v" "current (entry_of v (digest_of sha key)) ''observation'' t ''preflight_expires_at_invalid'' = Inr hit"
    by (auto simp: request_probe_def bind_eq_Inr Let_def)
  obtain s where s: "now = JStr s" "parse_time s = Some t" using a(3) by (auto simp: broker_time_eq_Inr)
  have n: "1 \<le> n" "n \<le> 300" using a(4) by (simp_all add: duration_eq_Inr)
  note steps = request_probe_def a(1,2,4,5,6) a(3)[unfolded s(1)] s(1) Let_def bind_eq_Inr
  show thesis using assms by (intro that[OF a(1,2) s n a(5)]) (cases hit; auto simp: steps split: if_splits)
qed

lemma claim_probe_result: "claim_probe sha v key d owner now t n = Inr (f', ans) \<Longrightarrow>
    \<exists>u r w. add_seconds t n = Inr u \<and> f' = Some w \<and> state_ok sha w \<and>
      ans = probe_answer ''probe_required'' d (the_lease owner now (time_text u)) r \<and>
      (\<forall>d'. entry_of w d' = (if d' = d then Some (JObj [(''key'', key), (''lease'', the_lease owner now (time_text u)), (''observation'', JNull)])
        else entry_of v d'))"
proof -
  assume *: "claim_probe sha v key d owner now t n = Inr (f', ans)"
  then obtain u where u: "add_seconds t n = Inr u" by (auto simp: claim_probe_def bind_eq_Inr time_text_result_eq_Inr)
  show ?thesis
    using * atomic_write_entry
    by (fastforce simp: claim_probe_def u Let_def bind_eq_Inr the_lease_def entry_of_set_entry)
qed

lemma record_observation_cases:
  assumes "record_observation sha f kv ov ot now sec = Inr (f', ans)"
  obtains key owner s t n u v entry w e where "normalize_key kv = Inr key" "strict_text ot ''preflight_owner_token_invalid'' = Inr owner"
    "now = JStr s" "parse_time s = Some t" "1 \<le> n" "n \<le> 300" "sec = JInt n" "add_seconds t n = Inr u" "read_state sha f = Inr v"
    "keys_are ov observation_input_keys" "entry_of v (digest_of sha key) = Some entry" "fld entry ''lease'' \<noteq> JNull"
    "fld (fld entry ''lease'') ''owner_token'' = JStr owner" "expiry_of (fld entry ''lease'') ''preflight_lease_expires_at_invalid'' = Inr e" "t < e"
    "f' = Some w" "state_ok sha w"
    "\<And>d'. entry_of w d' = (if d' = digest_of sha key
       then Some (upd ''observation'' (make_observation ov key s (time_text u)) (upd ''lease'' JNull entry)) else entry_of v d')"
    "fld ans ''observation'' = make_observation ov key s (time_text u)"
proof -
  from assms obtain key owner t n u v where a: "normalize_key kv = Inr key" "strict_text ot ''preflight_owner_token_invalid'' = Inr owner"
    "broker_time now ''preflight_record_timestamp_invalid'' = Inr t" "duration sec ''preflight_ttl_invalid'' = Inr n"
    "add_seconds t n = Inr u" "read_state sha f = Inr v" and shape: "keys_are ov observation_input_keys" "version_one (fld ov ''schema_version'')"
    by (auto simp: record_observation_def bind_eq_Inr time_text_result_eq_Inr Let_def split: if_splits)
  obtain s where s: "now = JStr s" "parse_time s = Some t" using a(3) by (auto simp: broker_time_eq_Inr)
  have n: "sec = JInt n" "1 \<le> n" "n \<le> 300" using a(4) by (simp_all add: duration_eq_Inr)
  let ?d = "digest_of sha key" and ?o = "make_observation ov key s (time_text u)"
  have run: "record_observation sha f kv ov ot now sec = Inr (f', ans)" by (rule assms)
  note steps = record_observation_def a(1,2,4,5,6) a(3)[unfolded s(1)] s(1) shape Let_def bind_eq_Inr
  from run obtain entry where e: "entry_of v ?d = Some entry" by (cases "entry_of v ?d") (auto simp: steps)
  from run obtain e where l: "fld entry ''lease'' \<noteq> JNull" "fld (fld entry ''lease'') ''owner_token'' = JStr owner"
    "expiry_of (fld entry ''lease'') ''preflight_lease_expires_at_invalid'' = Inr e" "t < e"
    by (auto simp: steps e split: if_splits)
  from run obtain w where w: "atomic_write sha (append_history sha ''observation_recorded'' ?d s owner
      (set_entry ?d (upd ''observation'' ?o (upd ''lease'' JNull entry)) v)) = Inr w" "f' = Some w" "fld ans ''observation'' = ?o"
    using l by (auto simp: steps e fld_JObj_Cons split: if_splits)
  show thesis
    by (rule that[OF a(1,2) s n(2,3,1) a(5,6) shape(1) e l w(2) _ _ w(3)]) (use atomic_write_entry[OF w(1)] in \<open>auto simp: entry_of_set_entry\<close>)
qed

lemma record_observation_ok:
  assumes "state_ok sha v" "\<forall>s. hex64 (sha s)" "normalize_key kv = Inr key" "strict_text (JStr owner) [] = Inr owner"
    "parse_time s = Some t" "1 \<le> n" "n \<le> 300" "add_seconds t n = Inr u"
    and given: "keys_are ov observation_input_keys" "version_one (fld ov ''schema_version'')"
      "verify_observation (make_observation ov key s (time_text u)) key = Inr w"
    and entry: "entry_of v (digest_of sha key) = Some entry" "fld entry ''key'' = key"
      "fld entry ''lease'' = the_lease owner a b" "parse_time b = Some e" "t < e"
  shows "\<exists>w ans. record_observation sha (Some v) kv ov (JStr owner) (JStr s) (JInt n) = Inr (Some w, ans) \<and> state_ok sha w"
proof -
  let ?d = "digest_of sha key" and ?o = "make_observation ov key s (time_text u)"
  let ?entry = "upd ''observation'' ?o (upd ''lease'' JNull entry)"
  let ?v = "append_history sha ''observation_recorded'' ?d s owner (set_entry ?d ?entry v)"
  have any: "strict_text (JStr owner) c = Inr owner" for c using assms(4) strict_text_any by blast
  have "keys_are entry entry_keys" using entry_checked[OF assms(1) entry(1)] by (auto simp: check_entry_def split: if_splits)
  then have "keys_are ?entry entry_keys" by (intro keys_are_upd) (simp_all add: entry_keys_def)
  then have "check_entry sha (?d, ?entry) = Inr ()"
    using digest_of_text[OF assms(2)] given(3)
    by (simp add: check_entry_def fld_upd entry(2) normalize_key_idem(1)[OF assms(3)])
  then have "contents_ok sha ?v"
    using contents_set_entry[OF state_ok_contents[OF assms(1)]] digest_of_text[OF assms(2)] assms
    by (intro contents_append_history) (auto simp: history_kinds'_def)
  from sealed_ok[OF this assms(2)] have w: "atomic_write sha ?v = Inr (seal_state sha ?v)" "state_ok sha (seal_state sha ?v)" by simp_all
  have lease: "the_lease owner a b \<noteq> JNull" "fld (the_lease owner a b) ''owner_token'' = JStr owner"
    "expiry_of (the_lease owner a b) c = Inr e" for c
    using entry(4) by (simp_all add: the_lease_def fld_JObj_Cons expiry_of_def broker_time_text)
  have n: "duration (JInt n) c = Inr n" for c using assms(6,7) by (simp add: duration_eq_Inr)
  have v: "verify_state sha v = Inr v" using assms(1) by (simp add: state_ok_def)
  show ?thesis
    using w entry(5) given
    by (simp add: record_observation_def assms(3,8) any broker_time_text[OF assms(5)] n read_state_def v entry(1,3) lease Let_def)
qed

definition foreign :: "json \<Rightarrow> int \<Rightarrow> call \<Rightarrow> bool" where
  "foreign lease e c = ((case parse_time (the_str (call_now c)) of None \<Rightarrow> True | Some t \<Rightarrow> t < e) \<and>
     (case c of Request key owner now seconds \<Rightarrow> True | Record key owner now seconds v \<Rightarrow> owner \<noteq> fld lease ''owner_token''))"

lemma current_lease: "in_flight sha d lease e t0 (Some v) \<Longrightarrow> current (entry_of v d) ''lease'' t c = Inr (t < e)"
  by (auto simp: in_flight_def current_def)

lemma in_flight_read: "in_flight sha d lease e t0 f \<Longrightarrow> read_state sha f = Inr v \<Longrightarrow> f = Some v"
  by (auto simp: in_flight_def read_state_def state_ok_def)

lemma in_flight_keep: "in_flight sha d lease e t0 (Some v) \<Longrightarrow> state_ok sha w \<Longrightarrow> entry_of w d = entry_of v d \<Longrightarrow>
    in_flight sha d lease e t0 (Some w)"
  by (auto simp: in_flight_def)

lemma in_flight_serve:
  assumes flight: "in_flight sha d lease e t0 f" and c: "foreign lease e c"
  shows "in_flight sha d lease e t0 (serve sha c f)"
proof (cases "answer sha f c")
  case (Inr r)
  obtain f' ans where r: "answer sha f c = Inr (f', ans)" using Inr by (cases r) simp
  have "in_flight sha d lease e t0 f'"
  proof (cases c)
    case (Request kv ot now sec)
    then have run: "request_probe sha f kv ot now sec = Inr (f', ans)" using r by (simp add: answer_def)
    show ?thesis
    proof (rule request_probe_cases[OF run])
      fix key owner s t n v
      assume s: "now = JStr s" "parse_time s = Some t" and v: "read_state sha f = Inr v" and
        cases: "f' = f \<and> current (entry_of v (digest_of sha key)) ''observation'' t ''preflight_expires_at_invalid'' = Inr True \<and>
           ans = cache_hit (digest_of sha key) (fld (the (entry_of v (digest_of sha key))) ''observation'') \<or>
         f' = f \<and> current (entry_of v (digest_of sha key)) ''observation'' t ''preflight_expires_at_invalid'' = Inr False \<and>
           current (entry_of v (digest_of sha key)) ''lease'' t ''preflight_lease_expires_at_invalid'' = Inr True \<and>
           ans = probe_answer (if fld (fld (the (entry_of v (digest_of sha key))) ''lease'') ''owner_token'' = JStr owner
             then ''probe_required'' else ''probe_in_flight'') (digest_of sha key) (fld (the (entry_of v (digest_of sha key))) ''lease'') False \<or>
         current (entry_of v (digest_of sha key)) ''lease'' t ''preflight_lease_expires_at_invalid'' = Inr False \<and>
           claim_probe sha v key (digest_of sha key) owner s t n = Inr (f', ans)"
      have f: "f = Some v" by (rule in_flight_read[OF flight v])
      have "t < e" using c s by (simp add: foreign_def Request)
      show ?thesis
      proof (cases "f' = f")
        case False
        then have new: "current (entry_of v (digest_of sha key)) ''lease'' t ''preflight_lease_expires_at_invalid'' = Inr False"
          "claim_probe sha v key (digest_of sha key) owner s t n = Inr (f', ans)" using cases by blast+
        then have "digest_of sha key \<noteq> d"
          using current_lease[OF flight[unfolded f], of t "''preflight_lease_expires_at_invalid''"] \<open>t < e\<close> by auto
        with claim_probe_result[OF new(2)] show ?thesis using flight[unfolded f] in_flight_keep by auto
      qed (simp add: flight)
    qed
  next
    case (Record kv ot now sec ov)
    then have run: "record_observation sha f kv ov ot now sec = Inr (f', ans)" using r by (simp add: answer_def)
    show ?thesis
    proof (rule record_observation_cases[OF run])
      fix key owner s t n u v entry w e
      assume v: "read_state sha f = Inr v" and o: "strict_text ot ''preflight_owner_token_invalid'' = Inr owner"
        and entry: "entry_of v (digest_of sha key) = Some entry" "fld (fld entry ''lease'') ''owner_token'' = JStr owner"
        and w: "f' = Some w" "state_ok sha w"
        and others: "\<And>d'. entry_of w d' = (if d' = digest_of sha key then Some (upd ''observation'' (make_observation ov key s (time_text u)) (upd ''lease'' JNull entry)) else entry_of v d')"
      have f: "f = Some v" by (rule in_flight_read[OF flight v])
      have "ot = JStr owner" using o strict_text_eq_Inr by blast
      then have "digest_of sha key \<noteq> d" using flight entry c by (auto simp: in_flight_def f foreign_def Record)
      then show ?thesis using in_flight_keep[OF flight[unfolded f] w(2)] w(1) others[of d] by simp
    qed
  qed
  then show ?thesis by (simp add: serve_def r)
qed (simp add: serve_def flight)

lemma expiry_any: "expiry_of l c = Inr e \<Longrightarrow> expiry_of l c' = Inr e"
  by (simp add: expiry_of_def broker_time_eq_Inr)

lemma strict_text_is: "strict_text v c = Inr s \<Longrightarrow> v = JStr s"
  by (cases v) (auto simp: strict_text_def split: if_splits)

lemma current_False: "current (entry_of v d) k t c = Inr False \<Longrightarrow> entry_of v d = Some e \<Longrightarrow> fld e k \<noteq> JNull \<Longrightarrow>
    \<exists>x. (\<forall>c'. expiry_of (fld e k) c' = Inr x) \<and> x \<le> t"
proof -
  assume "current (entry_of v d) k t c = Inr False" "entry_of v d = Some e" "fld e k \<noteq> JNull"
  then obtain x where "expiry_of (fld e k) c = Inr x" "x \<le> t" by (auto simp: current_def bind_eq_Inr)
  then show ?thesis using expiry_any by blast
qed

lemma current_True: "current (entry_of v d) k t c = Inr True \<Longrightarrow>
    \<exists>e x. entry_of v d = Some e \<and> fld e k \<noteq> JNull \<and> (\<forall>c'. expiry_of (fld e k) c' = Inr x) \<and> t < x"
proof -
  assume "current (entry_of v d) k t c = Inr True"
  then obtain e x where "entry_of v d = Some e" "fld e k \<noteq> JNull" "expiry_of (fld e k) c = Inr x" "t < x"
    by (auto simp: current_def bind_eq_Inr split: option.splits if_splits)
  then show ?thesis using expiry_any by blast
qed

lemma granted_in_flight:
  assumes sha: "\<forall>s. hex64 (sha s)" and run: "request_probe sha f kv ot now sec = Inr (f', ans)"
    and grant: "fld ans ''decision'' = JStr ''probe_required''" and e: "expiry_of (fld ans ''lease'') [] = Inr e"
    and t: "parse_time (the_str now) = Some t" and key: "normalize_key kv = Inr key"
  shows "in_flight sha (digest_of sha key) (fld ans ''lease'') e t f' \<and> fld (fld ans ''lease'') ''owner_token'' = ot"
proof (rule request_probe_cases[OF run])
  fix key' owner s t' n v
  let ?d = "digest_of sha key'"
  assume k: "normalize_key kv = Inr key'" and o: "strict_text ot ''preflight_owner_token_invalid'' = Inr owner"
    and s: "now = JStr s" "parse_time s = Some t'" and v: "read_state sha f = Inr v" and
    cases: "f' = f \<and> current (entry_of v ?d) ''observation'' t' ''preflight_expires_at_invalid'' = Inr True \<and>
       ans = cache_hit ?d (fld (the (entry_of v ?d)) ''observation'') \<or>
     f' = f \<and> current (entry_of v ?d) ''observation'' t' ''preflight_expires_at_invalid'' = Inr False \<and>
       current (entry_of v ?d) ''lease'' t' ''preflight_lease_expires_at_invalid'' = Inr True \<and>
       ans = probe_answer (if fld (fld (the (entry_of v ?d)) ''lease'') ''owner_token'' = JStr owner
         then ''probe_required'' else ''probe_in_flight'') ?d (fld (the (entry_of v ?d)) ''lease'') False \<or>
     current (entry_of v ?d) ''lease'' t' ''preflight_lease_expires_at_invalid'' = Inr False \<and>
       claim_probe sha v key' ?d owner s t' n = Inr (f', ans)"
  have eqs: "key' = key" "t' = t" "ot = JStr owner" using k key s t strict_text_is[OF o] by simp_all
  have any: "\<forall>c. expiry_of (fld ans ''lease'') c = Inr e" using expiry_any[OF e] by blast
  consider (old) "f' = f" "current (entry_of v ?d) ''observation'' t' ''preflight_expires_at_invalid'' = Inr False"
      "current (entry_of v ?d) ''lease'' t' ''preflight_lease_expires_at_invalid'' = Inr True"
      "fld (fld (the (entry_of v ?d)) ''lease'') ''owner_token'' = JStr owner" "fld ans ''lease'' = fld (the (entry_of v ?d)) ''lease''"
    | (new) "claim_probe sha v key' ?d owner s t' n = Inr (f', ans)"
    using cases grant by (auto simp: cache_hit_def probe_answer_def fld_JObj_Cons split: if_splits)
  then show ?thesis
  proof cases
    case old
    obtain entry where entry: "entry_of v ?d = Some entry" "fld entry ''lease'' \<noteq> JNull" using current_True[OF old(3)] by blast
    have "f \<noteq> None"
    proof
      assume "f = None"
      then have "v = empty_state sha" using v by (simp add: read_state_def)
      then show False using entry(1) by (simp add: entry_of_def empty_state_def Let_def fld_upd fld_JObj_Cons get_def)
    qed
    moreover have "state_ok sha v" by (rule read_state_ok[OF v sha])
    ultimately have "f = Some v" using v by (auto simp: read_state_def verify_state_eq_Inr)
    then show ?thesis
      using \<open>state_ok sha v\<close> entry old any current_False[OF old(2) entry(1)] eqs by (auto simp: in_flight_def)
  next
    case new
    from claim_probe_result[OF new] obtain u r w where "f' = Some w" "state_ok sha w"
      "ans = probe_answer ''probe_required'' ?d (the_lease owner s (time_text u)) r"
      "entry_of w ?d = Some (JObj [(''key'', key'), (''lease'', the_lease owner s (time_text u)), (''observation'', JNull)])" by auto
    then show ?thesis
      using any eqs by (auto simp: in_flight_def probe_answer_def fld_JObj_Cons the_lease_def)
  qed
qed

text \<open>
  C31: at most one probe is in flight per key. Once a request has been answered \<open>probe_required\<close>,
  whatever requests follow before the lease ends, by anybody and for any key, and whatever
  observations others record, successfully or not, a request by another owner for the same key
  within the lease is answered \<open>probe_in_flight\<close> with that lease, and leaves the file as it is.
\<close>

theorem probe_single_flight:
  assumes "\<forall>s. hex64 (sha s)" "request_probe sha f key_value owner now seconds = Inr (f', ans)"
    and "fld ans ''decision'' = JStr ''probe_required''" "expiry_of (fld ans ''lease'') [] = Inr e"
    and "\<forall>c \<in> set calls. foreign (fld ans ''lease'') e c"
    and "parse_time (the_str now) = Some t" "parse_time later = Some t'" "t \<le> t'" "t' < e"
    and "normalize_key key_value = Inr key" "normalize_key key_value' = Inr key" "other \<noteq> owner"
    and "strict_text other ''preflight_owner_token_invalid'' = Inr name" "duration seconds' ''preflight_lease_duration_invalid'' = Inr n"
  shows "request_probe sha (fold (serve sha) calls f') key_value' other (JStr later) seconds' =
    Inr (fold (serve sha) calls f', probe_answer ''probe_in_flight'' (digest_of sha key) (fld ans ''lease'') False)"
proof -
  let ?d = "digest_of sha key" and ?f = "fold (serve sha) calls f'"
  have start: "in_flight sha ?d (fld ans ''lease'') e t f'" "fld (fld ans ''lease'') ''owner_token'' = owner"
    using granted_in_flight[OF assms(1-4,6,10)] by simp_all
  have "in_flight sha ?d (fld ans ''lease'') e t (fold (serve sha) calls g)"
    if "in_flight sha ?d (fld ans ''lease'') e t g" "\<forall>c \<in> set calls. foreign (fld ans ''lease'') e c" for calls g
    using that by (induction calls arbitrary: g) (auto intro: in_flight_serve)
  from this[OF start(1) assms(5)] obtain v entry where v: "?f = Some v" "state_ok sha v" "entry_of v ?d = Some entry"
    "fld entry ''lease'' = fld ans ''lease''" "fld ans ''lease'' \<noteq> JNull"
    "fld entry ''observation'' \<noteq> JNull \<longrightarrow> (\<exists>x. (\<forall>c. expiry_of (fld entry ''observation'') c = Inr x) \<and> x \<le> t)"
    unfolding in_flight_def by (elim exE conjE) (rule that)
  have "current (entry_of v ?d) ''observation'' t' ''preflight_expires_at_invalid'' = Inr False"
    using v(3,6) assms(8) by (auto simp: current_def)
  moreover have "current (entry_of v ?d) ''lease'' t' ''preflight_lease_expires_at_invalid'' = Inr True"
    using v(3-5) assms(9) expiry_any[OF assms(4)] by (simp add: current_def)
  moreover have "other = JStr name" by (rule strict_text_is[OF assms(13)])
  moreover have "strict_text (JStr name) ''preflight_owner_token_invalid'' = Inr name" "owner \<noteq> JStr name"
    using assms(12,13) calculation by simp_all
  ultimately show ?thesis
    using v start(2) broker_time_text[OF assms(7)]
    by (simp add: request_probe_def assms(11,14) read_state_def state_ok_def Let_def)
qed

text \<open>
  C32: what a holder records is what readers get, for as long as it is current: after an
  observation has been recorded, reading at any time from then until it expires gives that
  observation (in canonical form), and reading at its expiry or later is refused; the time to live
  is the one asked for.
\<close>

theorem recorded_observation_read:
  assumes "record_observation sha f key_value value owner now ttl = Inr (f', ans)"
    and "parse_time (the_str now) = Some t" "parse_time later = Some t'" "t \<le> t'"
  shows "if t' < t + the_int ttl * 1000000
    then \<exists>receipt. read_current_observation sha f' key_value (JStr later) = Inr receipt \<and>
      fld receipt ''observation'' = canon (fld ans ''observation'')
    else read_current_observation sha f' key_value (JStr later) = Inl (PreflightBrokerError ''preflight_observation_expired'')"
proof (rule record_observation_cases[OF assms(1)])
  fix key own s t0 n u v entry w e
  let ?d = "digest_of sha key" and ?o = "make_observation value key s (time_text u)"
  assume key: "normalize_key key_value = Inr key" and s: "now = JStr s" "parse_time s = Some t0" and n: "1 \<le> n" "ttl = JInt n"
    and u: "add_seconds t0 n = Inr u" and w: "f' = Some w" "state_ok sha w"
    "\<And>d'. entry_of w d' = (if d' = ?d then Some (upd ''observation'' ?o (upd ''lease'' JNull entry)) else entry_of v d')"
    "fld ans ''observation'' = ?o"
  have t0: "t0 = t" using s assms(2) by simp
  have u': "u = t + the_int ttl * 1000000" using u n(2) by (auto simp: add_seconds_def Let_def t0 split: if_splits)
  have e: "parse_time (time_text u) = Some u" using add_seconds_text[OF s(2) u] n(1) by simp
  have "is_obj ?o" by (simp add: make_observation_def)
  then have "?o \<noteq> JNull" by auto
  moreover have "fld ?o ''observed_at'' = JStr s" "fld ?o ''expires_at'' = JStr (time_text u)"
    by (simp_all add: make_observation_def fld_upd)
  moreover have "verify_state sha w = Inr w" using w(2) by (simp add: state_ok_def)
  ultimately have "read_current_observation sha f' key_value (JStr later) =
      (if u \<le> t' then Inl (PreflightBrokerError ''preflight_observation_expired'')
       else Inr (JObj [(''schema_version'', JInt 1), (''status'', JStr ''current''), (''key_sha256'', JStr ?d),
           (''observation'', canon ?o), (''state_sha256'', fld w ''state_sha256''),
           (''entry_sha256'', JStr (digest_of sha (upd ''observation'' ?o (upd ''lease'' JNull entry))))]))"
    using assms(4) t0 s(2)
    by (simp add: read_current_observation_def key broker_time_text[OF assms(3)] broker_time_text[OF e] broker_time_text[OF s(2)]
      w(1,3) Let_def fld_upd)
  then show ?thesis using u' by (simp add: w(4) fld_JObj_Cons)
qed

section \<open>A sample\<close>

definition a_key :: json where
  "a_key = JObj (map (\<lambda>field. (field, JStr field)) key_fields)"

definition a_request :: "json option \<Rightarrow> string \<Rightarrow> string \<Rightarrow> (json option \<times> json) result" where
  "a_request f owner at = request_probe demo_digest f a_key (JStr owner) (JStr at) (JInt 60)"

definition a_value :: json where
  "a_value = JObj [(''schema_version'', JInt 1), (''availability'', JStr ''available''), (''health'', JStr ''healthy''),
     (''callability'', JStr ''callable''), (''receipt_descriptor'', JStr ''receipts/1.json''),
     (''receipt_digest'', JStr (sha_prefix @ demo_hash))]"

lemma a_key_ok: "normalize_key a_key = Inr a_key"
  by code_simp

lemma no_entries: "entry_of (empty_state sha) d = None"
  by (simp add: entry_of_def empty_state_def Let_def fld_upd fld_JObj_Cons get_def)

lemma a_valid: "strict_text (JStr ''ann'') c = Inr ''ann''" "strict_text (JStr ''bob'') c = Inr ''bob''"
    "broker_time (JStr ''2026-01-01T00:00:00Z'') c = Inr 63902908800000000"
    "duration (JInt 60) c = Inr 60" "add_seconds 63902908800000000 60 = Inr 63902908860000000"
    "parse_time ''2026-01-01T00:00:00Z'' = Some 63902908800000000" "time_text 63902908860000000 = ''2026-01-01T00:01:00Z''"
  by code_simp+

lemma a_lease: "\<exists>w r. a_request None ''ann'' ''2026-01-01T00:00:00Z'' = Inr (Some w,
      probe_answer ''probe_required'' (digest_of demo_digest a_key) (the_lease ''ann'' ''2026-01-01T00:00:00Z'' ''2026-01-01T00:01:00Z'') r) \<and>
    state_ok demo_digest w \<and> entry_of w (digest_of demo_digest a_key) = Some (JObj [(''key'', a_key),
      (''lease'', the_lease ''ann'' ''2026-01-01T00:00:00Z'' ''2026-01-01T00:01:00Z''), (''observation'', JNull)])"
proof (rule claim_probe_ok[OF empty_state_ok[OF demo_hex] demo_hex a_key_ok a_valid(1,6,5), unfolded a_valid(7)])
  show "1 \<le> (60::int)" "60 \<le> (300::int)" by simp_all
next
  fix w r
  assume "claim_probe demo_digest (empty_state demo_digest) a_key (digest_of demo_digest a_key) ''ann'' ''2026-01-01T00:00:00Z''
      63902908800000000 60 = Inr (Some w, probe_answer ''probe_required'' (digest_of demo_digest a_key)
        (the_lease ''ann'' ''2026-01-01T00:00:00Z'' ''2026-01-01T00:01:00Z'') r)"
    "state_ok demo_digest w" "entry_of w (digest_of demo_digest a_key) = Some (JObj [(''key'', a_key),
      (''lease'', the_lease ''ann'' ''2026-01-01T00:00:00Z'' ''2026-01-01T00:01:00Z''), (''observation'', JNull)])"
  then show ?thesis
    unfolding a_request_def request_probe_def
    by (simp add: a_key_ok a_valid(1,3,4) read_state_def Let_def no_entries current_def) blast
qed

lemma request_probe_total_witness:
  "\<exists>f answer. a_request None ''ann'' ''2026-01-01T00:00:00Z'' = Inr (f, answer) \<and> file_ok demo_digest f \<and>
    fld answer ''decision'' \<in> {JStr ''cache_hit'', JStr ''probe_in_flight'', JStr ''probe_required''}"
proof -
  have "file_ok demo_digest None" by (simp add: file_ok_def)
  from request_probe_total[OF demo_hex this a_key_ok a_valid(1,3-5)] show ?thesis by (simp add: a_request_def)
qed

lemma probe_single_flight_witness:
  "\<exists>f f' lease r. a_request None ''ann'' ''2026-01-01T00:00:00Z'' = Inr (f, probe_answer ''probe_required'' (digest_of demo_digest a_key) lease r) \<and>
    f' = serve demo_digest (Record a_key (JStr ''bob'') (JStr ''2026-01-01T00:00:30Z'') (JInt 60) a_value) f \<and>
    a_request f' ''bob'' ''2026-01-01T00:00:59Z'' = Inr (f', probe_answer ''probe_in_flight'' (digest_of demo_digest a_key) lease False)"
proof -
  let ?lease = "the_lease ''ann'' ''2026-01-01T00:00:00Z'' ''2026-01-01T00:01:00Z''"
  let ?c = "Record a_key (JStr ''bob'') (JStr ''2026-01-01T00:00:30Z'') (JInt 60) a_value"
  obtain w r where run: "request_probe demo_digest None a_key (JStr ''ann'') (JStr ''2026-01-01T00:00:00Z'') (JInt 60) =
      Inr (Some w, probe_answer ''probe_required'' (digest_of demo_digest a_key) ?lease r)"
    using a_lease unfolding a_request_def by blast
  have lease: "fld (probe_answer ''probe_required'' (digest_of demo_digest a_key) ?lease r) ''lease'' = ?lease"
    "fld (probe_answer ''probe_required'' (digest_of demo_digest a_key) ?lease r) ''decision'' = JStr ''probe_required''"
    by (simp_all add: probe_answer_def fld_JObj_Cons)
  have e: "expiry_of ?lease [] = Inr 63902908860000000" and foreign: "foreign ?lease 63902908860000000 ?c"
    and times: "parse_time (the_str (JStr ''2026-01-01T00:00:00Z'')) = Some 63902908800000000"
      "parse_time ''2026-01-01T00:00:59Z'' = Some 63902908859000000"
    by code_simp+
  have foreign': "\<forall>c \<in> set [?c]. foreign ?lease 63902908860000000 c" using foreign by simp
  have "request_probe demo_digest (serve demo_digest ?c (Some w)) a_key (JStr ''bob'') (JStr ''2026-01-01T00:00:59Z'') (JInt 60) =
      Inr (serve demo_digest ?c (Some w), probe_answer ''probe_in_flight'' (digest_of demo_digest a_key) ?lease False)"
    using probe_single_flight[OF demo_hex run lease(2), unfolded lease(1), OF e foreign' times _ _ a_key_ok a_key_ok _ a_valid(2,4)]
    by simp
  with run show ?thesis unfolding a_request_def by blast
qed

lemma recorded_observation_read_witness:
  "\<exists>f f' ans receipt. record_observation demo_digest f a_key a_value (JStr ''ann'') (JStr ''2026-01-01T00:00:30Z'') (JInt 60) = Inr (f', ans) \<and>
    read_current_observation demo_digest f' a_key (JStr ''2026-01-01T00:00:59Z'') = Inr receipt \<and>
    fld receipt ''observation'' = canon (fld ans ''observation'')"
proof -
  obtain w r where w: "state_ok demo_digest w" "entry_of w (digest_of demo_digest a_key) = Some (JObj [(''key'', a_key),
      (''lease'', the_lease ''ann'' ''2026-01-01T00:00:00Z'' ''2026-01-01T00:01:00Z''), (''observation'', JNull)])"
    using a_lease by blast
  have times: "parse_time ''2026-01-01T00:00:30Z'' = Some 63902908830000000" "add_seconds 63902908830000000 60 = Inr 63902908890000000"
    "parse_time ''2026-01-01T00:01:00Z'' = Some 63902908860000000" by code_simp+
  let ?o = "make_observation a_value a_key ''2026-01-01T00:00:30Z'' (time_text 63902908890000000)"
  have "keys_are a_value observation_input_keys" "version_one (fld a_value ''schema_version'')"
    "case verify_observation ?o a_key of Inl e \<Rightarrow> False | Inr x \<Rightarrow> True"
    by code_simp+
  then have v: "keys_are a_value observation_input_keys" "version_one (fld a_value ''schema_version'')"
    "\<exists>x. verify_observation ?o a_key = Inr x" by (auto split: sum.splits)
  obtain f f' ans where run: "record_observation demo_digest f a_key a_value (JStr ''ann'') (JStr ''2026-01-01T00:00:30Z'') (JInt 60) = Inr (f', ans)"
    using record_observation_ok[OF w(1) demo_hex a_key_ok a_valid(1) times(1) _ _ times(2) v(1,2) _ w(2), of _ "''2026-01-01T00:00:00Z''"] v(3) times(3)
    by (fastforce simp: fld_JObj_Cons)
  have "parse_time (the_str (JStr ''2026-01-01T00:00:30Z'')) = Some 63902908830000000" "parse_time ''2026-01-01T00:00:59Z'' = Some 63902908859000000"
    by code_simp+
  from recorded_observation_read[OF run this] show ?thesis using run by auto
qed

end
