(* ===== verification/Fabric.thy ===== *)
theory Fabric
  imports Broker
begin

text \<open>
  The evidence side of the route fabric, first half of \<open>scripts/route_fabric.py\<close>: checked values,
  route identities, capability cards, qualification certificates and the chain of recall events.
  All functions are pure; they only judge the documents they are given. The digests are the ones
  of the broker (\<open>digest_of\<close>: \<open>sha256:\<close> and the digest of the canonical text).
\<close>

section \<open>Checked values\<close>

abbreviation fabric_error :: "string \<Rightarrow> string \<Rightarrow> 'a result" where
  "fabric_error c d \<equiv> Inl (FabricError c d)"

definition route_fields :: "string list" where
  "route_fields = [''route_name'', ''provider'', ''exact_model'', ''route_id'', ''runtime'', ''runtime_host'',
     ''reasoning'', ''billing_basis'', ''independence_group'', ''adapter_id'', ''adapter_sha256'']"

definition dotted :: "string \<Rightarrow> string \<Rightarrow> string" where
  "dotted path key = path @ ''.'' @ key"

definition fabric_object :: "json \<Rightarrow> string \<Rightarrow> string list \<Rightarrow> string list \<Rightarrow> json result" where
  "fabric_object v field required optional =
     (if \<not> is_obj v then fabric_error ''object_required'' field
      else let unknown = sorted_diff (keys v) (required @ optional); missing = sorted_diff required (keys v) in
        if unknown \<noteq> [] then fabric_error ''unknown_field'' (dotted field (hd unknown))
        else if missing \<noteq> [] then fabric_error ''missing_field'' (dotted field (hd missing))
        else Inr v)"

definition fabric_string :: "json \<Rightarrow> string \<Rightarrow> string result" where
  "fabric_string v field = (if is_str v \<and> the_str v \<noteq> [] \<and> byte 0 \<notin> set (the_str v) then Inr (the_str v)
     else fabric_error ''string_required'' field)"

definition fabric_sha :: "json \<Rightarrow> string \<Rightarrow> string result" where
  "fabric_sha v field = bind (fabric_string v field) (\<lambda>s.
     if sha_text s then Inr s else fabric_error ''digest_invalid'' field)"

definition sha_or_unknown :: "json \<Rightarrow> string \<Rightarrow> string result" where
  "sha_or_unknown v field = (if v = JStr ''unknown'' then Inr ''unknown'' else fabric_sha v field)"

definition fabric_time :: "json \<Rightarrow> string \<Rightarrow> string result" where
  "fabric_time v field = bind (fabric_string v field) (\<lambda>s.
     if parse_seconds s \<noteq> None then Inr s else fabric_error ''timestamp_invalid'' field)"

definition fabric_bool :: "json \<Rightarrow> string \<Rightarrow> bool result" where
  "fabric_bool v field = (case v of JBool b \<Rightarrow> Inr b | _ \<Rightarrow> fabric_error ''boolean_required'' field)"

definition bool_or_unknown :: "json \<Rightarrow> string \<Rightarrow> json result" where
  "bool_or_unknown v field = (if v = JStr ''unknown'' then Inr v else bind (fabric_bool v field) (\<lambda>b. Inr (JBool b)))"

definition nonnegative_int :: "json \<Rightarrow> string \<Rightarrow> int result" where
  "nonnegative_int v field = (if is_int v \<and> 0 \<le> the_int v then Inr (the_int v)
     else fabric_error ''nonnegative_integer_required'' field)"

definition nonnegative_number :: "json \<Rightarrow> string \<Rightarrow> json result" where
  "nonnegative_number v field = (case v of JInt i \<Rightarrow> if 0 \<le> i then Inr v else fabric_error ''nonnegative_number_required'' field
     | JFloat m k r \<Rightarrow> if 0 \<le> m then Inr v else fabric_error ''nonnegative_number_required'' field
     | _ \<Rightarrow> fabric_error ''nonnegative_number_required'' field)"

definition route_identity :: "json \<Rightarrow> string \<Rightarrow> json result" where
  "route_identity v field = bind (fabric_object v field route_fields []) (\<lambda>r.
     bind (mapR (\<lambda>key. bind (fabric_string (fld r key) (dotted field key)) (\<lambda>s. Inr (key, JStr s))) route_fields)
       (\<lambda>kvs. Inr (JObj kvs)))"

definition validate_route_identity :: "(string \<Rightarrow> string) \<Rightarrow> json \<Rightarrow> json option \<Rightarrow> json result" where
  "validate_route_identity sha v prose = bind (route_identity v ''route_identity'') (\<lambda>identity.
     bind (case prose of None \<Rightarrow> Inr ()
       | Some p \<Rightarrow> bind (route_identity p ''provider_prose_identity'') (\<lambda>q.
           guard (py_eq q identity) (FabricError ''identity_mismatch'' ''provider_prose_identity''))) (\<lambda>_.
     Inr (JObj [(''valid'', JBool True), (''route_identity'', identity), (''identity_sha256'', JStr (digest_of sha identity))])))"

definition fabric_dict :: "json \<Rightarrow> string \<Rightarrow> json result" where
  "fabric_dict v field = (if is_obj v then Inr v else fabric_error ''object_required'' field)"

definition unique_strings :: "json \<Rightarrow> string \<Rightarrow> string list result" where
  "unique_strings v field =
     (if \<not> is_list v \<or> list_ex (\<lambda>x. \<not> is_str x \<or> the_str x = []) (the_list v) then fabric_error ''string_array_required'' field
      else let ss = map the_str (the_list v) in
        if \<not> distinct ss then fabric_error ''duplicate_value'' field else Inr ss)"

definition descriptor :: "json \<Rightarrow> string \<Rightarrow> json result" where
  "descriptor v field = bind (fabric_object v field [''kind'', ''sha256''] [''path'', ''size_bytes'']) (\<lambda>r.
     bind (fabric_string (fld r ''kind'') (dotted field ''kind'')) (\<lambda>_.
     bind (sha_or_unknown (fld r ''sha256'') (dotted field ''sha256'')) (\<lambda>_.
     bind (if has_key r ''path'' then bind (fabric_string (fld r ''path'') (dotted field ''path'')) (\<lambda>_. Inr ()) else Inr ()) (\<lambda>_.
     bind (if has_key r ''size_bytes'' \<and> fld r ''size_bytes'' \<noteq> JStr ''unknown''
       then bind (nonnegative_int (fld r ''size_bytes'') (dotted field ''size_bytes'')) (\<lambda>_. Inr ()) else Inr ()) (\<lambda>_. Inr r)))))"

section \<open>Capability cards\<close>

definition card_fields :: "string list" where
  "card_fields = [''artifact_type'', ''registry_entry_sha256'', ''provider_input_contract_sha256'', ''capabilities'',
     ''scopes'', ''limits'', ''identity_evidence'', ''capability_evidence'', ''observed_at'', ''expires_at'', ''card_sha256'']"

text \<open>the digest a field of \<open>v\<close> must have\<close>

definition bound_digest :: "(string \<Rightarrow> string) \<Rightarrow> json \<Rightarrow> string \<Rightarrow> json \<Rightarrow> exn \<Rightarrow> unit result" where
  "bound_digest sha stated field v e = bind (fabric_sha stated field) (\<lambda>s. guard (s = digest_of sha v) e)"

definition capability_card :: "(string \<Rightarrow> string) \<Rightarrow> json \<Rightarrow> json result" where
  "capability_card sha v = bind (fabric_object v ''capability_card'' card_fields []) (\<lambda>card.
     let at = dotted ''capability_card'' in
     if fld card ''artifact_type'' \<noteq> JStr ''capability_card_v1'' then fabric_error ''artifact_type_invalid'' (at ''artifact_type'')
     else bind (eachR (\<lambda>f. fabric_sha (fld card f) (at f)) [''registry_entry_sha256'', ''provider_input_contract_sha256'']) (\<lambda>_.
     bind (eachR (\<lambda>f. fabric_dict (fld card f) (at f)) [''capabilities'', ''scopes'', ''limits'']) (\<lambda>_.
     bind (fabric_object (fld card ''identity_evidence'') (at ''identity_evidence'') [''route_identity'', ''route_identity_sha256''] []) (\<lambda>identity.
     bind (route_identity (fld identity ''route_identity'') (at ''identity_evidence.route_identity'')) (\<lambda>route.
     bind (bound_digest sha (fld identity ''route_identity_sha256'') (at ''identity_evidence.route_identity_sha256'') route
       (FabricError ''identity_digest_mismatch'' (at ''identity_evidence''))) (\<lambda>_.
     bind (fabric_object (fld card ''capability_evidence'') (at ''capability_evidence'')
       [''capabilities_sha256'', ''scopes_sha256'', ''limits_sha256''] []) (\<lambda>capability.
     bind (eachR (\<lambda>(f, code). bound_digest sha (fld capability (f @ ''_sha256'')) (at (''capability_evidence.'' @ f @ ''_sha256'')) (fld card f)
       (FabricError code (at f)))
       [(''capabilities'', ''capability_digest_mismatch''), (''scopes'', ''scope_digest_mismatch''), (''limits'', ''limit_digest_mismatch'')]) (\<lambda>_.
     bind (fabric_time (fld card ''observed_at'') (at ''observed_at'')) (\<lambda>observed.
     bind (fabric_time (fld card ''expires_at'') (at ''expires_at'')) (\<lambda>expires.
     if expires \<le> observed then fabric_error ''evidence_window_invalid'' ''capability_card''
     else bind (bound_digest sha (fld card ''card_sha256'') (at ''card_sha256'') (pop ''card_sha256'' card)
       (FabricError ''card_digest_mismatch'' (at ''card_sha256''))) (\<lambda>_. Inr card)))))))))))"

definition validate_capability_card :: "(string \<Rightarrow> string) \<Rightarrow> json \<Rightarrow> json option \<Rightarrow> json option \<Rightarrow> json result" where
  "validate_capability_card sha v expected_route registry_digest = bind (capability_card sha v) (\<lambda>card.
     let route = fld (fld card ''identity_evidence'') ''route_identity'' in
     bind (case expected_route of None \<Rightarrow> Inr () | Some e \<Rightarrow> bind (route_identity e ''expected_route'') (\<lambda>r.
       guard (py_eq route r) (FabricError ''identity_mismatch'' ''capability_card.identity_evidence.route_identity''))) (\<lambda>_.
     bind (case registry_digest of None \<Rightarrow> Inr () | Some d \<Rightarrow> bind (fabric_sha d ''registry_digest'') (\<lambda>s.
       guard (fld card ''registry_entry_sha256'' = JStr s) (FabricError ''registry_digest_mismatch'' ''capability_card.registry_entry_sha256''))) (\<lambda>_.
     Inr (JObj [(''valid'', JBool True), (''artifact_type'', fld card ''artifact_type''), (''card_sha256'', fld card ''card_sha256''),
       (''route_identity'', route), (''status'', JStr ''observed''), (''findings'', JList []),
       (''dispatch_authorized'', JBool False), (''acceptance_authorized'', JBool False)]))))"

section \<open>Recall events\<close>

definition recall_base :: "string list" where
  "recall_base = [''subject_scope'', ''subject_id'', ''subject_sha256'', ''reason_code'', ''created_at'',
     ''authority_sha256'', ''previous_event_sha256'']"

text \<open>\<open>{key: event[key] for key in keys}\<close>\<close>

definition part :: "string list \<Rightarrow> json \<Rightarrow> json" where
  "part K v = JObj (map (\<lambda>k. (k, fld v k)) K)"

definition build_recall_event :: "(string \<Rightarrow> string) \<Rightarrow> json \<Rightarrow> json \<Rightarrow> json \<Rightarrow> json \<Rightarrow> json \<Rightarrow> json \<Rightarrow> json \<Rightarrow> json result" where
  "build_recall_event sha subject_scope subject_id subject_sha256 reason_code created_at authority_sha256 previous_event_sha256 =
     bind (fabric_string subject_scope ''subject_scope'') (\<lambda>scope.
     bind (fabric_string subject_id ''subject_id'') (\<lambda>subject.
     bind (fabric_sha subject_sha256 ''subject_sha256'') (\<lambda>digest.
     bind (fabric_string reason_code ''reason_code'') (\<lambda>reason.
     bind (fabric_time created_at ''created_at'') (\<lambda>created.
     bind (fabric_sha authority_sha256 ''authority_sha256'') (\<lambda>authority.
     bind (fabric_sha previous_event_sha256 ''previous_event_sha256'') (\<lambda>previous.
     let base = JObj [(''subject_scope'', JStr scope), (''subject_id'', JStr subject), (''subject_sha256'', JStr digest),
       (''reason_code'', JStr reason), (''created_at'', JStr created), (''authority_sha256'', JStr authority),
       (''previous_event_sha256'', JStr previous)] in
     Inr (upd ''event_sha256'' (JStr (digest_of sha base)) base))))))))"

text \<open>one turn of the loop over the events; the state is the last digest and the digests so far\<close>

definition check_recall :: "(string \<Rightarrow> string) \<Rightarrow> string \<times> string list \<Rightarrow> json \<Rightarrow> (string \<times> string list) result" where
  "check_recall sha s raw = (case s of (previous, ids) \<Rightarrow>
     let index = length ids; path = indexed ''recall_events'' index; at = dotted path in
     bind (fabric_object raw path (recall_base @ [''event_sha256'']) []) (\<lambda>event.
     bind (fabric_string (fld event ''subject_scope'') (at ''subject_scope'')) (\<lambda>_.
     bind (fabric_string (fld event ''subject_id'') (at ''subject_id'')) (\<lambda>_.
     bind (fabric_sha (fld event ''subject_sha256'') (at ''subject_sha256'')) (\<lambda>_.
     bind (fabric_string (fld event ''reason_code'') (at ''reason_code'')) (\<lambda>_.
     bind (fabric_time (fld event ''created_at'') (at ''created_at'')) (\<lambda>_.
     bind (fabric_sha (fld event ''authority_sha256'') (at ''authority_sha256'')) (\<lambda>_.
     if fld event ''previous_event_sha256'' \<noteq> JStr previous then fabric_error ''recall_chain_mismatch'' (dec (int index))
     else bind (fabric_sha (fld event ''previous_event_sha256'') (at ''previous_event_sha256'')) (\<lambda>_.
     bind (fabric_sha (fld event ''event_sha256'') (at ''event_sha256'')) (\<lambda>digest.
     if digest \<noteq> digest_of sha (part recall_base event) then fabric_error ''recall_event_digest_mismatch'' (dec (int index))
     else Inr (digest, ids @ [digest])))))))))))"

definition recall_chain :: "(string \<Rightarrow> string) \<Rightarrow> json list \<Rightarrow> string \<Rightarrow> (string \<times> string list) result" where
  "recall_chain sha events initial = foldR (check_recall sha) (initial, []) events"

definition validate_recall_chain :: "(string \<Rightarrow> string) \<Rightarrow> json \<Rightarrow> json \<Rightarrow> json result" where
  "validate_recall_chain sha events initial_previous =
     bind (fabric_sha initial_previous ''initial_previous'') (\<lambda>initial.
     bind (py_iter events) (\<lambda>raws.
     bind (recall_chain sha raws initial) (\<lambda>(head, ids).
     Inr (JObj [(''valid'', JBool True), (''event_count'', JInt (int (length raws))), (''head_sha256'', JStr head),
       (''event_ids'', JList (map JStr ids))]))))"

section \<open>Certificates\<close>

definition certificate_fields :: "string list" where
  "certificate_fields = [''artifact_type'', ''certificate_id'', ''route_identity'', ''task_profile_id'', ''task_profile_sha256'',
     ''provider_input_contract_sha256'', ''issuer'', ''registry_entry_sha256'', ''capability_card_sha256'',
     ''preflight_sha256'', ''adapter_sha256'', ''evaluation_manifest_sha256'', ''issued_at'', ''expires_at'',
     ''issuance_sha256'', ''recall_event_ids'']"

definition certificate :: "(string \<Rightarrow> string) \<Rightarrow> json \<Rightarrow> json result" where
  "certificate sha v = bind (fabric_object v ''qualification_certificate'' certificate_fields []) (\<lambda>c.
     let at = dotted ''qualification_certificate'' in
     if fld c ''artifact_type'' \<noteq> JStr ''qualification_certificate_v1'' then fabric_error ''artifact_type_invalid'' (at ''artifact_type'')
     else bind (fabric_string (fld c ''certificate_id'') (at ''certificate_id'')) (\<lambda>_.
     bind (route_identity (fld c ''route_identity'') (at ''route_identity'')) (\<lambda>_.
     bind (fabric_string (fld c ''task_profile_id'') (at ''task_profile_id'')) (\<lambda>_.
     bind (fabric_sha (fld c ''task_profile_sha256'') (at ''task_profile_sha256'')) (\<lambda>_.
     bind (fabric_sha (fld c ''provider_input_contract_sha256'') (at ''provider_input_contract_sha256'')) (\<lambda>_.
     bind (fabric_string (fld c ''issuer'') (at ''issuer'')) (\<lambda>_.
     bind (eachR (\<lambda>f. fabric_sha (fld c f) (at f)) [''registry_entry_sha256'', ''capability_card_sha256'', ''preflight_sha256'',
       ''adapter_sha256'', ''evaluation_manifest_sha256'', ''issuance_sha256'']) (\<lambda>_.
     bind (fabric_time (fld c ''issued_at'') (at ''issued_at'')) (\<lambda>issued.
     bind (fabric_time (fld c ''expires_at'') (at ''expires_at'')) (\<lambda>expires.
     if expires \<le> issued then fabric_error ''certificate_window_invalid'' ''qualification_certificate''
     else bind (unique_strings (fld c ''recall_event_ids'') (at ''recall_event_ids'')) (\<lambda>_.
     if fld c ''issuance_sha256'' \<noteq> JStr (digest_of sha (pop ''issuance_sha256'' c))
     then fabric_error ''issuance_digest_mismatch'' (at ''issuance_sha256'')
     else Inr c)))))))))))"

definition certificate_subject :: "(string \<Rightarrow> string) \<Rightarrow> json \<Rightarrow> string" where
  "certificate_subject sha c = digest_of sha (pop ''recall_event_ids'' (pop ''issuance_sha256'' c))"

text \<open>an event recalls the certificate itself or its route\<close>

definition recalls_subject :: "(string \<Rightarrow> string) \<Rightarrow> json \<Rightarrow> json \<Rightarrow> bool" where
  "recalls_subject sha c event = (let route = fld c ''route_identity'' in
     (fld event ''subject_scope'' = JStr ''certificate'' \<and> py_eq (fld event ''subject_id'') (fld c ''certificate_id'') \<and>
       fld event ''subject_sha256'' = JStr (certificate_subject sha c)) \<or>
     (fld event ''subject_scope'' = JStr ''route'' \<and> py_eq (fld event ''subject_id'') (fld route ''route_id'') \<and>
       fld event ''subject_sha256'' = JStr (digest_of sha route)))"

text \<open>the recalls that are in evidence\<close>

definition observed_recalls :: "(string \<Rightarrow> string) \<Rightarrow> json \<Rightarrow> json \<Rightarrow> json \<Rightarrow> string list result" where
  "observed_recalls sha c events initial =
     (let stated = map the_str (the_list (fld c ''recall_event_ids''));
          required = FabricError ''recall_evidence_required'' in
      if events = JNull then
        (if stated \<noteq> [] then Inl (required ''qualification_certificate.recall_event_ids'') else Inr [])
      else if \<not> truthy events then
        (if stated \<noteq> [] then Inl (required ''qualification_certificate.recall_event_ids'') else Inr [])
      else if initial = JNull then Inl (required ''qualification_certificate.recall_events'')
      else bind (validate_recall_chain sha events initial) (\<lambda>receipt.
        let ids = map the_str (the_list (fld receipt ''event_ids'')) in
        if stated \<noteq> [] \<and> set ids \<noteq> set stated then fabric_error ''recall_id_mismatch'' ''qualification_certificate.recall_event_ids''
        else bind (eachR (\<lambda>event. guard (recalls_subject sha c event)
            (FabricError ''recall_subject_mismatch'' ''qualification_certificate.recall_events'')) (the_list events)) (\<lambda>_.
          Inr ids)))"

definition compared_fields :: "string list" where
  "compared_fields = [''registry_entry_sha256'', ''capability_card_sha256'', ''provider_input_contract_sha256'',
     ''preflight_sha256'', ''adapter_sha256'', ''evaluation_manifest_sha256'']"

text \<open>the fields whose expected digest, when one is given, is not the one of the certificate\<close>

definition stale_fields :: "json \<Rightarrow> json \<Rightarrow> string list result" where
  "stale_fields c expected = bind (mapR (\<lambda>f. if fld expected f = JNull then Inr []
     else bind (fabric_sha (fld expected f) f) (\<lambda>s. Inr (if fld c f \<noteq> JStr s then [f @ ''_mismatch''] else []))) compared_fields)
     (\<lambda>fss. Inr (concat fss))"

text \<open>\<open>expected\<close> holds the optional arguments, absent or \<open>null\<close> when they are not given.\<close>

definition certificate_status :: "(string \<Rightarrow> string) \<Rightarrow> json \<Rightarrow> json \<Rightarrow> json \<Rightarrow> (string \<times> string list) result" where
  "certificate_status sha c now expected =
     bind (fabric_time now ''now'') (\<lambda>t.
     bind (observed_recalls sha c (fld expected ''recall_events'') (fld expected ''recall_initial_previous'')) (\<lambda>recalls.
     if recalls \<noteq> [] then Inr (''recalled'', [''recall_event_present''])
     else if the_str (fld c ''expires_at'') \<le> t then Inr (''expired'', [''certificate_expired''])
     else bind (stale_fields c expected) (\<lambda>invalidations.
       Inr (if invalidations \<noteq> [] then ''stale'' else ''active'', invalidations))))"

definition effective_certificate_status :: "(string \<Rightarrow> string) \<Rightarrow> json \<Rightarrow> json \<Rightarrow> json \<Rightarrow> json result" where
  "effective_certificate_status sha v now expected = bind (certificate sha v) (\<lambda>c.
     bind (certificate_status sha c now expected) (\<lambda>(status, invalidations).
     Inr (JObj [(''artifact_type'', JStr ''certificate_status_v1''), (''status'', JStr status),
       (''certificate_sha256'', JStr (digest_of sha c)), (''invalidation_reasons'', JList (map JStr invalidations)),
       (''dispatch_authorized'', JBool False), (''acceptance_authorized'', JBool False)])))"

end
