(* ===== verification/Advice.thy ===== *)
theory Advice
  imports Fabric
begin

text \<open>
  The policy side of the route fabric, second half of \<open>scripts/route_fabric.py\<close>: signals derived
  from a bounded trajectory, the economics of corrections, the advisory decision, the validation of
  decisions and of the advisory a scheduler is given, and clean handoffs.

  Two things are arguments. \<open>fplus\<close> is the sum of two numbers one of which is a float (the sum is
  rounded by the machine). \<open>same\<close> says whether the text \<open>unknown\<close> that states the acceptance of the
  quality is the module's own constant, since the script compares it by identity.
\<close>

section \<open>Signals\<close>

definition signal_fields :: "string list" where
  "signal_fields = [''progress'', ''repeat_action'', ''repeat_error_class'', ''ping_pong'', ''rewrite_retest'',
     ''no_progress'', ''context_pressure'', ''budget_pressure'', ''provider_unavailable'', ''quality_rejected'',
     ''execution_unknown'']"

definition hard_stop_fields :: "string list" where
  "hard_stop_fields = [''authority'', ''credential'', ''billing'', ''scope'', ''identity'', ''execution_unknown'',
     ''external_exhaustion'', ''validation_failed'', ''quality_rejected'', ''no_qualified_route'']"

definition signal :: "bool option \<Rightarrow> json" where
  "signal v = JStr (case v of None \<Rightarrow> ''unknown'' | Some b \<Rightarrow> if b then ''true'' else ''false'')"

definition aggregate_tri :: "json list \<Rightarrow> bool option" where
  "aggregate_tri vs = (if vs = [] then None
     else if JBool True \<in> set vs then Some True
     else if JStr ''unknown'' \<in> set vs then None
     else Some False)"

definition last_two_equal :: "string list \<Rightarrow> bool" where
  "last_two_equal xs = (case rev xs of a # b # r \<Rightarrow> a = b | _ \<Rightarrow> False)"

definition ping_pong :: "string list \<Rightarrow> bool" where
  "ping_pong xs = (case rev xs of a # b # c # d # r \<Rightarrow> a = c \<and> b = d | _ \<Rightarrow> False)"

fun rewrite_retest :: "string list \<Rightarrow> bool" where
  "rewrite_retest (a # b # xs) = ((a = ''rewrite'' \<and> b = ''retest'') \<or> (a = ''retest'' \<and> b = ''rewrite'') \<or>
     rewrite_retest (b # xs))"
| "rewrite_retest _ = False"

definition trajectory_fields :: "string list" where
  "trajectory_fields = [''assignment_id'', ''attempt_ids'', ''ledger_sequence_start'', ''ledger_sequence_end'',
     ''ledger_head_before'', ''ledger_head_after'', ''policy_sha256'', ''evidence'', ''outcomes'',
     ''quality'', ''continuity'', ''unknowns'']"

definition numbered :: "'a list \<Rightarrow> (nat \<times> 'a) list" where
  "numbered xs = zip [0..<length xs] xs"

definition optionally :: "json \<Rightarrow> string \<Rightarrow> 'a result \<Rightarrow> unit result" where
  "optionally v k m = (if has_key v k then bind m (\<lambda>_. Inr ()) else Inr ())"

definition outcome_shape :: "nat \<times> json \<Rightarrow> json result" where
  "outcome_shape io = (case io of (i, item) \<Rightarrow> fabric_object item (indexed ''trajectory_input.outcomes'' i)
     [''action'', ''error_class'', ''progress''] [''phase'', ''provider_unavailable'', ''execution_unknown''])"

definition check_outcome :: "nat \<times> json \<Rightarrow> unit result" where
  "check_outcome io = (case io of (i, outcome) \<Rightarrow> let at = dotted (indexed ''trajectory_input.outcomes'' i) in
     bind (fabric_string (fld outcome ''action'') (at ''action'')) (\<lambda>_.
     bind (fabric_string (fld outcome ''error_class'') (at ''error_class'')) (\<lambda>_.
     bind (bool_or_unknown (fld outcome ''progress'') (at ''progress'')) (\<lambda>_.
     bind (eachR (\<lambda>f. optionally outcome f (bool_or_unknown (fld outcome f) (at f))) [''provider_unavailable'', ''execution_unknown'']) (\<lambda>_.
     optionally outcome ''phase'' (fabric_string (fld outcome ''phase'') (at ''phase'')))))))"

definition require_array :: "json \<Rightarrow> string \<Rightarrow> json list result" where
  "require_array v field = (if is_list v then Inr (the_list v) else fabric_error ''array_required'' field)"

definition stated_or_unknown :: "json \<Rightarrow> string \<Rightarrow> json" where
  "stated_or_unknown v k = get_or v k (JStr ''unknown'')"

definition trajectory_signals :: "bool \<Rightarrow> json list \<Rightarrow> bool \<Rightarrow> bool \<Rightarrow> json \<Rightarrow> json" where
  "trajectory_signals same outcomes context_pressure budget accepted =
     (let actions = map (\<lambda>v. the_str (fld v ''action'')) outcomes;
          errors = map (\<lambda>v. the_str (fld v ''error_class'')) outcomes;
          known = (\<lambda>xs b. if xs = [] then None else Some b);
          progress = aggregate_tri (map (\<lambda>v. fld v ''progress'') outcomes) in
      JObj [(''progress'', signal progress),
        (''repeat_action'', signal (known actions (last_two_equal actions))),
        (''repeat_error_class'', signal (known errors (last_two_equal errors))),
        (''ping_pong'', signal (known actions (ping_pong actions))),
        (''rewrite_retest'', signal (known actions (rewrite_retest actions))),
        (''no_progress'', signal (map_option Not progress)),
        (''context_pressure'', signal (Some context_pressure)),
        (''budget_pressure'', signal (Some budget)),
        (''provider_unavailable'', signal (aggregate_tri (map (\<lambda>v. stated_or_unknown v ''provider_unavailable'') outcomes))),
        (''quality_rejected'', signal (if accepted = JStr ''unknown'' \<and> same then None else Some (accepted = JBool False))),
        (''execution_unknown'', signal (aggregate_tri (map (\<lambda>v. stated_or_unknown v ''execution_unknown'') outcomes)))])"

definition derive_trajectory_signals :: "(string \<Rightarrow> string) \<Rightarrow> bool \<Rightarrow> json \<Rightarrow> json result" where
  "derive_trajectory_signals sha same v = bind (fabric_object v ''trajectory_input'' trajectory_fields []) (\<lambda>data.
     let at = dotted ''trajectory_input'' in
     bind (fabric_string (fld data ''assignment_id'') (at ''assignment_id'')) (\<lambda>assignment.
     bind (unique_strings (fld data ''attempt_ids'') (at ''attempt_ids'')) (\<lambda>attempts.
     bind (nonnegative_int (fld data ''ledger_sequence_start'') (at ''ledger_sequence_start'')) (\<lambda>start.
     bind (nonnegative_int (fld data ''ledger_sequence_end'') (at ''ledger_sequence_end'')) (\<lambda>finish.
     if finish < start then fabric_error ''ledger_sequence_invalid'' ''trajectory_input''
     else bind (sha_or_unknown (fld data ''ledger_head_before'') (at ''ledger_head_before'')) (\<lambda>before.
     bind (sha_or_unknown (fld data ''ledger_head_after'') (at ''ledger_head_after'')) (\<lambda>after.
     bind (fabric_sha (fld data ''policy_sha256'') (at ''policy_sha256'')) (\<lambda>policy.
     bind (require_array (fld data ''evidence'') (at ''evidence'')) (\<lambda>items.
     bind (mapR (\<lambda>(i, item). descriptor item (indexed (at ''evidence'') i)) (numbered items)) (\<lambda>evidence.
     bind (require_array (fld data ''outcomes'') (at ''outcomes'')) (\<lambda>raw.
     bind (mapR outcome_shape (numbered raw)) (\<lambda>outcomes.
     bind (eachR check_outcome (numbered outcomes)) (\<lambda>_.
     bind (fabric_object (fld data ''continuity'') (at ''continuity'') [''context_pressure'', ''budget_pressure''] []) (\<lambda>continuity.
     bind (fabric_bool (fld continuity ''context_pressure'') (at ''continuity.context_pressure'')) (\<lambda>context_pressure.
     bind (fabric_bool (fld continuity ''budget_pressure'') (at ''continuity.budget_pressure'')) (\<lambda>budget.
     bind (fabric_object (fld data ''quality'') (at ''quality'') [''accepted''] []) (\<lambda>quality.
     let accepted = fld quality ''accepted'' in
     if \<not> is_bool accepted \<and> accepted \<noteq> JStr ''unknown''
     then fabric_error ''boolean_or_unknown_required'' (at ''quality.accepted'')
     else bind (unique_strings (fld data ''unknowns'') (at ''unknowns'')) (\<lambda>unknowns.
     let base = JObj [(''artifact_type'', JStr ''trajectory_signal_v1''), (''assignment_id'', fld data ''assignment_id''),
       (''attempt_ids'', JList (map JStr attempts)), (''ledger_sequence_start'', JInt start), (''ledger_sequence_end'', JInt finish),
       (''ledger_head_before'', JStr before), (''ledger_head_after'', JStr after), (''policy_sha256'', JStr policy),
       (''evidence'', JList evidence), (''signals'', trajectory_signals same outcomes context_pressure budget accepted),
       (''unknowns'', JList (map JStr unknowns))] in
     Inr (upd ''trajectory_sha256'' (JStr (digest_of sha base)) base)))))))))))))))))))"

section \<open>Economics\<close>

definition usage_fields :: "string list" where
  "usage_fields = [''cash_effect_usd'', ''input_tokens'', ''output_tokens'', ''total_tokens'']"

definition unknown_because :: "string \<Rightarrow> json result" where
  "unknown_because reason = bind (fabric_string (JStr reason) ''unknown.reason'') (\<lambda>s.
     Inr (JObj [(''value'', JStr ''unknown''), (''reason'', JStr s)]))"

definition number_for :: "string \<Rightarrow> json \<Rightarrow> string \<Rightarrow> json result" where
  "number_for field v path = (if ends_with field ''cash_effect_usd'' then nonnegative_number v path
     else bind (nonnegative_int v path) (\<lambda>i. Inr (JInt i)))"

definition measurement :: "json \<Rightarrow> string \<Rightarrow> string \<Rightarrow> json result" where
  "measurement v field reason =
     (if is_obj v then bind (fabric_object v field [''value''] [''reason'']) (\<lambda>r.
        if fld r ''value'' = JStr ''unknown'' then bind (fabric_string (fld r ''reason'') (dotted field ''reason'')) (\<lambda>_. Inr r)
        else bind (number_for field (fld r ''value'') (dotted field ''value'')) (\<lambda>_. Inr r))
      else if v = JStr ''unknown'' \<or> v = JNull then unknown_because reason
      else bind (number_for field v field) (\<lambda>n. Inr (JObj [(''value'', n)])))"

definition plus_number :: "(json \<Rightarrow> json \<Rightarrow> json) \<Rightarrow> json \<Rightarrow> json \<Rightarrow> json" where
  "plus_number fplus v w = (case (v, w) of (JInt i, JInt j) \<Rightarrow> JInt (i + j) | _ \<Rightarrow> fplus v w)"

definition sum_measurements :: "(json \<Rightarrow> json \<Rightarrow> json) \<Rightarrow> json list \<Rightarrow> string \<Rightarrow> string \<Rightarrow> json result" where
  "sum_measurements fplus rows field reason =
     (let vs = map (\<lambda>row. fld row field) rows in
      if vs = [] \<or> list_ex (\<lambda>v. v = JNull \<or> v = JStr ''unknown'' \<or> is_obj v \<and> fld v ''value'' = JStr ''unknown'') vs
      then unknown_because reason
      else bind (foldR (\<lambda>total v. bind (number_for field (if is_obj v then fld v ''value'' else v) field) (\<lambda>n. Inr (plus_number fplus total n)))
        (JInt 0) vs) (\<lambda>total. Inr (JObj [(''value'', total)])))"

definition economics_row :: "json \<Rightarrow> unit result" where
  "economics_row row =
     (let at = dotted ''economics.row'' in
      if \<not> in_list (fld row ''quality_accepted'') [JBool True, JBool False, JStr ''unknown'']
      then fabric_error ''boolean_or_unknown_required'' (at ''quality_accepted'')
      else bind (nonnegative_int (fld row ''correction_attempts'') (at ''correction_attempts'')) (\<lambda>_.
      bind (measurement (fld row ''elapsed_ms'') (at ''elapsed_ms'') ''elapsed_not_reported'') (\<lambda>_.
      bind (measurement (fld row ''pm_correction_ms'') (at ''pm_correction_ms'') ''pm_correction_not_reported'') (\<lambda>_.
      bind (fabric_object (fld row ''usage'') (at ''usage'') usage_fields []) (\<lambda>usage.
      bind (eachR (\<lambda>f. measurement (fld usage f) (at (''usage.'' @ f)) (f @ ''_not_reported'')) usage_fields) (\<lambda>_.
      bind (unique_strings (fld row ''quality_receipt_sha256s'') (at ''quality_receipt_sha256s'')) (\<lambda>receipts.
      eachR (\<lambda>s. fabric_sha (JStr s) (at ''quality_receipt_sha256s[]'')) receipts)))))))"

definition calculate_correction_economics :: "(string \<Rightarrow> string) \<Rightarrow> (json \<Rightarrow> json \<Rightarrow> json) \<Rightarrow> json \<Rightarrow> json \<Rightarrow> json \<Rightarrow> json result" where
  "calculate_correction_economics sha fplus rows task_family route =
     bind (require_array rows ''economics.rows'') (\<lambda>raw.
     bind (route_identity route ''route_identity'') (\<lambda>identity.
     bind (mapR (\<lambda>row. fabric_object row ''economics.row'' [''quality_accepted'', ''correction_attempts'', ''usage'',
       ''elapsed_ms'', ''pm_correction_ms'', ''quality_receipt_sha256s''] []) raw) (\<lambda>normalized.
     bind (eachR economics_row normalized) (\<lambda>_.
     let usages = map (\<lambda>row. fld row ''usage'') normalized in
     bind (mapR (\<lambda>f. bind (sum_measurements fplus usages f (f @ ''_not_reported'')) (\<lambda>m. Inr (f, m)))
       [''input_tokens'', ''output_tokens'', ''total_tokens'']) (\<lambda>tokens.
     bind (sum_measurements fplus normalized ''elapsed_ms'' ''elapsed_not_reported'') (\<lambda>elapsed.
     bind (sum_measurements fplus normalized ''pm_correction_ms'' ''pm_correction_not_reported'') (\<lambda>pm_correction.
     bind (sum_measurements fplus usages ''cash_effect_usd'' ''cash_effect_not_reported'') (\<lambda>cash.
     let named = [(''elapsed_ms'', elapsed), (''pm_correction_ms'', pm_correction), (''cash_effect'', cash)] @
           map (\<lambda>(f, m). (''tokens.'' @ f, m)) tokens;
         unknowns = sorted_set (map fst (filter (\<lambda>(f, m). fld m ''value'' = JStr ''unknown'') named)) in
     bind (fabric_string task_family ''economics.task_family'') (\<lambda>family.
     let base = JObj [(''artifact_type'', JStr ''correction_economics_v1''), (''task_family'', JStr family),
       (''route_identity'', identity), (''attempt_count'', JInt (int (length normalized))),
       (''correction_attempts'', JInt (sum_list (map (\<lambda>row. the_int (fld row ''correction_attempts'')) normalized))),
       (''pm_correction_ms'', pm_correction), (''elapsed_ms'', elapsed), (''tokens'', JObj tokens), (''cash_effect'', cash),
       (''quality_receipt_sha256s'', JList (concat (map (\<lambda>row. the_list (fld row ''quality_receipt_sha256s'')) normalized))),
       (''unknowns'', JList (map JStr unknowns))] in
     Inr (upd ''economics_sha256'' (JStr (digest_of sha base)) base))))))))))"

section \<open>Decisions\<close>

definition certificate_statuses :: "string list" where
  "certificate_statuses = [''recalled'', ''expired'', ''stale'', ''active'']"

definition advisory_actions :: "string list" where
  "advisory_actions = [''continue'', ''switch'', ''clean_handoff'', ''unavailable'', ''human_gate'']"

definition decision_input_fields :: "string list" where
  "decision_input_fields = [''assignment_id'', ''current_route_identity'', ''current_certificate_sha256'', ''target_route_identity'',
     ''certificate_status'', ''signals'', ''hard_stops'', ''continuity'', ''candidate_ready'',
     ''source_bindings'', ''trajectory_sha256'']"

text \<open>what the checks of \<open>_decision_input\<close> leave for the decision\<close>

record decision_input =
  assigned_to :: string
  current_route :: json
  certificate_digest :: string
  certificate_state :: string
  signal_of :: "string \<Rightarrow> string"
  stopped :: "string \<Rightarrow> bool"
  context_pressed :: bool
  budget_pressed :: bool
  candidate_ready :: bool
  bound_sources :: "string list"
  trajectory_digest :: string

definition require_choice :: "json \<Rightarrow> string list \<Rightarrow> string \<Rightarrow> string \<Rightarrow> string result" where
  "require_choice v S c d = bind (require_in (\<lambda>c. FabricError c d) v S c) (\<lambda>_. Inr (the_str v))"

text \<open>the signals that must agree with a stop or with the stated continuity\<close>

definition safety_conflict :: "(string \<Rightarrow> string) \<Rightarrow> (string \<Rightarrow> bool) \<Rightarrow> bool \<Rightarrow> bool \<Rightarrow> string option" where
  "safety_conflict sig stops context_pressure budget =
     (if sig ''execution_unknown'' = ''true'' \<and> \<not> stops ''execution_unknown'' then Some ''execution_unknown''
      else if sig ''quality_rejected'' = ''true'' \<and> \<not> stops ''quality_rejected'' then Some ''quality_rejected''
      else if sig ''budget_pressure'' = ''true'' \<and> \<not> budget then Some ''budget_pressure''
      else if budget \<and> sig ''budget_pressure'' \<noteq> ''true'' then Some ''budget_pressure''
      else if sig ''context_pressure'' = ''true'' \<and> \<not> context_pressure then Some ''context_pressure''
      else if context_pressure \<and> sig ''context_pressure'' \<noteq> ''true'' then Some ''context_pressure''
      else None)"

definition read_decision_input :: "json \<Rightarrow> decision_input result" where
  "read_decision_input v = bind (fabric_object v ''decision_input'' decision_input_fields [''provider_prose_identity'']) (\<lambda>data.
     let at = dotted ''decision_input'' in
     bind (fabric_string (fld data ''assignment_id'') (at ''assignment_id'')) (\<lambda>assignment_id.
     bind (route_identity (fld data ''current_route_identity'') (at ''current_route_identity'')) (\<lambda>identity.
     bind (fabric_sha (fld data ''current_certificate_sha256'') (at ''current_certificate_sha256'')) (\<lambda>certificate_sha.
     if fld data ''target_route_identity'' \<noteq> JNull then fabric_error ''target_selection_forbidden'' (at ''target_route_identity'')
     else bind (optionally data ''provider_prose_identity''
       (validate_route_identity (\<lambda>_. []) identity
         (if fld data ''provider_prose_identity'' = JNull then None else Some (fld data ''provider_prose_identity'')))) (\<lambda>_.
     bind (require_choice (fld data ''certificate_status'') certificate_statuses ''certificate_status_invalid'' (at ''certificate_status'')) (\<lambda>cert_status.
     bind (fabric_object (fld data ''signals'') (at ''signals'') signal_fields []) (\<lambda>signals.
     bind (eachR (\<lambda>f. require_choice (fld signals f) [''true'', ''false'', ''unknown''] ''signal_invalid'' (at (''signals.'' @ f))) signal_fields) (\<lambda>_.
     bind (fabric_object (fld data ''hard_stops'') (at ''hard_stops'') hard_stop_fields []) (\<lambda>stops.
     bind (eachR (\<lambda>f. fabric_bool (fld stops f) (at (''hard_stops.'' @ f))) hard_stop_fields) (\<lambda>_.
     bind (fabric_object (fld data ''continuity'') (at ''continuity'') [''context_pressure'', ''budget_pressure''] []) (\<lambda>continuity.
     bind (fabric_bool (fld continuity ''context_pressure'') (at ''continuity.context_pressure'')) (\<lambda>context_pressure.
     bind (fabric_bool (fld continuity ''budget_pressure'') (at ''continuity.budget_pressure'')) (\<lambda>budget.
     let sig = (\<lambda>f. the_str (fld signals f)); stp = (\<lambda>f. fld stops f = JBool True) in
     case safety_conflict sig stp context_pressure budget of
       Some f \<Rightarrow> fabric_error ''safety_evidence_conflict'' f
     | None \<Rightarrow>
     bind (fabric_bool (fld data ''candidate_ready'') (at ''candidate_ready'')) (\<lambda>ready.
     bind (unique_strings (fld data ''source_bindings'') (at ''source_bindings'')) (\<lambda>sources.
     bind (fabric_sha (fld data ''trajectory_sha256'') (at ''trajectory_sha256'')) (\<lambda>trajectory_sha.
     Inr \<lparr>assigned_to = assignment_id, current_route = identity, certificate_digest = certificate_sha, certificate_state = cert_status,
       signal_of = sig, stopped = stp, context_pressed = context_pressure, budget_pressed = budget,
       candidate_ready = ready, bound_sources = sources, trajectory_digest = trajectory_sha\<rparr>))))))))))))))))"

definition choose_action :: "decision_input \<Rightarrow> string \<times> string" where
  "choose_action d = (let on = (\<lambda>f. signal_of d f = ''true'') in
     if list_ex (stopped d) [''authority'', ''credential'', ''billing'', ''scope'', ''identity'', ''execution_unknown'']
     then (''human_gate'', ''hard_stop_requires_parent_or_operator'')
     else if budget_pressed d \<or> on ''budget_pressure'' then (''human_gate'', ''budget_pressure_requires_parent_or_operator'')
     else if stopped d ''external_exhaustion'' then (''human_gate'', ''useful_authorized_work_exhausted'')
     else if certificate_state d \<noteq> ''active'' \<or> stopped d ''no_qualified_route'' \<or> on ''provider_unavailable''
     then (''unavailable'', ''route_not_currently_eligible'')
     else if context_pressed d then (''clean_handoff'', ''context_pressure'')
     else if stopped d ''validation_failed'' \<or> stopped d ''quality_rejected'' \<or> on ''quality_rejected'' \<or>
       list_ex on [''repeat_action'', ''repeat_error_class'', ''ping_pong'', ''rewrite_retest'', ''no_progress'']
     then (''switch'', ''bounded_failure_or_repetition'')
     else if candidate_ready d then (''human_gate'', ''candidate_ready_for_parent_review'')
     else (''continue'', ''within_authority_and_controls''))"

definition decision_of :: "(string \<Rightarrow> string) \<Rightarrow> decision_input \<Rightarrow> json" where
  "decision_of sha d = (let action = fst (choose_action d);
     base = JObj [(''artifact_type'', JStr ''route_fabric_decision_v1''), (''assignment_id'', JStr (assigned_to d)),
       (''source_bindings'', JList (map JStr (bound_sources d))), (''current_route_identity'', current_route d),
       (''current_certificate_sha256'', JStr (certificate_digest d)), (''target_route_identity'', JNull),
       (''trajectory_sha256'', JStr (trajectory_digest d)), (''action'', JStr action),
       (''reason_codes'', JList [JStr (snd (choose_action d))]),
       (''authorization_required'', JBool (action = ''human_gate'')), (''retry_started'', JBool False),
       (''fallback_started'', JBool False), (''dispatch_started'', JBool False), (''board_mutated'', JBool False),
       (''accepted'', JBool False)] in
     upd ''decision_sha256'' (JStr (digest_of sha base)) base)"

definition choose_advisory_action :: "(string \<Rightarrow> string) \<Rightarrow> json \<Rightarrow> json result" where
  "choose_advisory_action sha v = bind (read_decision_input v) (\<lambda>d. Inr (decision_of sha d))"

section \<open>Advisories\<close>

definition decision_fields :: "string list" where
  "decision_fields = [''artifact_type'', ''assignment_id'', ''source_bindings'', ''current_route_identity'',
     ''current_certificate_sha256'', ''target_route_identity'', ''trajectory_sha256'', ''action'',
     ''reason_codes'', ''authorization_required'', ''retry_started'', ''fallback_started'',
     ''dispatch_started'', ''board_mutated'', ''accepted'', ''decision_sha256'']"

definition wrapper_fields :: "string list" where
  "wrapper_fields = [''schema_version'', ''artifact_type'', ''decision'', ''bindings'', ''advisory_sha256'']"

definition binding_fields :: "string list" where
  "binding_fields = [''assignment_id'', ''envelope_sha256'', ''ledger_head_before'', ''decision_sha256'']"

definition fabric_head :: "json \<Rightarrow> string \<Rightarrow> string result" where
  "fabric_head v field = bind (fabric_string v field) (\<lambda>s.
     if sha_text s \<or> hex64 s then Inr s else fabric_error ''ledger_head_invalid'' field)"

text \<open>\<open>{key: v[key] for key in K if key != k}\<close>\<close>

definition except :: "string \<Rightarrow> string list \<Rightarrow> json \<Rightarrow> json" where
  "except k K v = JObj (map (\<lambda>f. (f, fld v f)) (filter (\<lambda>f. f \<noteq> k) K))"

definition authority_flags :: "string list" where
  "authority_flags = [''retry_started'', ''fallback_started'', ''dispatch_started'', ''board_mutated'', ''accepted'']"

definition hard_stop_reasons :: "string list" where
  "hard_stop_reasons = [''hard_stop_requires_parent_or_operator'', ''budget_pressure_requires_parent_or_operator'',
     ''useful_authorized_work_exhausted'']"

definition validate_decision :: "(string \<Rightarrow> string) \<Rightarrow> json \<Rightarrow> json result" where
  "validate_decision sha v = bind (fabric_object v ''route_fabric_decision'' decision_fields []) (\<lambda>raw.
     let at = dotted ''route_fabric_decision'' in
     if fld raw ''artifact_type'' \<noteq> JStr ''route_fabric_decision_v1'' then fabric_error ''artifact_type_invalid'' (at ''artifact_type'')
     else bind (fabric_string (fld raw ''assignment_id'') (at ''assignment_id'')) (\<lambda>_.
     bind (unique_strings (fld raw ''source_bindings'') (at ''source_bindings'')) (\<lambda>_.
     bind (route_identity (fld raw ''current_route_identity'') (at ''current_route_identity'')) (\<lambda>identity.
     let decision = upd ''current_route_identity'' identity raw in
     bind (fabric_sha (fld decision ''current_certificate_sha256'') (at ''current_certificate_sha256'')) (\<lambda>_.
     if fld decision ''target_route_identity'' \<noteq> JNull then fabric_error ''target_selection_forbidden'' (at ''target_route_identity'')
     else bind (fabric_sha (fld decision ''trajectory_sha256'') (at ''trajectory_sha256'')) (\<lambda>_.
     bind (require_choice (fld decision ''action'') advisory_actions ''advisory_action_invalid'' (at ''action'')) (\<lambda>action.
     bind (unique_strings (fld decision ''reason_codes'') (at ''reason_codes'')) (\<lambda>reasons.
     bind (fabric_bool (fld decision ''authorization_required'') (at ''authorization_required'')) (\<lambda>authorization.
     if authorization \<noteq> (action = ''human_gate'') then fabric_error ''advisory_authority_flag'' ''authorization_required''
     else bind (eachR (\<lambda>f. bind (fabric_bool (fld decision f) (at f)) (\<lambda>b. guard (\<not> b) (FabricError ''advisory_authority_flag'' f)))
       authority_flags) (\<lambda>_.
     if action = ''switch'' \<and> list_ex (\<lambda>c. c \<in> set reasons) hard_stop_reasons
     then fabric_error ''advisory_action_invalid'' ''hard stop cannot reroute''
     else bind (bound_digest sha (fld decision ''decision_sha256'') (at ''decision_sha256'') (except ''decision_sha256'' decision_fields decision)
       (FabricError ''decision_digest_mismatch'' ''route_fabric_decision'')) (\<lambda>_. Inr decision)))))))))))"

text \<open>The live values an advisory must be bound to, where they are given\<close>

definition validate_advisory :: "(string \<Rightarrow> string) \<Rightarrow> json \<Rightarrow> json option \<Rightarrow> string option \<Rightarrow> string option \<Rightarrow> json result" where
  "validate_advisory sha v assignment_id envelope_sha head_before = bind (fabric_object v ''route_fabric_scheduler_advisory'' wrapper_fields []) (\<lambda>advisory.
     let at = dotted ''route_fabric_scheduler_advisory'' in
     if \<not> py_eq (fld advisory ''schema_version'') (JInt 1) then fabric_error ''schema_version_invalid'' (at ''schema_version'')
     else if fld advisory ''artifact_type'' \<noteq> JStr ''RouteFabricSchedulerAdvisory'' then fabric_error ''artifact_type_invalid'' (at ''artifact_type'')
     else bind (validate_decision sha (fld advisory ''decision'')) (\<lambda>decision.
     bind (fabric_object (fld advisory ''bindings'') (at ''bindings'') binding_fields []) (\<lambda>bound.
     bind (fabric_string (fld bound ''assignment_id'') (at ''bindings.assignment_id'')) (\<lambda>assigned.
     bind (fabric_sha (fld bound ''envelope_sha256'') (at ''bindings.envelope_sha256'')) (\<lambda>envelope.
     bind (fabric_head (fld bound ''ledger_head_before'') (at ''bindings.ledger_head_before'')) (\<lambda>head.
     bind (fabric_sha (fld bound ''decision_sha256'') (at ''bindings.decision_sha256'')) (\<lambda>decided.
     if JStr assigned \<noteq> fld decision ''assignment_id'' then fabric_error ''advisory_assignment_mismatch'' ''decision and bindings''
     else if JStr decided \<noteq> fld decision ''decision_sha256'' then fabric_error ''advisory_decision_digest_mismatch'' ''bindings''
     else if assignment_id \<noteq> None \<and> JStr assigned \<noteq> the assignment_id then fabric_error ''advisory_assignment_mismatch'' ''envelope''
     else if envelope_sha \<noteq> None \<and> envelope \<noteq> the envelope_sha then fabric_error ''advisory_envelope_binding_mismatch'' ''envelope''
     else if head_before \<noteq> None \<and> head \<noteq> the head_before then fabric_error ''advisory_ledger_binding_mismatch'' ''ledger''
     else bind (bound_digest sha (fld advisory ''advisory_sha256'') (at ''advisory_sha256'') (except ''advisory_sha256'' wrapper_fields advisory)
       (FabricError ''advisory_digest_mismatch'' ''route_fabric_scheduler_advisory'')) (\<lambda>_.
     Inr (upd ''bindings'' bound (upd ''decision'' decision advisory))))))))))"

section \<open>Handoffs\<close>

definition forbidden_keys :: "string list" where
  "forbidden_keys = [''credentials'', ''credential'', ''raw_prompt'', ''raw_source'', ''raw_tool_output'',
     ''raw_transcript'', ''transcript'', ''provider_reasoning'', ''stale_narration'']"

definition handoff_codes :: "string list" where
  "handoff_codes = [''accepted_artifact'', ''ledger'', ''quality_receipt'', ''repair'', ''rewrite'', ''retest'', ''reroute'',
     ''revise_packet'', ''split_work'', ''validation_failed'', ''provider_failed'', ''execution_unknown'',
     ''context_pressure'', ''budget_stop'', ''unavailable'', ''next_proof'']"

text \<open>Every code is shorter than the limit on the length, so membership decides.\<close>

definition handoff_descriptor :: "json \<Rightarrow> string \<Rightarrow> json result" where
  "handoff_descriptor v field = bind (fabric_object v field [''code'', ''sha256''] []) (\<lambda>r.
     bind (fabric_string (fld r ''code'') (dotted field ''code'')) (\<lambda>c.
     if c \<notin> set handoff_codes then fabric_error ''handoff_code_invalid'' (dotted field ''code'')
     else bind (fabric_sha (fld r ''sha256'') (dotted field ''sha256'')) (\<lambda>s.
     Inr (JObj [(''code'', JStr c), (''sha256'', JStr s)]))))"

text \<open>
  \<open>str(key).lower()\<close> for a comparison with the forbidden keys: of the letters outside ASCII only the
  Kelvin sign has an ASCII lower case, and no forbidden key has a \<open>k\<close>.
\<close>

definition lower :: "string \<Rightarrow> string" where
  "lower s = map (\<lambda>c. if 65 \<le> code c \<and> code c \<le> 90 then char_of (code c + 32) else c) s"

function forbidden_within :: "json \<Rightarrow> bool" where
  "forbidden_within (JObj kvs) = list_ex (\<lambda>kv. lower (fst kv) \<in> set forbidden_keys \<or> forbidden_within (snd kv)) kvs"
| "forbidden_within (JList xs) = list_ex forbidden_within xs"
| "forbidden_within JNull = False"
| "forbidden_within (JBool b) = False"
| "forbidden_within (JInt i) = False"
| "forbidden_within (JFloat m k r) = False"
| "forbidden_within (JStr s) = False"
  by pat_completeness auto
termination
proof (relation "measure size", goal_cases)
  case (2 kvs kv)
  then have "size (snd kv) \<le> size_list (size_prod (\<lambda>_. 0) size) kvs"
    by (rule size_list_estimation') (simp add: size_prod_simp)
  then show ?case by simp
qed (auto simp: less_Suc_eq_le intro: size_list_estimation')

definition excluded_context_values :: "string list" where
  "excluded_context_values = [''credentials'', ''raw_prompt'', ''raw_source'', ''raw_tool_output'', ''raw_transcript'',
     ''provider_reasoning'', ''stale_narration'']"

definition handoff_list :: "json \<Rightarrow> string \<Rightarrow> json result" where
  "handoff_list v field = bind (mapR (\<lambda>(i, item). handoff_descriptor item (indexed field i)) (numbered (the_list v))) (\<lambda>ds. Inr (JList ds))"

definition build_clean_handoff :: "(string \<Rightarrow> string) \<Rightarrow> json \<Rightarrow> json result" where
  "build_clean_handoff sha v = bind (fabric_object v ''clean_handoff'' [''artifact_type'', ''assignment_id'', ''source_bindings'',
       ''accepted_artifact_descriptors'', ''attempted_strategies'', ''target_route_identity'', ''named_failures'', ''next_proof'',
       ''excluded_context''] []) (\<lambda>handoff.
     let at = dotted ''clean_handoff''; items = (\<lambda>f. bind (require_array (fld handoff f) (at f)) (\<lambda>_. handoff_list (fld handoff f) (at f))) in
     if fld handoff ''artifact_type'' \<noteq> JStr ''clean_handoff_v1'' then fabric_error ''artifact_type_invalid'' (at ''artifact_type'')
     else bind (fabric_string (fld handoff ''assignment_id'') (at ''assignment_id'')) (\<lambda>_.
     bind (items ''source_bindings'') (\<lambda>sources.
     bind (items ''accepted_artifact_descriptors'') (\<lambda>descriptors.
     bind (items ''attempted_strategies'') (\<lambda>attempted.
     bind (if fld handoff ''target_route_identity'' = JNull then Inr JNull
       else route_identity (fld handoff ''target_route_identity'') (at ''target_route_identity'')) (\<lambda>_.
     if \<not> is_list (fld handoff ''named_failures'') \<or> \<not> is_list (fld handoff ''next_proof'')
     then fabric_error ''array_required'' ''clean_handoff bounded lists''
     else bind (handoff_list (fld handoff ''named_failures'') (at ''named_failures'')) (\<lambda>failures.
     bind (handoff_list (fld handoff ''next_proof'') (at ''next_proof'')) (\<lambda>next_proof.
     bind (unique_strings (fld handoff ''excluded_context'') (at ''excluded_context'')) (\<lambda>excluded.
     if forbidden_within (JObj [(''source_bindings'', sources), (''accepted_artifact_descriptors'', descriptors),
         (''attempted_strategies'', attempted), (''named_failures'', failures), (''next_proof'', next_proof)])
     then fabric_error ''handoff_sensitive_field'' ''bounded handoff payload''
     else if \<not> list_all (\<lambda>c. c \<in> set excluded_context_values) excluded
     then fabric_error ''excluded_context_invalid'' (at ''excluded_context'')
     else let base = upd ''next_proof'' next_proof (upd ''named_failures'' failures (upd ''attempted_strategies'' attempted
         (upd ''accepted_artifact_descriptors'' descriptors (upd ''source_bindings'' sources handoff)))) in
       Inr (upd ''handoff_sha256'' (JStr (digest_of sha base)) base))))))))))"

section \<open>Requests\<close>

definition status_arguments :: "string list" where
  "status_arguments = compared_fields @ [''recall_events'', ''recall_initial_previous'']"

definition status_request :: "(string \<Rightarrow> string) \<Rightarrow> json \<Rightarrow> json result" where
  "status_request sha p = bind (item_at p ''now'') (\<lambda>now.
     let expected = (if has_key p ''certificate'' then pop ''now'' (pop ''certificate'' p) else JObj []) in
     if sorted_diff (keys expected) status_arguments \<noteq> [] then Inl TypeError
     else effective_certificate_status sha (if has_key p ''certificate'' then fld p ''certificate'' else pop ''now'' p) now expected)"

definition run_operation :: "(string \<Rightarrow> string) \<Rightarrow> (json \<Rightarrow> json \<Rightarrow> json) \<Rightarrow> bool \<Rightarrow> string \<Rightarrow> json \<Rightarrow> json result" where
  "run_operation sha fplus same operation p =
     (if operation = ''validate_capability_card'' then validate_capability_card sha p None None
      else if operation = ''effective_certificate_status'' then status_request sha p
      else if operation = ''validate_recall_chain'' then
        bind (item_at p ''events'') (\<lambda>events. bind (item_at p ''initial_previous'') (\<lambda>initial. validate_recall_chain sha events initial))
      else if operation = ''derive_trajectory_signals'' then derive_trajectory_signals sha same p
      else if operation = ''build_recall_event'' then
        bind (eachR (item_at p) recall_base) (\<lambda>_.
        build_recall_event sha (fld p ''subject_scope'') (fld p ''subject_id'') (fld p ''subject_sha256'') (fld p ''reason_code'')
          (fld p ''created_at'') (fld p ''authority_sha256'') (fld p ''previous_event_sha256''))
      else if operation = ''build_clean_handoff'' then build_clean_handoff sha p
      else if operation = ''calculate_correction_economics'' then
        bind (item_at p ''rows'') (\<lambda>rows. bind (item_at p ''task_family'') (\<lambda>family. bind (item_at p ''route_identity'') (\<lambda>identity.
          calculate_correction_economics sha fplus rows family identity)))
      else if operation = ''choose_advisory_action'' then choose_advisory_action sha p
      else if operation = ''validate_route_fabric_decision'' then validate_decision sha p
      else if operation = ''validate_scheduler_advisory'' then validate_advisory sha p None None None
      else fabric_error ''operation_invalid'' operation)"

definition run_request :: "(string \<Rightarrow> string) \<Rightarrow> (json \<Rightarrow> json \<Rightarrow> json) \<Rightarrow> bool \<Rightarrow> json \<Rightarrow> json result" where
  "run_request sha fplus same raw = bind (fabric_object raw ''request'' [''schema_version'', ''operation'', ''payload''] []) (\<lambda>request.
     if \<not> py_eq (fld request ''schema_version'') (JInt 1) then fabric_error ''schema_version_invalid'' ''request.schema_version''
     else bind (fabric_string (fld request ''operation'') ''request.operation'') (\<lambda>operation.
     bind (fabric_dict (fld request ''payload'') ''request.payload'') (\<lambda>payload.
     bind (run_operation sha fplus same operation payload) (\<lambda>result.
     Inr (JObj [(''ok'', JBool True), (''operation'', JStr operation), (''result'', result)])))))"

end
