(* ===== verification/Advice_Properties.thy ===== *)
theory Advice_Properties
  imports Advice Demo
begin

text \<open>
  Properties of the route fabric's advice: a decision that is emitted is one the validator accepts,
  \<open>continue\<close> is advised only when nothing at all speaks against it, and what an unknown
  acceptance does to the signals.
\<close>

section \<open>Checked values\<close>

lemma fabric_object_eq_Inr: "fabric_object v field required optional = Inr w \<longleftrightarrow>
    w = v \<and> is_obj v \<and> set (keys v) \<subseteq> set required \<union> set optional \<and> set required \<subseteq> set (keys v)"
  by (auto simp: fabric_object_def Let_def sorted_diff_Nil_iff)

lemma fabric_string_eq_Inr: "fabric_string v field = Inr s \<longleftrightarrow> v = JStr s \<and> s \<noteq> [] \<and> byte 0 \<notin> set s"
  by (cases v) (auto simp: fabric_string_def)

lemma fabric_sha_eq_Inr: "fabric_sha v field = Inr s \<longleftrightarrow> v = JStr s \<and> s \<noteq> [] \<and> byte 0 \<notin> set s \<and> sha_text s"
  by (auto simp: fabric_sha_def bind_eq_Inr fabric_string_eq_Inr)

lemma fabric_bool_eq_Inr: "fabric_bool v field = Inr b \<longleftrightarrow> v = JBool b"
  by (cases v) (auto simp: fabric_bool_def)

lemma unique_strings_eq_Inr: "unique_strings v field = Inr ss \<longleftrightarrow> v = JList (map JStr ss) \<and> [] \<notin> set ss \<and> distinct ss"
proof
  assume "unique_strings v field = Inr ss"
  then have v: "is_list v" "\<forall>x \<in> set (the_list v). is_str x \<and> the_str x \<noteq> []" "ss = map the_str (the_list v)" "distinct ss"
    by (auto simp: unique_strings_def Let_def list_ex_iff split: if_splits)
  have "JStr (the_str x) = x" if "is_str x" for x using that by (cases x) simp_all
  then have "map JStr ss = the_list v" using v(2) by (simp add: v(3) map_idI)
  then show "v = JList (map JStr ss) \<and> [] \<notin> set ss \<and> distinct ss" using v by (cases v) auto
next
  assume "v = JList (map JStr ss) \<and> [] \<notin> set ss \<and> distinct ss"
  then show "unique_strings v field = Inr ss" by (auto simp: unique_strings_def Let_def list_ex_iff comp_def)
qed

lemma require_choice_eq_Inr: "require_choice v S c d = Inr s \<longleftrightarrow> v = JStr s \<and> s \<in> set S"
  by (auto simp: require_choice_def bind_eq_Inr require_in_eq_Inr)

lemma route_identity_idem: "route_identity v field = Inr r \<Longrightarrow> route_identity r field' = Inr r"
proof -
  assume "route_identity v field = Inr r"
  then obtain kvs where kvs: "mapR (\<lambda>key. bind (fabric_string (fld v key) (dotted field key)) (\<lambda>s. Inr (key, JStr s))) route_fields = Inr kvs"
    "r = JObj kvs" by (auto simp: route_identity_def bind_eq_Inr fabric_object_eq_Inr)
  have "kvs = map (\<lambda>k. (k, fld v k)) F \<and> (\<forall>k \<in> set F. \<exists>s. fld v k = JStr s \<and> s \<noteq> [] \<and> byte 0 \<notin> set s)"
    if "mapR (\<lambda>key. bind (fabric_string (fld v key) (dotted field key)) (\<lambda>s. Inr (key, JStr s))) F = Inr kvs" for F kvs
    using that by (induction F arbitrary: kvs) (auto simp: bind_eq_Inr fabric_string_eq_Inr)
  from this[OF kvs(1)] have r: "r = JObj (map (\<lambda>k. (k, fld v k)) route_fields)"
    and strs: "\<forall>k \<in> set route_fields. \<exists>s. fld v k = JStr s \<and> s \<noteq> [] \<and> byte 0 \<notin> set s" using kvs(2) by simp_all
  have "mapR (\<lambda>key. bind (fabric_string (fld r key) (dotted field' key)) (\<lambda>s. Inr (key, JStr s))) F = Inr (map (\<lambda>k. (k, fld v k)) F)"
    if "set F \<subseteq> set route_fields" for F
    using that
  proof (induction F)
    case (Cons k F)
    then obtain s where "fld v k = JStr s" "s \<noteq> []" "byte 0 \<notin> set s" using strs by auto
    then have "fabric_string (fld r k) (dotted field' k) = Inr s" using Cons.prems by (simp add: r fld_fields fabric_string_eq_Inr)
    then show ?case using Cons \<open>fld v k = JStr s\<close> by simp
  qed simp
  moreover have "fabric_object r field' route_fields [] = Inr r" by (simp add: r fabric_object_eq_Inr keys_def comp_def)
  ultimately show "route_identity r field' = Inr r" by (simp add: route_identity_def) (simp add: r)
qed

section \<open>Text of a dictionary\<close>

lemma dumps_members:
  assumes "distinct (map fst kvs)" "distinct (map fst kvs')" "set kvs = set kvs'"
  shows "dumps (JObj kvs) = dumps (JObj kvs')"
proof -
  have "sort_key fst kvs = sort_key fst kvs'"
  proof (rule map_sorted_distinct_set_unique[of fst])
    have "inj_on fst (set kvs)" using assms(1) by (simp add: distinct_map)
    then show "inj_on fst (set (sort_key fst kvs) \<union> set (sort_key fst kvs'))" using assms(3) by simp
    show "distinct (map fst (sort_key fst kvs))" "distinct (map fst (sort_key fst kvs'))"
      using assms by (simp_all add: distinct_map)
  qed (simp_all add: assms(3))
  then show ?thesis by simp
qed

lemma dumps_part:
  assumes "distinct (map fst kvs)" "distinct F" "set F = fst ` set kvs"
  shows "dumps (JObj (map (\<lambda>f. (f, fld (JObj kvs) f)) F)) = dumps (JObj kvs)"
proof (rule dumps_members)
  have member: "(k, x) \<in> set kvs \<longleftrightarrow> map_of kvs k = Some x" for k x using assms(1) by simp
  have "fld (JObj kvs) k = x" if "(k, x) \<in> set kvs" for k x using that by (simp add: member fld_def get_def)
  then have entry: "(fst kv, fld (JObj kvs) (fst kv)) = kv" if "kv \<in> set kvs" for kv using that by (cases kv) auto
  have "set (map (\<lambda>f. (f, fld (JObj kvs) f)) F) = (\<lambda>kv. (fst kv, fld (JObj kvs) (fst kv))) ` set kvs"
    by (simp add: assms(3) image_image)
  also have "\<dots> = (\<lambda>kv. kv) ` set kvs" using entry by (rule image_cong[OF refl])
  finally show "set (map (\<lambda>f. (f, fld (JObj kvs) f)) F) = set kvs" by simp
qed (use assms in \<open>simp_all add: comp_def\<close>)

section \<open>Decisions\<close>

definition input_ok :: "decision_input \<Rightarrow> bool" where
  "input_ok i \<longleftrightarrow> fabric_string (JStr (assigned_to i)) [] = Inr (assigned_to i) \<and>
     route_identity (current_route i) [] = Inr (current_route i) \<and>
     fabric_sha (JStr (certificate_digest i)) [] = Inr (certificate_digest i) \<and>
     fabric_sha (JStr (trajectory_digest i)) [] = Inr (trajectory_digest i) \<and>
     unique_strings (JList (map JStr (bound_sources i))) [] = Inr (bound_sources i)"

lemma read_decision_facts:
  assumes "read_decision_input v = Inr i"
  shows "input_ok i"
    and "fld v ''certificate_status'' = JStr (certificate_state i)"
    and "\<And>f. f \<in> set signal_fields \<Longrightarrow> fld (fld v ''signals'') f = JStr (signal_of i f)"
    and "\<And>f. f \<in> set hard_stop_fields \<Longrightarrow> fld (fld v ''hard_stops'') f = JBool (stopped i f)"
    and "fld (fld v ''continuity'') ''context_pressure'' = JBool (context_pressed i)"
    and "fld (fld v ''continuity'') ''budget_pressure'' = JBool (budget_pressed i)"
    and "fld v ''candidate_ready'' = JBool (candidate_ready i)"
    and "safety_conflict (signal_of i) (stopped i) (context_pressed i) (budget_pressed i) = None"
proof -
  let ?at = "dotted ''decision_input''"
  from assms obtain data assignment_id identity certificate_sha cert_status signals stops continuity pressure budget ready sources trajectory_sha fu hu
    where v: "fabric_object v ''decision_input'' decision_input_fields [''provider_prose_identity''] = Inr data"
    and a: "fabric_string (fld data ''assignment_id'') (?at ''assignment_id'') = Inr assignment_id"
    and b: "route_identity (fld data ''current_route_identity'') (?at ''current_route_identity'') = Inr identity"
    and c: "fabric_sha (fld data ''current_certificate_sha256'') (?at ''current_certificate_sha256'') = Inr certificate_sha"
    and d: "require_choice (fld data ''certificate_status'') certificate_statuses ''certificate_status_invalid'' (?at ''certificate_status'') = Inr cert_status"
    and e: "fabric_object (fld data ''signals'') (?at ''signals'') signal_fields [] = Inr signals"
    and f: "eachR (\<lambda>f. require_choice (fld signals f) [''true'', ''false'', ''unknown''] ''signal_invalid'' (?at (''signals.'' @ f))) signal_fields = Inr fu"
    and g: "fabric_object (fld data ''hard_stops'') (?at ''hard_stops'') hard_stop_fields [] = Inr stops"
    and h: "eachR (\<lambda>f. fabric_bool (fld stops f) (?at (''hard_stops.'' @ f))) hard_stop_fields = Inr hu"
    and j: "fabric_object (fld data ''continuity'') (?at ''continuity'') [''context_pressure'', ''budget_pressure''] [] = Inr continuity"
    and k: "fabric_bool (fld continuity ''context_pressure'') (?at ''continuity.context_pressure'') = Inr pressure"
    and l: "fabric_bool (fld continuity ''budget_pressure'') (?at ''continuity.budget_pressure'') = Inr budget"
    and m: "safety_conflict (\<lambda>f. the_str (fld signals f)) (\<lambda>f. fld stops f = JBool True) pressure budget = None"
    and n: "fabric_bool (fld data ''candidate_ready'') (?at ''candidate_ready'') = Inr ready"
    and p: "unique_strings (fld data ''source_bindings'') (?at ''source_bindings'') = Inr sources"
    and q: "fabric_sha (fld data ''trajectory_sha256'') (?at ''trajectory_sha256'') = Inr trajectory_sha"
    and i: "i = \<lparr>assigned_to = assignment_id, current_route = identity, certificate_digest = certificate_sha, certificate_state = cert_status,
       signal_of = (\<lambda>f. the_str (fld signals f)), stopped = (\<lambda>f. fld stops f = JBool True), context_pressed = pressure, budget_pressed = budget,
       candidate_ready = ready, bound_sources = sources, trajectory_digest = trajectory_sha\<rparr>"
    unfolding read_decision_input_def Let_def
    by (elim bindE raiseE noneE InrE) (rule that, assumption+)
  have data: "data = v" "signals = fld v ''signals''" "stops = fld v ''hard_stops''" "continuity = fld v ''continuity''"
    using v e g j by (simp_all add: fabric_object_eq_Inr)
  show "input_ok i"
    using a c p q route_identity_idem[OF b] by (simp add: i input_ok_def fabric_string_eq_Inr fabric_sha_eq_Inr unique_strings_eq_Inr)
  show "fld v ''certificate_status'' = JStr (certificate_state i)" using d by (simp add: i data require_choice_eq_Inr)
  show "fld (fld v ''signals'') x = JStr (signal_of i x)" if "x \<in> set signal_fields" for x
    using f that by (auto simp: i data eachR_eq_Inr require_choice_eq_Inr)
  show "fld (fld v ''hard_stops'') x = JBool (stopped i x)" if "x \<in> set hard_stop_fields" for x
    using h that by (auto simp: i data eachR_eq_Inr fabric_bool_eq_Inr)
  show "fld (fld v ''continuity'') ''context_pressure'' = JBool (context_pressed i)"
    "fld (fld v ''continuity'') ''budget_pressure'' = JBool (budget_pressed i)"
    "fld v ''candidate_ready'' = JBool (candidate_ready i)"
    "safety_conflict (signal_of i) (stopped i) (context_pressed i) (budget_pressed i) = None"
    using k l m n by (simp_all add: i data fabric_bool_eq_Inr)
qed

lemma upd_same: "get v k = Some x \<Longrightarrow> upd k x v = v"
proof -
  have "map_of kvs k = Some x \<Longrightarrow> AList.update k x kvs = kvs" for kvs by (induction kvs) (auto split: if_splits)
  then show "get v k = Some x \<Longrightarrow> upd k x v = v" by (cases v) (auto simp: get_def upd_def json_sel_defs)
qed

lemma choose_action_action: "fst (choose_action i) \<in> set advisory_actions"
  by (simp add: choose_action_def advisory_actions_def Let_def)

lemma choose_action_reason: "snd (choose_action i) \<noteq> [] \<and> (fst (choose_action i) = ''switch'' \<longrightarrow> snd (choose_action i) \<notin> set hard_stop_reasons)"
  by (simp add: choose_action_def hard_stop_reasons_def Let_def)

definition base_of :: "decision_input \<Rightarrow> (string \<times> json) list" where
  "base_of i = [(''artifact_type'', JStr ''route_fabric_decision_v1''), (''assignment_id'', JStr (assigned_to i)),
     (''source_bindings'', JList (map JStr (bound_sources i))), (''current_route_identity'', current_route i),
     (''current_certificate_sha256'', JStr (certificate_digest i)), (''target_route_identity'', JNull),
     (''trajectory_sha256'', JStr (trajectory_digest i)), (''action'', JStr (fst (choose_action i))),
     (''reason_codes'', JList [JStr (snd (choose_action i))]),
     (''authorization_required'', JBool (fst (choose_action i) = ''human_gate'')), (''retry_started'', JBool False),
     (''fallback_started'', JBool False), (''dispatch_started'', JBool False), (''board_mutated'', JBool False),
     (''accepted'', JBool False)]"

lemma decision_base: "decision_of sha i = upd ''decision_sha256'' (JStr (digest_of sha (JObj (base_of i)))) (JObj (base_of i))"
  by (simp add: decision_of_def base_of_def Let_def)

lemma base_keys: "map fst (base_of i) = filter (\<lambda>f. f \<noteq> ''decision_sha256'') decision_fields"
  by (simp add: base_of_def decision_fields_def)

lemma decision_flds:
  "fld (decision_of sha i) ''artifact_type'' = JStr ''route_fabric_decision_v1''"
  "fld (decision_of sha i) ''assignment_id'' = JStr (assigned_to i)"
  "fld (decision_of sha i) ''source_bindings'' = JList (map JStr (bound_sources i))"
  "fld (decision_of sha i) ''current_route_identity'' = current_route i"
  "fld (decision_of sha i) ''current_certificate_sha256'' = JStr (certificate_digest i)"
  "fld (decision_of sha i) ''target_route_identity'' = JNull"
  "fld (decision_of sha i) ''trajectory_sha256'' = JStr (trajectory_digest i)"
  "fld (decision_of sha i) ''action'' = JStr (fst (choose_action i))"
  "fld (decision_of sha i) ''reason_codes'' = JList (map JStr [snd (choose_action i)])"
  "fld (decision_of sha i) ''authorization_required'' = JBool (fst (choose_action i) = ''human_gate'')"
  "f \<in> set authority_flags \<Longrightarrow> fld (decision_of sha i) f = JBool False"
  "fld (decision_of sha i) ''decision_sha256'' = JStr (digest_of sha (JObj (base_of i)))"
  "get (decision_of sha i) ''current_route_identity'' = Some (current_route i)"
  unfolding decision_base fld_upd get_upd
  by (simp_all add: base_of_def fld_JObj_Cons authority_flags_def, auto simp: get_def fld_JObj_Cons)

lemma except_decision: "dumps (except ''decision_sha256'' decision_fields (decision_of sha i)) = dumps (JObj (base_of i))"
proof -
  let ?F = "filter (\<lambda>f. f \<noteq> ''decision_sha256'') decision_fields"
  have d: "distinct ?F" by (simp add: decision_fields_def)
  have eq: "except ''decision_sha256'' decision_fields (decision_of sha i) = JObj (map (\<lambda>f. (f, fld (JObj (base_of i)) f)) ?F)"
    by (simp add: except_def decision_base fld_upd)
  have "set ?F = set (map fst (base_of i))" by (simp only: base_keys)
  then have "set ?F = fst ` set (base_of i)" by (simp only: set_map)
  moreover have "distinct (map fst (base_of i))" unfolding base_keys by (rule d)
  ultimately show ?thesis unfolding eq using d by (intro dumps_part)
qed

lemma nonempty_sha: "sha_text s \<Longrightarrow> s \<noteq> [] \<and> byte 0 \<notin> set s"
proof -
  assume "sha_text s"
  then have "take 7 s = sha_prefix" and hex: "hex64 (drop 7 s)"
    by (simp_all add: sha_text_def starts_with_def sha_prefix_def eval_nat_numeral)
  moreover have "s = take 7 s @ drop 7 s" by (rule append_take_drop_id[symmetric])
  ultimately have s: "s = sha_prefix @ drop 7 s" by (simp only:)
  have digits: "set (drop 7 s) \<subseteq> set hex_digits" using hex by (auto simp: hex64_def all_hex_def list_all_iff)
  have zero: "byte 0 \<notin> set hex_digits" "byte 0 \<notin> set sha_prefix" by code_simp+
  then have "byte 0 \<notin> set (sha_prefix @ drop 7 s)" using digits by auto
  then have "byte 0 \<notin> set s" using s by metis
  moreover have "sha_prefix \<noteq> []" by (simp add: sha_prefix_def)
  ultimately show ?thesis using s by (metis append_is_Nil_conv)
qed

text \<open>
  C33: whatever decision is emitted is one that the validator of decisions accepts, unchanged: the
  decision never selects a target, claims no authority beyond the human gate, and carries the digest
  of its own content.
\<close>

theorem emitted_decision_validates:
  assumes "choose_advisory_action sha v = Inr d" "\<forall>s. hex64 (sha s)"
  shows "validate_decision sha d = Inr d"
proof -
  obtain i where i: "read_decision_input v = Inr i" "d = decision_of sha i"
    using assms(1) by (auto simp: choose_advisory_action_def bind_eq_Inr)
  note ok = read_decision_facts(1)[OF i(1), unfolded input_ok_def fabric_string_eq_Inr fabric_sha_eq_Inr unique_strings_eq_Inr]
  have shape: "fabric_object d ''route_fabric_decision'' decision_fields [] = Inr d"
  proof -
    have "keys (JObj (base_of i)) = filter (\<lambda>f. f \<noteq> ''decision_sha256'') decision_fields" using base_keys by (simp add: keys_def)
    moreover have "''decision_sha256'' \<in> set decision_fields" by (simp add: decision_fields_def)
    ultimately have "set (keys d) = set decision_fields" by (auto simp: i(2) decision_base set_keys_upd)
    then show ?thesis by (simp add: fabric_object_eq_Inr i(2) decision_base)
  qed
  have identity: "route_identity (current_route i) field = Inr (current_route i)" for field
    using ok route_identity_idem by blast
  have same: "upd ''current_route_identity'' (current_route i) d = d" using decision_flds(13) by (simp add: upd_same i(2))
  have digest: "fabric_sha (JStr (digest_of sha (JObj (base_of i)))) field = Inr (digest_of sha (JObj (base_of i)))" for field
  proof -
    have "sha_text (digest_of sha (JObj (base_of i)))" using assms(2) by (simp add: digest_of_def)
    from nonempty_sha[OF this] this show ?thesis by (simp add: fabric_sha_eq_Inr)
  qed
  have flags: "eachR (\<lambda>f. bind (fabric_bool (fld d f) (at f)) (\<lambda>b. guard (\<not> b) (FabricError ''advisory_authority_flag'' f))) authority_flags = Inr ()" for at
    by (auto simp: eachR_eq_Inr i(2) decision_flds(11) fabric_bool_def guard_def)
  have texts: "fabric_string (JStr (assigned_to i)) field = Inr (assigned_to i)"
    "fabric_sha (JStr (certificate_digest i)) field = Inr (certificate_digest i)"
    "fabric_sha (JStr (trajectory_digest i)) field = Inr (trajectory_digest i)"
    "unique_strings (JList (map JStr (bound_sources i))) field = Inr (bound_sources i)"
    "unique_strings (JList (map JStr [snd (choose_action i)])) field = Inr [snd (choose_action i)]"
    "require_choice (JStr (fst (choose_action i))) advisory_actions c field = Inr (fst (choose_action i))" for field c
    using ok choose_action_action[of i] choose_action_reason[of i]
    by (auto simp: fabric_string_eq_Inr fabric_sha_eq_Inr unique_strings_eq_Inr require_choice_eq_Inr)
  have reroute: "\<not> (fst (choose_action i) = ''switch'' \<and> list_ex (\<lambda>c. c \<in> set [snd (choose_action i)]) hard_stop_reasons)"
    using choose_action_reason[of i] by (auto simp: list_ex_iff)
  have bound: "bound_digest sha (JStr (digest_of sha (JObj (base_of i)))) field (except ''decision_sha256'' decision_fields (decision_of sha i)) e = Inr ()" for field e
  proof -
    have "digest_of sha (except ''decision_sha256'' decision_fields (decision_of sha i)) = digest_of sha (JObj (base_of i))"
      by (simp only: digest_of_def except_decision)
    then show ?thesis by (simp only: bound_digest_def digest guard_def bind.simps if_True refl)
  qed
  have auth: "fabric_bool (JBool b) field = Inr b" for b field by (simp add: fabric_bool_def)
  note flds = decision_flds[where sha = sha and i = i, folded i(2)]
  show ?thesis
    unfolding validate_decision_def Let_def shape bind.simps flds same texts identity auth flags
    using reroute bound by (simp add: i(2))
qed

text \<open>
  C34: \<open>continue\<close> is advised exactly when nothing speaks against it: the certificate is active, no hard
  stop of any kind is set, no candidate is waiting for review, and no signal but \<open>progress\<close> is
  raised. (An unknown signal does not count as raised.)
\<close>

theorem continue_iff_clean:
  assumes "choose_advisory_action sha v = Inr d"
  shows "fld d ''action'' = JStr ''continue'' \<longleftrightarrow> fld v ''certificate_status'' = JStr ''active'' \<and>
    (\<forall>f \<in> set hard_stop_fields. fld (fld v ''hard_stops'') f = JBool False) \<and> fld v ''candidate_ready'' = JBool False \<and>
    (\<forall>f \<in> set signal_fields - {''progress''}. fld (fld v ''signals'') f \<noteq> JStr ''true'')"
proof -
  obtain i where i: "read_decision_input v = Inr i" "d = decision_of sha i"
    using assms by (auto simp: choose_advisory_action_def bind_eq_Inr)
  note facts = read_decision_facts[OF i(1)]
  have stops: "(\<forall>f \<in> set hard_stop_fields. fld (fld v ''hard_stops'') f = JBool False) \<longleftrightarrow> (\<forall>f \<in> set hard_stop_fields. \<not> stopped i f)"
    using facts(4) by auto
  have signals: "(\<forall>f \<in> set signal_fields - {''progress''}. fld (fld v ''signals'') f \<noteq> JStr ''true'') \<longleftrightarrow>
      (\<forall>f \<in> set signal_fields - {''progress''}. signal_of i f \<noteq> ''true'')"
    using facts(3) by auto
  have "fst (choose_action i) = ''continue'' \<longleftrightarrow> certificate_state i = ''active'' \<and> (\<forall>f \<in> set hard_stop_fields. \<not> stopped i f) \<and>
      \<not> candidate_ready i \<and> (\<forall>f \<in> set signal_fields - {''progress''}. signal_of i f \<noteq> ''true'')"
    using facts(8) unfolding choose_action_def Let_def safety_conflict_def hard_stop_fields_def signal_fields_def
    by (auto split: if_splits)
  then show ?thesis unfolding stops signals using facts(2,7) by (simp add: i(2) decision_flds)
qed

section \<open>An unknown acceptance\<close>

text \<open>
  C35: a quality whose acceptance is stated as \<open>unknown\<close> gives the signal \<open>quality_rejected\<close> the value
  \<open>unknown\<close> only when the text is the module's own constant; the same text read from a document gives
  \<open>false\<close>, as an acceptance would.
\<close>

theorem unknown_acceptance_reads_false:
  assumes "derive_trajectory_signals sha same v = Inr r" "fld (fld v ''quality'') ''accepted'' = JStr ''unknown''"
  shows "fld (fld r ''signals'') ''quality_rejected'' = JStr (if same then ''unknown'' else ''false'')"
proof -
  obtain outcomes pressure budget base where "r = upd ''trajectory_sha256'' (JStr (digest_of sha (JObj base))) (JObj base)"
    "fld (JObj base) ''signals'' = trajectory_signals same outcomes pressure budget (fld (fld v ''quality'') ''accepted'')"
    using assms(1) unfolding derive_trajectory_signals_def Let_def fabric_object_eq_Inr
    by (elim bindE raiseE noneE InrE) (rule that, assumption, simp add: fld_JObj_Cons fabric_object_eq_Inr)
  then show ?thesis by (simp add: fld_upd trajectory_signals_def fld_JObj_Cons assms(2) signal_def Let_def)
qed

section \<open>Samples\<close>

definition a_digest :: json where
  "a_digest = JStr (sha_prefix @ demo_hash)"

definition a_route :: json where
  "a_route = JObj (map (\<lambda>f. (f, JStr f)) route_fields)"

definition a_decision_input :: json where
  "a_decision_input = JObj [(''assignment_id'', JStr ''A-1''), (''current_route_identity'', a_route),
     (''current_certificate_sha256'', a_digest), (''target_route_identity'', JNull), (''certificate_status'', JStr ''active''),
     (''signals'', JObj (map (\<lambda>f. (f, JStr (if f = ''progress'' then ''true'' else ''unknown''))) signal_fields)),
     (''hard_stops'', JObj (map (\<lambda>f. (f, JBool False)) hard_stop_fields)),
     (''continuity'', JObj [(''context_pressure'', JBool False), (''budget_pressure'', JBool False)]),
     (''candidate_ready'', JBool False), (''source_bindings'', JList [JStr ''ledger'']), (''trajectory_sha256'', a_digest)]"

definition a_trajectory :: json where
  "a_trajectory = JObj [(''assignment_id'', JStr ''A-1''), (''attempt_ids'', JList [JStr ''T-1'']),
     (''ledger_sequence_start'', JInt 1), (''ledger_sequence_end'', JInt 2), (''ledger_head_before'', JStr ''unknown''),
     (''ledger_head_after'', a_digest), (''policy_sha256'', a_digest), (''evidence'', JList []),
     (''outcomes'', JList [JObj [(''action'', JStr ''edit''), (''error_class'', JStr ''none''), (''progress'', JBool True)]]),
     (''quality'', JObj [(''accepted'', JStr ''unknown'')]),
     (''continuity'', JObj [(''context_pressure'', JBool False), (''budget_pressure'', JBool False)]), (''unknowns'', JList [])]"

lemma a_decision: "\<exists>i. read_decision_input a_decision_input = Inr i"
proof -
  have "case read_decision_input a_decision_input of Inl e \<Rightarrow> False | Inr i \<Rightarrow> True" by code_simp
  then show ?thesis by (cases "read_decision_input a_decision_input") simp_all
qed

lemma a_choice: "choose_advisory_action demo_digest a_decision_input = Inr (projr (choose_advisory_action demo_digest a_decision_input))"
  using a_decision by (auto simp: choose_advisory_action_def)

lemma emitted_decision_validates_witness:
  "\<exists>d. choose_advisory_action demo_digest a_decision_input = Inr d \<and> validate_decision demo_digest d = Inr d"
  using a_choice emitted_decision_validates[OF a_choice demo_hex] by blast

lemma continue_iff_clean_witness:
  "\<exists>d. choose_advisory_action demo_digest a_decision_input = Inr d \<and> fld d ''action'' = JStr ''continue''"
proof -
  have "fld a_decision_input ''certificate_status'' = JStr ''active''" "fld a_decision_input ''candidate_ready'' = JBool False"
    "list_all (\<lambda>f. fld (fld a_decision_input ''hard_stops'') f = JBool False) hard_stop_fields"
    "list_all (\<lambda>f. fld (fld a_decision_input ''signals'') f \<noteq> JStr ''true'') (filter (\<lambda>f. f \<noteq> ''progress'') signal_fields)"
    by code_simp+
  then show ?thesis using a_choice continue_iff_clean[OF a_choice] by (auto simp: list_all_iff)
qed

lemma unknown_acceptance_reads_false_witness:
  "\<exists>r. derive_trajectory_signals demo_digest False a_trajectory = Inr r \<and>
    fld (fld r ''signals'') ''quality_rejected'' = JStr ''false''"
proof -
  have "case derive_trajectory_signals demo_digest False a_trajectory of Inl e \<Rightarrow> False | Inr r \<Rightarrow> True" by code_simp
  then obtain r where r: "derive_trajectory_signals demo_digest False a_trajectory = Inr r"
    by (cases "derive_trajectory_signals demo_digest False a_trajectory") simp_all
  moreover have "fld (fld a_trajectory ''quality'') ''accepted'' = JStr ''unknown''" by code_simp
  ultimately show ?thesis using unknown_acceptance_reads_false[OF r] by auto
qed

end
