(* ===== verification/Scheduler.thy ===== *)
theory Scheduler
  imports Advice Paths
begin

text \<open>
  The checks of the dispatch scheduler, first half of \<open>scripts/schedule_headless_dispatch.py\<close>: scopes,
  the policy, the envelope of a task, the candidate routes and the advisory of the route fabric.

  What the scheduler takes from outside is a record \<open>world\<close>: the reading of a timestamp by
  \<open>datetime.fromisoformat\<close> (the forms it accepts depend on the interpreter), sums with a float, the
  verification of the binding source files, the broker's state files, the spaced JSON text of an
  error's detail, and two parts of the plugin
  that are not modelled: the check of an explicit selection (\<open>verify_configured_tool_session.py\<close>)
  and the resolver (\<open>resolve_worker_route.py\<close>), which answers a packet with an error's code or a receipt.
\<close>

record world =
  iso :: "string \<Rightarrow> int option"
  float_sum :: "json \<Rightarrow> json \<Rightarrow> json"
  binding_files :: "json \<Rightarrow> json \<Rightarrow> json result"
  selection_check :: "json \<Rightarrow> string \<times> string + json"
  state_path :: "string \<Rightarrow> string + string"
  state_file :: "string \<Rightarrow> json option"
  resolve_route :: "json \<Rightarrow> (string + json) result"
  spaced_text :: "json \<Rightarrow> string"

section \<open>Checked values\<close>

abbreviation sched_error :: "string \<Rightarrow> string \<Rightarrow> 'a result" where
  "sched_error c d \<equiv> Inl (ScheduleError c d)"

definition ceiling_write_workers :: int where
  "ceiling_write_workers = 2"

definition semantic_roles :: "string list" where
  "semantic_roles = [''planner'', ''architect'', ''worker'', ''tester'', ''documenter'', ''auditor'']"

definition diverse_roles :: "string list" where
  "diverse_roles = [''worker'', ''tester'', ''documenter'', ''auditor'']"

definition sched_time :: "world \<Rightarrow> json \<Rightarrow> string \<Rightarrow> int result" where
  "sched_time w v field = (if \<not> is_str v \<or> \<not> ends_with (the_str v) ''Z'' then sched_error ''invalid_timestamp'' field
     else case iso w (the_str v) of None \<Rightarrow> sched_error ''invalid_timestamp'' field | Some t \<Rightarrow> Inr t)"

definition sha_match :: "string \<Rightarrow> bool" where
  "sha_match s = (hex64 s \<or> sha_text s)"

definition raw_sha :: "json \<Rightarrow> string \<Rightarrow> string result" where
  "raw_sha v field = (if \<not> is_str v \<or> \<not> sha_match (the_str v) then sched_error ''binding_invalid'' field
     else Inr (remove_prefix sha_prefix (the_str v)))"

text \<open>\<open>SHA.fullmatch(v) is None\<close>: only texts can be matched.\<close>

definition unmatched :: "json \<Rightarrow> bool result" where
  "unmatched v = (if is_str v then Inr (\<not> sha_match (the_str v)) else Inl TypeError)"

definition sched_positive :: "json \<Rightarrow> string \<Rightarrow> int \<Rightarrow> int result" where
  "sched_positive v field least = (if \<not> is_int v \<or> the_int v < least then sched_error ''policy_invalid'' field else Inr (the_int v))"

definition strict_object :: "json \<Rightarrow> string \<Rightarrow> string list \<Rightarrow> json result" where
  "strict_object v field K = (if keys_are v K then Inr v else sched_error ''shape_invalid'' field)"

section \<open>Scopes\<close>

definition glob_markers :: string where
  "glob_markers = ''*?[]''"

fun scope_parts :: "exn \<Rightarrow> string list \<Rightarrow> string list result" where
  "scope_parts e [] = Inr []"
| "scope_parts e (p # ps) = (if p = [] \<or> p = ''.'' then scope_parts e ps
     else if p = ''..'' then Inl e
     else if list_ex (\<lambda>c. c \<in> set p) glob_markers then Inr []
     else bind (scope_parts e ps) (\<lambda>r. Inr (p # r)))"

definition normalize_scope :: "json \<Rightarrow> string result" where
  "normalize_scope v =
     (if \<not> is_str v \<or> the_str v = [] \<or> starts_with (the_str v) ''/'' \<or> backslash \<in> set (the_str v)
      then sched_error ''scope_invalid'' (py_str v)
      else bind (scope_parts (ScheduleError ''scope_invalid'' (the_str v)) (split_on CHR ''/'' (the_str v))) (\<lambda>parts.
        Inr (if parts = [] then ''.'' else join ''/'' parts)))"

definition scope_meets :: "string \<Rightarrow> string \<Rightarrow> bool" where
  "scope_meets a b = (a = ''.'' \<or> b = ''.'' \<or> a = b \<or> starts_with a (b @ ''/'') \<or> starts_with b (a @ ''/''))"

definition scopes_overlap :: "json \<Rightarrow> json \<Rightarrow> bool result" where
  "scopes_overlap left right = bind (normalize_scope left) (\<lambda>a. bind (normalize_scope right) (\<lambda>b. Inr (scope_meets a b)))"

section \<open>The policy\<close>

definition policy_fields :: "string list" where
  "policy_fields = [''schema_version'', ''activation'', ''global_active_limit'', ''lease_ttl_seconds'',
     ''maximum_queue_age_seconds'', ''provider_concurrency_default'', ''runtime_host_concurrency_default'',
     ''provider_concurrency_limits'', ''runtime_host_concurrency_limits'', ''allowance_limits'', ''token_capacity'',
     ''diversity_min_quality_observations'', ''role_rank_displacement'', ''unknown_cost_policy'', ''hedging_enabled'',
     ''direct_repository_writes_enabled'', ''artifact_quality_policy'']"

text \<open>\<open>set(v)\<close> of a value of unknown type\<close>

definition py_set :: "json \<Rightarrow> json list result" where
  "py_set v = bind (py_iter v) (\<lambda>xs. if list_all hashable xs then Inr xs else Inl TypeError)"

definition check_limits :: "json \<Rightarrow> string \<Rightarrow> unit result" where
  "check_limits policy field =
     (if \<not> is_obj (fld policy field) then sched_error ''policy_invalid'' field
      else eachR (\<lambda>(key, limit). if key = [] then sched_error ''policy_invalid'' field
        else bind (sched_positive limit (field @ ''.'' @ key) 1) (\<lambda>_. Inr ())) (the_obj (fld policy field)))"

text \<open>\<open>set(v)\<close> of a list of all roles would pass; only a dictionary has \<open>items\<close>.\<close>

definition check_displacement :: "json \<Rightarrow> unit result" where
  "check_displacement v = bind (py_set v) (\<lambda>roles.
     if \<not> list_all (\<lambda>r. in_strs r semantic_roles) roles \<or> \<not> list_all (\<lambda>r. JStr r \<in> set roles) semantic_roles
     then sched_error ''policy_invalid'' ''role_rank_displacement''
     else if \<not> is_obj v then Inl AttributeError
     else eachR (\<lambda>(role, displacement). if \<not> hashable displacement then Inl TypeError
       else guard ((py_eq displacement (JInt 0) \<or> py_eq displacement (JInt 1)) \<and>
         \<not> (role \<in> set [''planner'', ''architect''] \<and> \<not> py_eq displacement (JInt 0)))
         (ScheduleError ''policy_invalid'' (''role_rank_displacement.'' @ role))) (the_obj v))"

definition validate_policy :: "json \<Rightarrow> json result" where
  "validate_policy v = bind (strict_object v ''scheduler'' policy_fields) (\<lambda>policy.
     if \<not> py_eq (fld policy ''schema_version'') (JInt 1) then sched_error ''policy_invalid'' ''schema_version''
     else if fld policy ''activation'' \<noteq> JStr ''explicit_only'' \<or>
       fld policy ''unknown_cost_policy'' \<noteq> JStr ''preserve_unknown_and_reject_cash''
     then sched_error ''policy_invalid'' ''unsafe activation or unknown-cost policy''
     else if fld policy ''hedging_enabled'' \<noteq> JBool False \<or> \<not> is_bool (fld policy ''direct_repository_writes_enabled'')
     then sched_error ''policy_invalid'' ''unsafe hedging or write policy''
     else bind (eachR (\<lambda>f. sched_positive (fld policy f) f 1) [''global_active_limit'', ''lease_ttl_seconds'',
       ''maximum_queue_age_seconds'', ''provider_concurrency_default'', ''runtime_host_concurrency_default'']) (\<lambda>_.
     bind (eachR (check_limits policy) [''provider_concurrency_limits'', ''runtime_host_concurrency_limits'', ''allowance_limits'']) (\<lambda>_.
     bind (if fld policy ''token_capacity'' = JNull then Inr 0 else sched_positive (fld policy ''token_capacity'') ''token_capacity'' 1) (\<lambda>_.
     bind (sched_positive (fld policy ''diversity_min_quality_observations'') ''diversity_min_quality_observations'' 0) (\<lambda>_.
     bind (check_displacement (fld policy ''role_rank_displacement'')) (\<lambda>_.
     if \<not> is_str (fld policy ''artifact_quality_policy'') \<or> fld policy ''artifact_quality_policy'' = JStr []
     then sched_error ''policy_invalid'' ''artifact_quality_policy''
     else Inr policy))))))"

section \<open>The envelope\<close>

definition binding_names :: "string list" where
  "binding_names = [''board'', ''config'', ''authority'', ''workgraph'', ''supervisor'']"

definition supplied_fields :: "string list" where
  "supplied_fields = map (\<lambda>n. n @ ''_sha256'') binding_names"

text \<open>\<open>semantic_task_profile(DEFAULTS, role, ...)\<close>, the table being a constant of the configuration\<close>

definition task_profile :: "string \<Rightarrow> string \<Rightarrow> string" where
  "task_profile role mode = (if role = ''worker'' \<and> mode = ''scoped_write'' then ''semantic_worker_implementation''
     else the (map_of [(''planner'', ''sol_plan_architecture''), (''architect'', ''sol_plan_architecture''),
       (''worker'', ''semantic_worker_artifact''), (''tester'', ''semantic_independent_artifact''),
       (''documenter'', ''semantic_document_artifact''), (''auditor'', ''semantic_embedded_audit'')] role))"

definition envelope_fields :: "string list" where
  "envelope_fields = [''envelope_id'', ''goal_id'', ''checkpoint_id'', ''task_id'', ''assignment_id'',
     ''semantic_role'', ''scope'', ''budget'', ''independence'', ''quality_policy'']"

text \<open>The age is compared in microseconds (the script divides it, as a float, by a million).\<close>

definition check_queue :: "world \<Rightarrow> json \<Rightarrow> json \<Rightarrow> unit result" where
  "check_queue w queue now =
     bind (sched_time w now ''now'') (\<lambda>instant.
     bind (sched_time w (fld queue ''enqueued_at'') ''queue.enqueued_at'') (\<lambda>enqueued.
     bind (sched_time w (fld queue ''deadline'') ''queue.deadline'') (\<lambda>deadline.
     bind (sched_positive (fld queue ''max_queue_age_seconds'') ''max_queue_age_seconds'' 1) (\<lambda>max_age.
     if deadline \<le> instant then sched_error ''deadline_expired'' []
     else if instant < enqueued then sched_error ''enqueue_from_future'' []
     else guard (instant - enqueued \<le> max_age * 1000000) (ScheduleError ''queue_age_expired'' [])))))"

definition check_task :: "json \<Rightarrow> unit result" where
  "check_task envelope =
     (let scope = fld envelope ''scope''; budget = fld envelope ''budget''; quality = fld envelope ''quality_policy'' in
      if \<not> list_all (has_key envelope) envelope_fields then sched_error ''envelope_invalid'' ''missing scheduler field''
      else if \<not> is_obj scope \<or> \<not> is_list (fld scope ''requested_write'') then sched_error ''envelope_invalid'' ''scope''
      else if \<not> is_obj budget \<or> \<not> is_obj (fld budget ''accounting'') then sched_error ''envelope_invalid'' ''budget''
      else bind (require_in (\<lambda>c. ScheduleError c ''semantic_role'') (fld envelope ''semantic_role'') semantic_roles ''envelope_invalid'') (\<lambda>_.
      let role = the_str (fld envelope ''semantic_role''); mode = the_str (fld envelope ''mutation_mode'') in
      if fld envelope ''task_class'' \<noteq> JStr (task_profile role mode) then sched_error ''task_class_role_mismatch'' role
      else if mode = ''scoped_write'' \<and> fld scope ''requested_write'' = JList [] then sched_error ''scoped_write_invalid'' ''write scope required''
      else if \<not> is_str (fld budget ''allowance_class'') then sched_error ''envelope_invalid'' ''budget.allowance_class''
      else if \<not> is_obj quality \<or> \<not> is_str (fld quality ''policy_id'') then sched_error ''envelope_invalid'' ''quality_policy''
      else Inr ()))"

definition validate_envelope :: "world \<Rightarrow> json \<Rightarrow> json \<Rightarrow> json \<Rightarrow> json result" where
  "validate_envelope w envelope bindings now =
     (if \<not> is_obj envelope \<or> \<not> py_eq (fld envelope ''schema_version'') (JInt 1) \<or>
        fld envelope ''artifact_type'' \<noteq> JStr ''DispatchTaskEnvelope''
      then sched_error ''envelope_invalid'' ''DispatchTaskEnvelope v1 required''
      else bind (strict_object bindings ''bindings'' supplied_fields) (\<lambda>supplied.
      if \<not> py_eq (fld envelope ''bindings'') supplied then sched_error ''binding_mismatch'' ''envelope''
      else bind (eachR (\<lambda>(field, v). raw_sha v field) (the_obj supplied)) (\<lambda>_.
      if \<not> is_obj (fld envelope ''execution'') \<or> fld (fld envelope ''execution'') ''hedge_requested'' \<noteq> JBool False
      then sched_error ''hedging_deferred'' []
      else if \<not> is_obj (fld envelope ''queue'') then sched_error ''envelope_invalid'' ''queue''
      else bind (check_queue w (fld envelope ''queue'') now) (\<lambda>_.
      bind (require_in (\<lambda>c. ScheduleError c (py_str (fld envelope ''mutation_mode''))) (fld envelope ''mutation_mode'')
        [''read_only'', ''artifact_only'', ''scoped_write''] ''mutation_mode_ineligible'') (\<lambda>_.
      bind (check_task envelope) (\<lambda>_. Inr envelope))))))"

section \<open>Candidate routes\<close>

definition route_keys :: "string list" where
  "route_keys = [''name'', ''provider'', ''exact_model'', ''route_id'', ''runtime'', ''runtime_host'',
     ''reasoning'', ''billing_basis'', ''independence_group'', ''adapter_id'', ''adapter_sha256'', ''concurrency_limit'',
     ''allowance_units'', ''token_reservation'', ''cash_reservation_required'', ''evidence_path'', ''preflight_key_sha256'',
     ''preflight_observation'', ''resolver_packet_sha256'', ''resolver_packet'', ''preflight_binding'']"

definition selection_keys :: "string list" where
  "selection_keys = [''explicit_selection'', ''explicit_selection_sha256'']"

definition route_texts :: "string list" where
  "route_texts = [''name'', ''provider'', ''exact_model'', ''route_id'', ''runtime'', ''runtime_host'',
     ''reasoning'', ''billing_basis'', ''independence_group'', ''adapter_id'', ''evidence_path'']"

definition setdefault :: "string \<Rightarrow> json \<Rightarrow> json \<Rightarrow> json" where
  "setdefault k d v = (if has_key v k then v else upd k d v)"

definition check_amounts :: "json \<Rightarrow> unit result" where
  "check_amounts route =
     bind (sched_positive (fld route ''concurrency_limit'') ''candidate.concurrency_limit'' 1) (\<lambda>_.
     bind (sched_positive (fld route ''allowance_units'') ''candidate.allowance_units'' 0) (\<lambda>_.
     bind (if fld route ''token_reservation'' = JStr ''unknown'' then Inr 0
       else sched_positive (fld route ''token_reservation'') ''candidate.token_reservation'' 0) (\<lambda>_.
     guard (is_bool (fld route ''cash_reservation_required'')) (ScheduleError ''route_invalid'' ''cash_reservation_required''))))"

definition check_digests :: "(string \<Rightarrow> string) \<Rightarrow> json \<Rightarrow> unit result" where
  "check_digests sha route =
     bind (unmatched (fld route ''preflight_key_sha256'')) (\<lambda>bad.
     if bad then sched_error ''route_invalid'' ''preflight_key_sha256''
     else bind (unmatched (fld route ''adapter_sha256'')) (\<lambda>bad.
     if bad then sched_error ''route_invalid'' ''adapter_sha256''
     else bind (unmatched (fld route ''resolver_packet_sha256'')) (\<lambda>bad.
     if bad \<or> \<not> is_obj (fld route ''resolver_packet'') then sched_error ''route_invalid'' ''resolver_packet''
     else guard (JStr (digest_of sha (fld route ''resolver_packet'')) = fld route ''resolver_packet_sha256'')
       (ScheduleError ''resolver_packet_digest_mismatch'' (the_str (fld route ''name''))))))"

definition selection_expectations :: "(string \<times> string) list" where
  "selection_expectations = [(''route_name'', ''name''), (''requested_model'', ''exact_model''), (''route_id'', ''route_id''),
     (''provider'', ''provider''), (''runtime'', ''runtime''), (''billing_basis'', ''billing_basis''),
     (''adapter_type'', ''adapter_id''), (''adapter_sha256'', ''adapter_sha256'')]"

definition check_selection :: "world \<Rightarrow> json \<Rightarrow> json result" where
  "check_selection w route =
     (let packet = fld route ''resolver_packet''; name = the_str (fld route ''name'') in
      if fld route ''explicit_selection'' = JNull then
        (if fld route ''explicit_selection_sha256'' \<noteq> JNull \<or> fld packet ''explicit_selection'' \<noteq> JNull
         then sched_error ''explicit_selection_binding_mismatch'' name else Inr route)
      else case selection_check w (fld route ''explicit_selection'') of
        Inl (c, d) \<Rightarrow> sched_error c d
      | Inr selection \<Rightarrow>
          if \<not> py_eq (fld route ''explicit_selection_sha256'') (fld selection ''selection_sha256'') \<or>
            \<not> py_eq (fld packet ''explicit_selection'') selection \<or>
            \<not> py_eq (fld packet ''task_grant_sha256'') (fld selection ''task_grant_sha256'')
          then sched_error ''explicit_selection_binding_mismatch'' name
          else bind (eachR (\<lambda>(field, own). guard (py_eq (fld selection field) (fld route own))
            (ScheduleError ''explicit_selection_route_mismatch'' field)) selection_expectations) (\<lambda>_.
            Inr (upd ''explicit_selection'' selection route)))"

text \<open>An error of the broker becomes one of the scheduler.\<close>

definition rebrand :: "'a result \<Rightarrow> 'a result" where
  "rebrand m = (case m of Inl (PreflightBrokerError c) \<Rightarrow> sched_error ''preflight_invalid'' c | _ \<Rightarrow> m)"

definition expected_key :: "json \<Rightarrow> json" where
  "expected_key route = JObj [(''provider'', fld route ''provider''), (''exact_model'', fld route ''exact_model''),
     (''route_id'', fld route ''route_id''), (''runtime'', fld route ''runtime''), (''reasoning'', fld route ''reasoning''),
     (''proof_mode'', JStr (if fld (fld route ''resolver_packet'') ''profile'' = JStr ''semantic_worker_implementation''
       then ''scheduler_scoped_write'' else ''scheduler_artifact_only''))]"

definition check_preflight :: "(string \<Rightarrow> string) \<Rightarrow> json \<Rightarrow> unit result" where
  "check_preflight sha route =
     (let observation = fld route ''preflight_observation''; key = fld observation ''key''; name = the_str (fld route ''name'') in
      if \<not> is_obj observation then sched_error ''preflight_invalid'' name
      else bind (rebrand (bind (normalize_key key) (verify_observation observation))) (\<lambda>_.
      bind (key_digest sha key) (\<lambda>d.
      if JStr d \<noteq> fld route ''preflight_key_sha256'' then sched_error ''preflight_binding_mismatch'' name
      else bind (strict_object (fld route ''preflight_binding'') ''candidate.preflight_binding''
        [''state_path'', ''state_sha256'', ''entry_sha256'']) (\<lambda>binding.
      let path = fld binding ''state_path'' in
      if \<not> is_str path \<or> the_str path = [] \<or> starts_with (the_str path) ''/'' \<or> ''..'' \<in> set (posix_parts (the_str path)) \<or>
        backslash \<in> set (the_str path)
      then sched_error ''preflight_binding_path_invalid'' name
      else bind (eachR (\<lambda>f. guard (is_str (fld binding f) \<and> sha_match (the_str (fld binding f)))
        (ScheduleError ''preflight_binding_invalid'' f)) [''state_sha256'', ''entry_sha256'']) (\<lambda>_.
      guard (py_eq key (expected_key route)) (ScheduleError ''preflight_route_mismatch'' name))))))"

definition validate_route :: "(string \<Rightarrow> string) \<Rightarrow> world \<Rightarrow> json \<Rightarrow> json result" where
  "validate_route sha w v =
     (if \<not> is_obj v \<or> \<not> list_all (has_key v) route_keys \<or> \<not> list_all (\<lambda>k. k \<in> set (route_keys @ selection_keys)) (keys v)
      then sched_error ''shape_invalid'' ''candidate fields''
      else let route = setdefault ''explicit_selection_sha256'' JNull (setdefault ''explicit_selection'' JNull v) in
        bind (eachR (\<lambda>f. guard (nonblank (fld route f)) (ScheduleError ''route_invalid'' f)) route_texts) (\<lambda>_.
        bind (check_amounts route) (\<lambda>_.
        bind (check_digests sha route) (\<lambda>_.
        bind (check_selection w route) (\<lambda>route'.
        bind (check_preflight sha route') (\<lambda>_. Inr route'))))))"

section \<open>The advisory of the route fabric\<close>

definition advisory_bindings :: "(string \<times> string) list" where
  "advisory_bindings = [(''route_name'', ''name''), (''provider'', ''provider''), (''exact_model'', ''exact_model''),
     (''route_id'', ''route_id''), (''runtime'', ''runtime''), (''runtime_host'', ''runtime_host''),
     (''reasoning'', ''reasoning''), (''billing_basis'', ''billing_basis''), (''independence_group'', ''independence_group''),
     (''adapter_id'', ''adapter_id''), (''adapter_sha256'', ''adapter_sha256'')]"

definition route_matches :: "json \<Rightarrow> json \<Rightarrow> bool" where
  "route_matches route identity = list_all (\<lambda>(field, own). py_eq (fld route own) (fld identity field)) advisory_bindings"

definition refabric :: "'a result \<Rightarrow> 'a result" where
  "refabric m = (case m of Inl (FabricError c d) \<Rightarrow> sched_error c d | _ \<Rightarrow> m)"

definition advisory_receipt :: "json \<Rightarrow> string \<Rightarrow> string \<Rightarrow> json" where
  "advisory_receipt validated action effect = JObj [(''advisory_sha256'', fld validated ''advisory_sha256''),
     (''decision_sha256'', fld (fld validated ''decision'') ''decision_sha256''), (''action'', JStr action), (''effect'', JStr effect)]"

definition consume_advisory :: "(string \<Rightarrow> string) \<Rightarrow> json \<Rightarrow> json \<Rightarrow> json list \<Rightarrow> string \<Rightarrow> (json option \<times> json list) result" where
  "consume_advisory sha advisory envelope candidates head =
     (if advisory = JNull then Inr (None, candidates)
      else bind (refabric (validate_advisory sha advisory
        (if fld envelope ''assignment_id'' = JNull then None else Some (fld envelope ''assignment_id''))
        (Some (digest_of sha envelope)) (Some head))) (\<lambda>validated.
      let decision = fld validated ''decision''; identity = fld decision ''current_route_identity'';
          name = the_str (fld identity ''route_name''); action = the_str (fld decision ''action'');
          reasons = join '','' (map the_str (the_list (fld decision ''reason_codes''))) in
      if length (filter (\<lambda>r. is_obj r \<and> route_matches r identity) candidates) \<noteq> 1
      then sched_error ''advisory_route_identity_mismatch'' name
      else if action = ''human_gate'' then sched_error ''advisory_requires_parent'' reasons
      else if action = ''clean_handoff'' then sched_error ''advisory_handoff_required'' reasons
      else if action = ''unavailable'' then sched_error ''advisory_unavailable'' reasons
      else if action = ''switch'' then
        (if \<not> list_all is_obj candidates then Inl AttributeError
         else let filtered = filter (\<lambda>r. \<not> route_matches r identity) candidates in
           if filtered = [] then sched_error ''advisory_no_alternate'' name
           else Inr (Some (advisory_receipt validated action ''exclude_current_route''), filtered))
      else if action = ''continue'' then Inr (Some (advisory_receipt validated action ''normal_scheduler_selection''), candidates)
      else sched_error ''advisory_action_invalid'' action))"

end
