(* ===== verification/Task_Binding.thy ===== *)
theory Task_Binding
  imports Scheduler
begin

text \<open>
  Is the resolver's packet of a route the packet for this task? \<open>_verify_task_bound_resolver\<close> of
  \<open>scripts/schedule_headless_dispatch.py\<close> compares the packet with the task's envelope field by field,
  requires that it names this route and no other, and asks the resolver, whose answer has to be a
  dispatch of this route under a capability authority for it. The answer of \<open>resolve_worker_route\<close> is
  part of the \<open>world\<close>: an error with its code, or a receipt (an object whose \<open>considerations\<close> are objects
  with a list of texts as \<open>reasons\<close>).
\<close>

section \<open>Sorting values of unknown type\<close>

text \<open>\<open>a < b\<close>: texts and numbers among themselves, lists by their first difference\<close>

fun py_less :: "json \<Rightarrow> json \<Rightarrow> bool result" where
  "py_less v w = (case (v, w) of
     (JStr a, JStr b) \<Rightarrow> Inr (a < b)
   | (JList xs, JList []) \<Rightarrow> Inr False
   | (JList [], JList (y # ys)) \<Rightarrow> Inr True
   | (JList (x # xs), JList (y # ys)) \<Rightarrow> if py_eq x y then py_less (JList xs) (JList ys) else py_less x y
   | _ \<Rightarrow> if num_value v = None \<or> num_value w = None then Inl TypeError else Inr (\<not> num_le w v))"

declare py_less.simps [simp del]

fun py_insert :: "json \<Rightarrow> json list \<Rightarrow> json list result" where
  "py_insert x [] = Inr [x]"
| "py_insert x (y # ys) = bind (py_less x y) (\<lambda>b. if b then Inr (x # y # ys) else bind (py_insert x ys) (\<lambda>zs. Inr (y # zs)))"

definition py_sorted :: "json list \<Rightarrow> json list result" where
  "py_sorted xs = foldR (\<lambda>ys x. py_insert x ys) [] xs"

text \<open>\<open>set(v) | set(w)\<close>, in the order of the first occurrences\<close>

definition py_union :: "json list \<Rightarrow> json list \<Rightarrow> json list" where
  "py_union xs ys = foldl (\<lambda>acc x. if in_list x acc then acc else acc @ [x]) [] (xs @ ys)"

text \<open>\<open>v in w\<close>: an element, a key or a part of a text\<close>

fun contains :: "string \<Rightarrow> string \<Rightarrow> bool" where
  "contains [] p = (p = [])"
| "contains (c # s) p = (starts_with (c # s) p \<or> contains s p)"

definition py_member :: "json \<Rightarrow> json \<Rightarrow> bool result" where
  "py_member v w = (case w of
     JList xs \<Rightarrow> Inr (in_list v xs)
   | JObj kvs \<Rightarrow> if hashable v then Inr (is_str v \<and> the_str v \<in> set (keys w)) else Inl TypeError
   | JStr s \<Rightarrow> if is_str v then Inr (contains s (the_str v)) else Inl TypeError
   | _ \<Rightarrow> Inl TypeError)"

section \<open>The task's side\<close>

definition sorted_field :: "json \<Rightarrow> string \<Rightarrow> json result" where
  "sorted_field scope k = bind (py_iter (get_or scope k (JList []))) (\<lambda>xs. bind (py_sorted xs) (\<lambda>ys. Inr (JList ys)))"

definition authority_scope :: "json \<Rightarrow> json result" where
  "authority_scope scope = bind (py_set (get_or scope ''authority_read'' (JList []))) (\<lambda>reads.
     bind (py_set (get_or scope ''authority_write'' (JList []))) (\<lambda>writes.
     bind (py_sorted (py_union reads writes)) (\<lambda>xs. Inr (JList xs))))"

definition expected_role :: "json \<Rightarrow> json" where
  "expected_role envelope = (if in_strs (fld envelope ''semantic_role'') [''worker'', ''tester'', ''auditor'']
     then fld envelope ''semantic_role'' else JStr ''worker'')"

text \<open>the fields the packet has to have, \<open>exact\<close>\<close>

definition exact_fields :: "json \<Rightarrow> string \<Rightarrow> (string \<times> json) list result" where
  "exact_fields envelope now =
     (let scope = fld envelope ''scope''; independence = fld envelope ''independence'' in
      bind (authority_scope scope) (\<lambda>authority.
      bind (sorted_field scope ''requested_read'') (\<lambda>reads.
      bind (sorted_field scope ''requested_write'') (\<lambda>writes.
      bind (item_at envelope ''consequence'') (\<lambda>consequence.
      bind (item_at independence ''required'') (\<lambda>required.
      bind (item_at independence ''exclusions'') (\<lambda>exclusions.
      bind (py_iter exclusions) (\<lambda>groups.
      bind (py_sorted groups) (\<lambda>excluded.
      Inr [(''task_id'', fld envelope ''task_id''), (''role'', expected_role envelope), (''resolution_phase'', JStr ''pre_dispatch''),
        (''resolution_time'', JStr now), (''token_limit'', fld (fld envelope ''budget'') ''token_limit''),
        (''read_scope'', reads), (''write_scope'', writes), (''authority_scope'', authority),
        (''consequence_floor'', consequence), (''independence_required'', required),
        (''independence_exclusions'', JList excluded)])))))))))"

text \<open>the authority's digest with its prefix, if there is one\<close>

definition authority_digest :: "json \<Rightarrow> string option" where
  "authority_digest envelope = (let v = fld (fld envelope ''bindings'') ''authority_sha256'' in
     if \<not> is_str v then None
     else Some (if starts_with (the_str v) sha_prefix then the_str v else sha_prefix @ the_str v))"

definition selection_verdict :: "json \<Rightarrow> json \<Rightarrow> string" where
  "selection_verdict route envelope = (let selection = fld route ''explicit_selection'' in
     if \<not> is_obj selection then ''eligible''
     else case authority_digest envelope of
       None \<Rightarrow> ''explicit_selection_authority_missing''
     | Some d \<Rightarrow> if fld selection ''task_grant_sha256'' \<noteq> JStr d then ''explicit_selection_grant_mismatch'' else ''eligible'')"

definition provider_verdict :: "json \<Rightarrow> json \<Rightarrow> string result" where
  "provider_verdict packet envelope = (let provider = fld packet ''provider_input'' in
     if \<not> is_obj provider then Inr ''resolver_provider_input_missing''
     else bind (item_at envelope ''source'') (\<lambda>source.
     if \<not> is_obj source then Inl AttributeError
     else bind (py_member (fld source ''source_mode'') (get_or provider ''required_source_access'' (JList []))) (\<lambda>known.
     Inr (if \<not> known then ''resolver_source_mode_mismatch''
       else if fld provider ''commands_required'' \<noteq> JBool (truthy (fld envelope ''commands'')) then ''resolver_commands_mismatch''
       else ''eligible''))))"

section \<open>The resolver's side\<close>

definition secondary_fields :: "string list" where
  "secondary_fields = [''secondary_01'', ''secondary_02'', ''secondary_03'', ''secondary_04'', ''secondary_05'']"

text \<open>\<open>_ordered_profile_routes\<close> of \<open>resolve_worker_route.py\<close>; whatever it raises is the same to the caller (\<open>None\<close>)\<close>

definition ordered_profile_routes :: "json \<Rightarrow> string \<Rightarrow> json list option" where
  "ordered_profile_routes registry name =
     (let profile = fld (fld registry ''task_profiles'') name in
      if \<not> is_obj (fld registry ''task_profiles'') \<or> \<not> is_obj profile \<or> \<not> list_all (has_key profile) (''primary_route'' # secondary_fields)
      then None
      else Some (fld profile ''primary_route'' # filter (\<lambda>r. r \<noteq> JStr ''none'') (map (fld profile) secondary_fields)))"

definition registry_verdict :: "json \<Rightarrow> json \<Rightarrow> string result" where
  "registry_verdict route packet =
     (let registry = fld packet ''registry''; profile = fld packet ''profile''; name = fld route ''name'' in
      if \<not> is_obj registry \<or> \<not> is_str profile then Inr ''resolver_registry_missing''
      else case ordered_profile_routes registry (the_str profile) of
        None \<Rightarrow> Inr ''resolver_registry_invalid''
      | Some ordered \<Rightarrow>
          if ordered \<noteq> [name] then Inr ''resolver_not_single_route''
          else bind (py_set (get_or packet ''preflights'' (JObj []))) (\<lambda>preflights.
            Inr (if preflights = [] \<or> \<not> list_all (\<lambda>p. p = name) preflights \<or> \<not> py_eq (fld packet ''attempt_results'') (JObj [])
              then ''resolver_not_single_route'' else ''eligible'')))"

definition rejection_reasons :: "json \<Rightarrow> string" where
  "rejection_reasons receipt = (case the_list (get_or receipt ''considerations'' (JList [JObj []])) of
     [] \<Rightarrow> [] | c # _ \<Rightarrow> join '','' (map the_str (the_list (fld c ''reasons''))))"

definition capability_verdict :: "json \<Rightarrow> json \<Rightarrow> json \<Rightarrow> string" where
  "capability_verdict route envelope capability =
     (if \<not> is_obj capability \<or> fld capability ''authorized'' \<noteq> JBool True then ''resolver_capability_authority_missing''
      else if fld capability ''route_name'' \<noteq> fld route ''name'' then ''resolver_capability_route_mismatch''
      else if fld capability ''escalation_required'' \<noteq> JBool True then ''eligible''
      else case authority_digest envelope of
        None \<Rightarrow> ''capability_escalation_authority_missing''
      | Some d \<Rightarrow>
          if fld capability ''escalation_approved'' \<noteq> JBool True \<or> fld capability ''task_grant_sha256'' \<noteq> JStr d \<or>
            \<not> is_str (fld capability ''approval_digest'')
          then ''capability_escalation_authority_mismatch'' else ''eligible'')"

text \<open>the identity of the next attempt, with the route's own field for each\<close>

definition attempt_fields :: "(string \<times> string) list" where
  "attempt_fields = [(''route_name'', ''name''), (''provider'', ''provider''), (''model'', ''exact_model''), (''route'', ''route_id''),
     (''runtime'', ''runtime''), (''reasoning'', ''reasoning''), (''billing'', ''billing_basis''), (''adapter_id'', ''adapter_id''),
     (''adapter_sha256'', ''adapter_sha256'')]"

definition attempt_verdict :: "json \<Rightarrow> json \<Rightarrow> string result" where
  "attempt_verdict route attempt = (let identity = get_or attempt ''identity'' (JObj []) in
     if fld attempt ''route_name'' \<noteq> fld route ''name'' then Inr ''resolver_next_attempt_mismatch''
     else if \<not> is_obj identity then Inl AttributeError
     else Inr (if list_ex (\<lambda>(field, own). fld identity field \<noteq> fld route own) attempt_fields
       then ''resolver_next_attempt_mismatch'' else ''eligible''))"

definition receipt_verdict :: "json \<Rightarrow> json \<Rightarrow> json \<Rightarrow> string result" where
  "receipt_verdict route envelope receipt = (let attempt = fld receipt ''next_attempt'' in
     if fld receipt ''status'' \<noteq> JStr ''dispatch_required'' \<or> fld receipt ''stop_reason'' \<noteq> JStr ''dispatch_required'' \<or> \<not> is_obj attempt
     then Inr (''resolver_ineligible:'' @ rejection_reasons receipt)
     else let reason = capability_verdict route envelope (fld attempt ''capability_authority'') in
       if reason \<noteq> ''eligible'' then Inr reason else attempt_verdict route attempt)"

definition answer_verdict :: "json \<Rightarrow> json \<Rightarrow> string + json \<Rightarrow> string result" where
  "answer_verdict route envelope answer = (case answer of
     Inl c \<Rightarrow> Inr (''resolver_rejected:'' @ c) | Inr receipt \<Rightarrow> receipt_verdict route envelope receipt)"

section \<open>The verdict\<close>

text \<open>the next check, when the one before has found nothing\<close>

definition and_then :: "string result \<Rightarrow> string result \<Rightarrow> string result" where
  "and_then m n = bind m (\<lambda>reason. if reason \<noteq> ''eligible'' then Inr reason else n)"

definition packet_verdict :: "json \<Rightarrow> (string \<times> json) list \<Rightarrow> string" where
  "packet_verdict packet wanted = (case find (\<lambda>(k, v). \<not> py_eq (fld packet k) v) wanted of
     None \<Rightarrow> ''eligible'' | Some (k, v) \<Rightarrow> ''resolver_'' @ k @ ''_mismatch'')"

definition verify_task_bound_resolver :: "world \<Rightarrow> json \<Rightarrow> json \<Rightarrow> string \<Rightarrow> string result" where
  "verify_task_bound_resolver w route envelope now = (let packet = fld route ''resolver_packet'' in
     and_then (Inr (selection_verdict route envelope))
    (bind (exact_fields envelope now) (\<lambda>wanted.
     and_then (Inr (packet_verdict packet wanted))
    (and_then (provider_verdict packet envelope)
    (and_then (registry_verdict route packet)
    (bind (resolve_route w packet) (answer_verdict route envelope)))))))"

lemma and_then_eligible [result_simps]: "and_then m n = Inr ''eligible'' \<longleftrightarrow> m = Inr ''eligible'' \<and> n = Inr ''eligible''"
  by (cases m) (auto simp: and_then_def)

lemma answered [result_simps]: "answer_verdict route envelope answer = Inr ''eligible'' \<longleftrightarrow>
    (\<exists>receipt. answer = Inr receipt \<and> receipt_verdict route envelope receipt = Inr ''eligible'')"
  by (cases answer) (simp_all add: answer_verdict_def)

section \<open>What an eligible route has to offer\<close>

text \<open>the packet was made for this task at this time, with exactly its scopes\<close>

definition bound_packet :: "json \<Rightarrow> json \<Rightarrow> string \<Rightarrow> bool" where
  "bound_packet packet envelope now \<longleftrightarrow>
     py_eq (fld packet ''task_id'') (fld envelope ''task_id'') \<and> fld packet ''resolution_time'' = JStr now \<and>
     py_eq (fld packet ''token_limit'') (fld (fld envelope ''budget'') ''token_limit'') \<and>
     py_eq (fld packet ''consequence_floor'') (fld envelope ''consequence'') \<and>
     (\<exists>writes. sorted_field (fld envelope ''scope'') ''requested_write'' = Inr writes \<and> py_eq (fld packet ''write_scope'') writes) \<and>
     (\<exists>authority. authority_scope (fld envelope ''scope'') = Inr authority \<and> py_eq (fld packet ''authority_scope'') authority)"

text \<open>the receipt is a dispatch of this route, under a capability authority for it\<close>

definition dispatches :: "json \<Rightarrow> json \<Rightarrow> json \<Rightarrow> bool" where
  "dispatches receipt route envelope \<longleftrightarrow> fld receipt ''status'' = JStr ''dispatch_required'' \<and>
     (let attempt = fld receipt ''next_attempt''; capability = fld attempt ''capability_authority'' in
       fld attempt ''route_name'' = fld route ''name'' \<and>
       (\<forall>(field, own) \<in> set attempt_fields. fld (fld attempt ''identity'') field = fld route own) \<and>
       fld capability ''authorized'' = JBool True \<and> fld capability ''route_name'' = fld route ''name'' \<and>
       (fld capability ''escalation_required'' = JBool True \<longrightarrow> fld capability ''escalation_approved'' = JBool True \<and>
         (\<exists>d. authority_digest envelope = Some d \<and> fld capability ''task_grant_sha256'' = JStr d)))"

lemma packet_bound:
  assumes "exact_fields envelope now = Inr wanted" "packet_verdict packet wanted = ''eligible''"
  shows "bound_packet packet envelope now"
proof -
  obtain authority reads writes consequence required exclusions groups excluded where f:
    "authority_scope (fld envelope ''scope'') = Inr authority" "sorted_field (fld envelope ''scope'') ''requested_read'' = Inr reads"
    "sorted_field (fld envelope ''scope'') ''requested_write'' = Inr writes" "item_at envelope ''consequence'' = Inr consequence"
    "item_at (fld envelope ''independence'') ''required'' = Inr required"
    "item_at (fld envelope ''independence'') ''exclusions'' = Inr exclusions" "py_iter exclusions = Inr groups" "py_sorted groups = Inr excluded"
    "wanted = [(''task_id'', fld envelope ''task_id''), (''role'', expected_role envelope), (''resolution_phase'', JStr ''pre_dispatch''),
        (''resolution_time'', JStr now), (''token_limit'', fld (fld envelope ''budget'') ''token_limit''),
        (''read_scope'', reads), (''write_scope'', writes), (''authority_scope'', authority),
        (''consequence_floor'', consequence), (''independence_required'', required),
        (''independence_exclusions'', JList excluded)]"
    using assms(1) unfolding exact_fields_def Let_def by (elim bindE InrE) (rule that, assumption+)
  have "\<forall>(k, v) \<in> set wanted. py_eq (fld packet k) v"
    using assms(2) by (auto simp: packet_verdict_def find_None_iff split: option.splits prod.splits)
  moreover have "consequence = fld envelope ''consequence''" using f(4) by (auto simp: item_at_eq_Inr fld_def)
  ultimately show ?thesis using f(1,3) by (simp add: bound_packet_def f(9))
qed

lemma receipt_dispatches:
  assumes "receipt_verdict route envelope receipt = Inr ''eligible''"
  shows "dispatches receipt route envelope"
proof -
  let ?attempt = "fld receipt ''next_attempt''"
  have r: "fld receipt ''status'' = JStr ''dispatch_required''" "capability_verdict route envelope (fld ?attempt ''capability_authority'') = ''eligible''"
    "attempt_verdict route ?attempt = Inr ''eligible''"
    using assms by (auto simp: receipt_verdict_def Let_def split: if_splits)
  have "fld JNull k = JNull" for k by (simp add: fld_def get_def json_sel_defs)
  then have "fld ?attempt ''route_name'' = fld route ''name''" "\<forall>(field, own) \<in> set attempt_fields. fld (fld ?attempt ''identity'') field = fld route own"
    using r(3) by (auto simp: attempt_verdict_def Let_def list_ex_iff get_or_def fld_JObj_Nil fld_def[of _ "''identity''"] split: if_splits option.splits)
  then show ?thesis
    using r(1,2) by (auto simp: dispatches_def Let_def capability_verdict_def split: if_splits option.splits)
qed

lemma verdict_eligible:
  assumes "verify_task_bound_resolver w route envelope now = Inr ''eligible''"
  shows "bound_packet (fld route ''resolver_packet'') envelope now"
    "\<exists>receipt. resolve_route w (fld route ''resolver_packet'') = Inr (Inr receipt) \<and> dispatches receipt route envelope"
  using assms packet_bound receipt_dispatches
  by (auto simp: verify_task_bound_resolver_def Let_def result_simps)

end
