(* ===== verification/Admission.thy ===== *)
theory Admission
  imports Task_Binding
begin

text \<open>
  Planning and admission, second half of \<open>scripts/schedule_headless_dispatch.py\<close>: which candidate
  routes are eligible for a task, which of them is selected, and the operations that write the
  ledger: \<open>admit\<close> grants a lease, \<open>release\<close> and \<open>recover\<close> end it, \<open>execution_unknown\<close> records that its
  outcome is not known. Each runs under the scheduler's lock, so it is a function of the ledger's
  content (\<open>None\<close>: no file) and returns the new content with its answer. \<open>rows\<close> are the verified rows.
\<close>

section \<open>Resources\<close>

abbreviation lease_field :: "json \<Rightarrow> string \<Rightarrow> json" where
  "lease_field row k \<equiv> fld (fld row ''lease'') k"

abbreviation route_field :: "json \<Rightarrow> string \<Rightarrow> json" where
  "route_field row k \<equiv> fld (fld row ''route'') k"

text \<open>the rows of the active leases, in the order of their grants\<close>

definition active_rows :: "json list \<Rightarrow> json list result" where
  "active_rows rows = bind (foldR lease_step [] rows) (\<lambda>active. Inr (map snd active))"

definition is_writer :: "json \<Rightarrow> bool" where
  "is_writer row = (lease_field row ''writer'' = JBool True)"

definition writer_limit :: "int \<Rightarrow> int \<Rightarrow> int" where
  "writer_limit board config = min ceiling_write_workers (min board config)"

definition overlaps_writer :: "json list \<Rightarrow> json \<Rightarrow> bool result" where
  "overlaps_writer requested row = anyR (\<lambda>left. bind (py_iter (get_or (fld row ''lease'') ''write_scopes'' (JList [])))
     (anyR (scopes_overlap left))) requested"

definition writer_rejection :: "json \<Rightarrow> json \<Rightarrow> json list \<Rightarrow> int \<Rightarrow> int \<Rightarrow> string option result" where
  "writer_rejection envelope policy rows board config =
     (if fld envelope ''mutation_mode'' \<noteq> JStr ''scoped_write'' then Inr None
      else if fld policy ''direct_repository_writes_enabled'' = JBool False then Inr (Some ''scoped_write_disabled'')
      else let writers = filter is_writer rows in
        if writer_limit board config \<le> int (length writers) then Inr (Some ''writer_capacity'')
        else bind (anyR (overlaps_writer (the_list (fld (fld envelope ''scope'') ''requested_write''))) writers) (\<lambda>hit.
          Inr (if hit then Some ''writer_scope_overlap'' else None)))"

definition count_rows :: "string \<Rightarrow> json \<Rightarrow> json list \<Rightarrow> int" where
  "count_rows k v rows = int (length (filter (\<lambda>row. py_eq (route_field row k) v) rows))"

definition limit_for :: "json \<Rightarrow> string \<Rightarrow> string \<Rightarrow> json \<Rightarrow> int" where
  "limit_for policy limits fallback v = the_int (get_or (fld policy limits) (the_str v) (fld policy fallback))"

definition capacity_rejection :: "json \<Rightarrow> json \<Rightarrow> json list \<Rightarrow> string option" where
  "capacity_rejection route policy rows =
     (if the_int (fld policy ''global_active_limit'') \<le> int (length rows) then Some ''global_capacity''
      else if the_int (fld route ''concurrency_limit'') \<le> count_rows ''route_name'' (fld route ''name'') rows then Some ''route_capacity''
      else if limit_for policy ''provider_concurrency_limits'' ''provider_concurrency_default'' (fld route ''provider'') \<le>
        count_rows ''provider'' (fld route ''provider'') rows then Some ''provider_capacity''
      else if limit_for policy ''runtime_host_concurrency_limits'' ''runtime_host_concurrency_default'' (fld route ''runtime_host'') \<le>
        count_rows ''runtime_host'' (fld route ''runtime_host'') rows then Some ''runtime_host_capacity''
      else None)"

text \<open>\<open>independence.get(...)\<close> needs a dictionary; the groups are put in sets\<close>

definition independence_rejection :: "json \<Rightarrow> json \<Rightarrow> json list \<Rightarrow> string option result" where
  "independence_rejection route envelope rows =
     (let independence = fld envelope ''independence''; group = fld route ''independence_group'' in
      if \<not> is_obj independence then Inl AttributeError
      else if \<not> truthy (fld independence ''required'') then Inr None
      else bind (py_set (get_or independence ''exclusions'' (JList []))) (\<lambda>excluded.
      if \<not> hashable (fld independence ''group'') then Inl TypeError
      else if in_list group (excluded @ [fld independence ''group'']) then Inr (Some ''independence_ineligible'')
      else let groups = map (\<lambda>row. route_field row ''independence_group'') rows in
        if \<not> list_all hashable groups then Inl TypeError
        else Inr (if in_list group groups then Some ''independence_in_use'' else None)))"

text \<open>\<open>sum\<close> of values of unknown type, a boolean counting as 0 or 1\<close>

definition int_value :: "json \<Rightarrow> int" where
  "int_value v = (case v of JBool b \<Rightarrow> if b then 1 else 0 | _ \<Rightarrow> the_int v)"

definition py_plus :: "world \<Rightarrow> json \<Rightarrow> json \<Rightarrow> json result" where
  "py_plus w a b = (if num_value a = None \<or> num_value b = None then Inl TypeError
     else if (is_int a \<or> is_bool a) \<and> (is_int b \<or> is_bool b) then Inr (JInt (int_value a + int_value b))
     else Inr (float_sum w a b))"

definition py_total :: "world \<Rightarrow> json list \<Rightarrow> json result" where
  "py_total w vs = foldR (py_plus w) (JInt 0) vs"

definition allowance_rejection :: "world \<Rightarrow> json \<Rightarrow> json \<Rightarrow> json \<Rightarrow> json list \<Rightarrow> string option result" where
  "allowance_rejection w route envelope policy rows =
     (let allowance = fld (fld envelope ''budget'') ''allowance_class'' in
      case get (fld policy ''allowance_limits'') (the_str allowance) of
        None \<Rightarrow> Inr (Some ''allowance_unconfigured'')
      | Some limit \<Rightarrow> bind (py_total w (map (\<lambda>row. get_or (fld row ''accounting'') ''allowance_units_reserved'' (JInt 0))
            (filter (\<lambda>row. py_eq (fld (fld row ''accounting'') ''allowance_class'') allowance) rows))) (\<lambda>reserved.
          bind (py_plus w reserved (fld route ''allowance_units'')) (\<lambda>total.
          Inr (if num_le total limit then None else Some ''allowance_capacity''))))"

definition cash_rejection :: "json \<Rightarrow> json \<Rightarrow> string option result" where
  "cash_rejection route envelope =
     (if fld route ''cash_reservation_required'' \<noteq> JBool True then Inr None
      else let budget = fld envelope ''budget'' in
        bind (item_at (fld budget ''accounting'') ''cost'') (\<lambda>cost.
        if \<not> is_obj cost then Inl AttributeError
        else Inr (if get_or cost ''value'' (JStr ''unknown'') = JStr ''unknown'' \<or> fld budget ''external_cash_authorized'' \<noteq> JBool True
          then Some ''cash_reservation_ineligible'' else None)))"

definition token_rejection :: "json \<Rightarrow> json \<Rightarrow> json list \<Rightarrow> string option" where
  "token_rejection route policy rows =
     (if fld policy ''token_capacity'' = JNull then None
      else if fld route ''token_reservation'' = JStr ''unknown'' then Some ''token_reservation_unknown''
      else let reserved = map (\<lambda>row. fld (fld row ''accounting'') ''token_reservation'') rows in
        if the_int (fld policy ''token_capacity'') <
          sum_list (map int_value (filter (\<lambda>v. is_int v \<or> is_bool v) reserved)) + the_int (fld route ''token_reservation'')
        then Some ''token_capacity'' else None)"

definition or_else :: "string option result \<Rightarrow> string option result \<Rightarrow> string option result" where
  "or_else m n = bind m (\<lambda>r. case r of None \<Rightarrow> n | Some reason \<Rightarrow> Inr (Some reason))"

definition resource_rejection :: "world \<Rightarrow> json \<Rightarrow> json \<Rightarrow> json \<Rightarrow> json list \<Rightarrow> int \<Rightarrow> int \<Rightarrow> string option result" where
  "resource_rejection w route envelope policy rows board config =
     bind (sched_positive (JInt board) ''board_max_write_workers'' 1) (\<lambda>_.
     bind (sched_positive (JInt config) ''config_max_write_workers'' 1) (\<lambda>_.
     or_else (writer_rejection envelope policy rows board config)
    (or_else (Inr (capacity_rejection route policy rows))
    (or_else (independence_rejection route envelope rows)
    (or_else (allowance_rejection w route envelope policy rows)
    (or_else (cash_rejection route envelope)
      (Inr (token_rejection route policy rows))))))))"

definition grants :: "json list \<Rightarrow> json list" where
  "grants rows = filter (\<lambda>row. event_type row = ''lease_granted'') rows"

definition evidence_field :: "json \<Rightarrow> string \<Rightarrow> json" where
  "evidence_field row k = fld (fld row ''evidence'') k"

fun history_conflict :: "json \<Rightarrow> json \<Rightarrow> json list \<Rightarrow> string option" where
  "history_conflict envelope route [] = None"
| "history_conflict envelope route (row # rows) =
     (if py_eq (evidence_field row ''idempotency_key'') (fld envelope ''envelope_id'') then Some ''idempotency_key_reused''
      else if py_eq (evidence_field row ''output_path'') (fld route ''evidence_path'') then Some ''evidence_path_reused''
      else history_conflict envelope route rows)"

section \<open>Eligible routes\<close>

definition observation_callable :: "world \<Rightarrow> json \<Rightarrow> json \<Rightarrow> string" where
  "observation_callable w route now = (let observation = fld route ''preflight_observation'' in
     case bind (sched_time w (fld observation ''expires_at'') ''preflight.expires_at'') (\<lambda>e.
       bind (sched_time w now ''now'') (\<lambda>t. Inr (e \<le> t))) of
       Inl e \<Rightarrow> ''preflight_invalid''
     | Inr expired \<Rightarrow>
         if expired then ''preflight_expired''
         else if fld observation ''availability'' \<noteq> JStr ''available'' then ''route_unavailable''
         else if fld observation ''health'' \<noteq> JStr ''healthy'' then ''route_unhealthy''
         else if fld observation ''callability'' \<noteq> JStr ''callable'' then ''route_not_callable''
         else ''eligible'')"

text \<open>The broker's state is read again: a copied observation does not count.\<close>

definition broker_binding :: "(string \<Rightarrow> string) \<Rightarrow> world \<Rightarrow> json \<Rightarrow> json \<Rightarrow> string result" where
  "broker_binding sha w route now =
     (let binding = fld route ''preflight_binding'' in
      case state_path w (the_str (fld binding ''state_path'')) of
        Inl c \<Rightarrow> Inr (''broker_binding_rejected:'' @ c)
      | Inr path \<Rightarrow>
          if JStr path \<noteq> fld binding ''state_path'' then Inr ''broker_binding_mismatch:state_path''
          else case read_current_observation sha (state_file w path) (fld (fld route ''preflight_observation'') ''key'') now of
            Inl e \<Rightarrow> (case e of PreflightBrokerError c \<Rightarrow> Inr (''broker_binding_rejected:'' @ c) | _ \<Rightarrow> Inl e)
          | Inr receipt \<Rightarrow> Inr (case find (\<lambda>(field, v). \<not> py_eq (fld receipt field) v)
                [(''key_sha256'', fld route ''preflight_key_sha256''), (''observation'', fld route ''preflight_observation''),
                 (''state_sha256'', fld binding ''state_sha256''), (''entry_sha256'', fld binding ''entry_sha256'')] of
              None \<Rightarrow> ''eligible''
            | Some (field, v) \<Rightarrow> ''broker_binding_mismatch:'' @ field))"

definition route_verdict :: "(string \<Rightarrow> string) \<Rightarrow> world \<Rightarrow> json \<Rightarrow> json \<Rightarrow> json \<Rightarrow> json list \<Rightarrow> json list \<Rightarrow> json \<Rightarrow> int \<Rightarrow> int \<Rightarrow> string result" where
  "route_verdict sha w route envelope policy rows active now board config =
     bind (broker_binding sha w route now) (\<lambda>reason.
     if reason \<noteq> ''eligible'' then Inr reason
     else let reason = observation_callable w route now in
     if reason \<noteq> ''eligible'' then Inr reason
     else bind (verify_task_bound_resolver w route envelope (the_str now)) (\<lambda>reason.
     if reason \<noteq> ''eligible'' then Inr reason
     else case history_conflict envelope route (grants rows) of
       Some reason \<Rightarrow> Inr reason
     | None \<Rightarrow> bind (resource_rejection w route envelope policy active board config) (\<lambda>r.
         Inr (case r of None \<Rightarrow> ''eligible'' | Some reason \<Rightarrow> reason))))"

record survey =
  seen_names :: "string list"
  eligible :: "json list"
  rejected :: "(string \<times> string) list"

definition survey_route :: "(string \<Rightarrow> string) \<Rightarrow> world \<Rightarrow> json \<Rightarrow> json \<Rightarrow> json list \<Rightarrow> json list \<Rightarrow> json \<Rightarrow> int \<Rightarrow> int \<Rightarrow> survey \<Rightarrow> json \<Rightarrow> survey result" where
  "survey_route sha w envelope policy rows active now board config s raw =
     bind (validate_route sha w raw) (\<lambda>route.
     let name = the_str (fld route ''name'') in
     if name \<in> set (seen_names s) then sched_error ''candidate_duplicate'' name
     else bind (route_verdict sha w route envelope policy rows active now board config) (\<lambda>reason.
       Inr (if reason = ''eligible'' then s\<lparr>seen_names := name # seen_names s, eligible := eligible s @ [route]\<rparr>
         else s\<lparr>seen_names := name # seen_names s, rejected := rejected s @ [(name, reason)]\<rparr>)))"

definition eligible_routes :: "(string \<Rightarrow> string) \<Rightarrow> world \<Rightarrow> json \<Rightarrow> json list \<Rightarrow> json \<Rightarrow> json list \<Rightarrow> json \<Rightarrow> int \<Rightarrow> int \<Rightarrow> survey result" where
  "eligible_routes sha w envelope candidates policy rows now board config =
     bind (active_rows rows) (\<lambda>active.
     bind (sched_time w now ''now'') (\<lambda>_.
     foldR (survey_route sha w envelope policy rows active now board config)
       \<lparr>seen_names = [], eligible = [], rejected = []\<rparr> candidates))"

section \<open>Selection\<close>

text \<open>quality acceptances by provider and by route, and their number\<close>

record acceptances =
  by_provider :: "(json \<times> int) list"
  by_route :: "(json \<times> int) list"
  accepted_total :: int

definition count_acceptance :: "acceptances \<Rightarrow> json \<Rightarrow> acceptances result" where
  "count_acceptance a row =
     (if event_type row \<noteq> ''quality_accepted'' then Inr a
      else bind (count_key (get_or (fld row ''route'') ''provider'' (JStr ''unknown'')) (by_provider a)) (\<lambda>providers.
        bind (count_key (get_or (fld row ''route'') ''route_name'' (JStr ''unknown'')) (by_route a)) (\<lambda>names.
        Inr \<lparr>by_provider = providers, by_route = names, accepted_total = accepted_total a + 1\<rparr>)))"

definition count_of :: "(json \<times> int) list \<Rightarrow> json \<Rightarrow> int" where
  "count_of counts v = (case map_of counts (norm v) of None \<Rightarrow> 0 | Some n \<Rightarrow> n)"

text \<open>\<open>min\<close> with the key (acceptances of the provider, of the route, position): the first least one; a slice may end before its start\<close>

definition route_rank :: "acceptances \<Rightarrow> json \<Rightarrow> int \<times> int" where
  "route_rank a route = (count_of (by_provider a) (fld route ''provider''), count_of (by_route a) (fld route ''name''))"

definition rank_less :: "int \<times> int \<Rightarrow> int \<times> int \<Rightarrow> bool" where
  "rank_less p q = (fst p < fst q \<or> fst p = fst q \<and> snd p < snd q)"

fun least_route :: "acceptances \<Rightarrow> json \<Rightarrow> json list \<Rightarrow> json" where
  "least_route a best [] = best"
| "least_route a best (r # rs) = least_route a (if rank_less (route_rank a r) (route_rank a best) then r else best) rs"

definition displacement_of :: "json \<Rightarrow> string \<Rightarrow> json" where
  "displacement_of policy role = (if role \<in> set diverse_roles then fld (fld policy ''role_rank_displacement'') role else JInt 0)"

definition select_route :: "json \<Rightarrow> json list \<Rightarrow> json list \<Rightarrow> json \<Rightarrow> json result" where
  "select_route envelope routes rows policy =
     (if routes = [] then sched_error ''no_eligible_route'' []
      else bind (foldR count_acceptance \<lparr>by_provider = [], by_route = [], accepted_total = 0\<rparr> rows) (\<lambda>a.
      let displacement = displacement_of policy (the_str (fld envelope ''semantic_role'')) in
      if accepted_total a < the_int (fld policy ''diversity_min_quality_observations'') \<or> py_eq displacement (JInt 0) \<or> length routes = 1
      then Inr (hd routes)
      else if \<not> is_int displacement \<and> \<not> is_bool displacement then Inl TypeError
      else let stop = int_value displacement + 1; window = take (nat (if stop < 0 then int (length routes) + stop else stop)) routes in
        if window = [] then Inl ValueError else Inr (least_route a (hd window) (tl window))))"

section \<open>Plan\<close>

record arguments =
  arg_envelope :: json
  arg_bindings :: json
  arg_candidates :: json
  arg_sources :: json
  arg_policy :: json
  arg_now :: string
  arg_board :: int
  arg_config :: int
  arg_advisory :: json

definition rejected_json :: "(string \<times> string) list \<Rightarrow> json" where
  "rejected_json rs = JList (map (\<lambda>(name, reason). JObj [(''name'', JStr name), (''reason'', JStr reason)]) rs)"

definition check_candidates :: "json \<Rightarrow> unit result" where
  "check_candidates candidates =
     (if \<not> is_list candidates \<or> the_list candidates = [] then sched_error ''candidates_invalid'' ''ordered nonempty array required''
      else let explicit = length (filter (\<lambda>c. is_obj c \<and> fld c ''explicit_selection'' \<noteq> JNull) (the_list candidates)) in
        guard (explicit = 0 \<or> explicit = 1 \<and> length (the_list candidates) = 1)
          (ScheduleError ''explicit_selection_candidate_set_mismatch'' []))"

definition plan_record :: "(string \<Rightarrow> string) \<Rightarrow> arguments \<Rightarrow> json \<Rightarrow> json \<Rightarrow> verified \<Rightarrow> survey \<Rightarrow> json \<Rightarrow> json option \<Rightarrow> json" where
  "plan_record sha q envelope sources v s chosen receipt =
     (let base = JObj [(''schema_version'', JInt 1), (''artifact_type'', JStr ''DispatchSchedulePlan''),
           (''created_at'', JStr (arg_now q)), (''envelope_sha256'', JStr (digest_of sha envelope)),
           (''identity'', JObj (map (\<lambda>f. (f, fld envelope f)) [''goal_id'', ''checkpoint_id'', ''task_id'', ''assignment_id''])),
           (''bindings'', arg_bindings q), (''ledger_head_before'', JStr (ledger_head v)), (''binding_sources'', sources),
           (''ledger_sequence_before'', JInt (int (event_count v))),
           (''eligible_routes'', JList (map (\<lambda>r. fld r ''name'') (eligible s))), (''rejected_routes'', rejected_json (rejected s)),
           (''selected_route'', chosen), (''provider_call_started'', JBool False)];
         result = (case receipt of None \<Rightarrow> base | Some r \<Rightarrow> upd ''route_fabric_advisory'' r base) in
     upd ''plan_sha256'' (JStr (digest_of sha result)) result)"

definition plan :: "(string \<Rightarrow> string) \<Rightarrow> (string \<Rightarrow> json) \<Rightarrow> (string \<Rightarrow> string) \<Rightarrow> world \<Rightarrow> string option \<Rightarrow> arguments \<Rightarrow> json result" where
  "plan sha flt msg w content q =
     bind (check_candidates (arg_candidates q)) (\<lambda>_.
     bind (validate_envelope w (arg_envelope q) (arg_bindings q) (JStr (arg_now q))) (\<lambda>envelope.
     bind (binding_files w (arg_sources q) (fld envelope ''bindings'')) (\<lambda>sources.
     bind (validate_policy (arg_policy q)) (\<lambda>policy.
     if the_int (fld policy ''maximum_queue_age_seconds'') < the_int (fld (fld envelope ''queue'') ''max_queue_age_seconds'')
     then sched_error ''queue_policy_exceeded'' []
     else if fld (fld envelope ''quality_policy'') ''policy_id'' \<noteq> fld policy ''artifact_quality_policy''
     then sched_error ''quality_policy_mismatch'' []
     else bind (verify_ledger sha flt msg None content) (\<lambda>v.
     bind (consume_advisory sha (arg_advisory q) envelope (the_list (arg_candidates q)) (ledger_head v)) (\<lambda>(receipt, candidates).
     bind (eligible_routes sha w envelope candidates policy (ledger_rows v) (JStr (arg_now q)) (arg_board q) (arg_config q)) (\<lambda>s.
     bind (if eligible s = [] then Inr JNull else select_route envelope (eligible s) (ledger_rows v) policy) (\<lambda>chosen.
     Inr (plan_record sha q envelope sources v s chosen receipt)))))))))"

section \<open>Admission\<close>

definition ledger_time :: "string \<Rightarrow> bool" where
  "ledger_time s = (case scan ''9999-99-99T99:99:99Z'' s of None \<Rightarrow> False | Some (ds, r) \<Rightarrow> r = [])"

definition sched_event :: "(string \<Rightarrow> string) \<Rightarrow> json \<Rightarrow> json \<Rightarrow> string \<Rightarrow> string \<Rightarrow> json \<Rightarrow> json \<Rightarrow> json \<Rightarrow> json \<Rightarrow> json result" where
  "sched_event sha envelope bindings kind now route lease accounting evidence =
     (if \<not> ledger_time now then sched_error ''invalid_ledger_timestamp'' now
      else let seed = JList [JStr kind, fld envelope ''envelope_id'', fld route ''name'', fld lease ''lease_id'', fld lease ''fencing_token'', JStr now] in
        bind (raw_sha (fld bindings ''config_sha256'') ''config_sha256'') (\<lambda>config.
        bind (raw_sha (fld bindings ''board_sha256'') ''board_sha256'') (\<lambda>board.
        Inr (JObj [(''schema_version'', JInt 1), (''event_id'', JStr (sha (dumps seed))), (''event_type'', JStr kind), (''timestamp'', JStr now),
          (''goal_id'', fld envelope ''goal_id''), (''checkpoint_id'', fld envelope ''checkpoint_id''),
          (''task_id'', fld envelope ''task_id''), (''assignment_id'', fld envelope ''assignment_id''),
          (''envelope_sha256'', JStr (digest_of sha envelope)), (''config_sha256'', JStr (sha_prefix @ config)),
          (''board_sha256'', JStr (sha_prefix @ board)), (''route'', route), (''lease'', lease), (''accounting'', accounting),
          (''evidence'', evidence)]))))"

text \<open>\<open>max([token, *previous])\<close>\<close>

definition max_step :: "json \<Rightarrow> json \<Rightarrow> json result" where
  "max_step m v = (if num_value v = None then Inl TypeError else Inr (if num_le v m then m else v))"

definition fence_for :: "int \<Rightarrow> json \<Rightarrow> json list \<Rightarrow> json result" where
  "fence_for token task rows = foldR max_step (JInt token)
     (map (\<lambda>row. get_or (fld row ''lease'') ''fencing_token'' (JInt 0)) (filter (\<lambda>row. py_eq (fld row ''task_id'') task) rows))"

definition sorted_scopes :: "json \<Rightarrow> json result" where
  "sorted_scopes v = bind (mapR normalize_scope (the_list v)) (\<lambda>ps. Inr (JList (map JStr (sort ps))))"

definition new_lease :: "json \<Rightarrow> string \<Rightarrow> int \<Rightarrow> string \<Rightarrow> string \<Rightarrow> string \<Rightarrow> json result" where
  "new_lease envelope lease_id token claim_token now expires_at =
     (let requested = fld (fld envelope ''scope'') ''requested_write''; mode = fld envelope ''mutation_mode'' in
      bind (if mode = JStr ''scoped_write'' then sorted_scopes requested else Inr (JList [])) (\<lambda>writes.
      bind (if mode = JStr ''artifact_only'' then sorted_scopes requested else Inr (JList [])) (\<lambda>artifacts.
      Inr (JObj [(''lease_id'', JStr lease_id), (''fencing_token'', JInt token), (''workgraph_claim_token'', JStr claim_token),
        (''workgraph_fencing_token'', JInt token), (''granted_at'', JStr now), (''expires_at'', JStr expires_at),
        (''writer'', JBool (mode = JStr ''scoped_write'')), (''artifact_only'', JBool (mode = JStr ''artifact_only'')),
        (''write_scopes'', writes), (''artifact_scopes'', artifacts)]))))"

definition route_event :: "json \<Rightarrow> json" where
  "route_event route = JObj [(''route_name'', fld route ''name''), (''provider'', fld route ''provider''),
     (''exact_model'', fld route ''exact_model''), (''route_id'', fld route ''route_id''), (''runtime'', fld route ''runtime''),
     (''runtime_host'', fld route ''runtime_host''), (''reasoning'', fld route ''reasoning''),
     (''independence_group'', fld route ''independence_group''), (''preflight_key_sha256'', fld route ''preflight_key_sha256''),
     (''preflight_receipt_digest'', fld (fld route ''preflight_observation'') ''receipt_digest'')]"

definition reservation :: "json \<Rightarrow> json \<Rightarrow> json" where
  "reservation envelope route = JObj [(''allowance_class'', fld (fld envelope ''budget'') ''allowance_class''),
     (''allowance_units_reserved'', fld route ''allowance_units''), (''token_reservation'', fld route ''token_reservation''),
     (''observed_tokens'', JStr ''unknown''), (''observed_cost'', JStr ''unknown'')]"

definition grant_evidence :: "json \<Rightarrow> json \<Rightarrow> json \<Rightarrow> json \<Rightarrow> json" where
  "grant_evidence envelope bindings route scheduled = JObj [(''output_path'', fld route ''evidence_path''),
     (''idempotency_key'', fld envelope ''envelope_id''), (''authority_sha256'', fld bindings ''authority_sha256''),
     (''workgraph_sha256'', fld bindings ''workgraph_sha256''), (''supervisor_sha256'', fld bindings ''supervisor_sha256''),
     (''plan_sha256'', fld scheduled ''plan_sha256'')]"

text \<open>
  \<open>admit\<close> up to the append: the plan, the lease and the event. The ledger is verified again for each
  look at its rows; under the lock it is the same file.
\<close>

definition grant :: "(string \<Rightarrow> string) \<Rightarrow> (string \<Rightarrow> json) \<Rightarrow> (string \<Rightarrow> string) \<Rightarrow> world \<Rightarrow> string option \<Rightarrow> arguments \<Rightarrow>
    string \<Rightarrow> string \<Rightarrow> int \<Rightarrow> (json \<times> json \<times> json) result" where
  "grant sha flt msg w content q lease_id claim_token token =
     (if lease_id = [] \<or> claim_token = [] then sched_error ''authority_invalid'' []
      else bind (sched_positive (JInt token) ''workgraph_fencing_token'' 1) (\<lambda>_.
      bind (plan sha flt msg w content q) (\<lambda>scheduled.
      let route = fld scheduled ''selected_route''; envelope = arg_envelope q; bindings = arg_bindings q; now = arg_now q in
      if route = JNull then sched_error ''no_eligible_route'' (spaced_text w (fld scheduled ''rejected_routes''))
      else bind (binding_files w (arg_sources q) (fld envelope ''bindings'')) (\<lambda>sources.
      if \<not> py_eq sources (fld scheduled ''binding_sources'') then sched_error ''binding_source_changed'' ''between plan and admission''
      else bind (broker_binding sha w route (JStr now)) (\<lambda>reason.
      if reason \<noteq> ''eligible'' then sched_error ''broker_binding_changed'' reason
      else bind (verify_ledger sha flt msg None content) (\<lambda>v.
      if list_ex (\<lambda>row. lease_id_of row = JStr lease_id) (ledger_rows v) then sched_error ''lease_id_reused'' lease_id
      else bind (sched_time w (JStr now) ''now'') (\<lambda>instant.
      bind (time_text_result (add_seconds instant (the_int (fld (arg_policy q) ''lease_ttl_seconds'')))) (\<lambda>expires_at.
      bind (fence_for token (fld envelope ''task_id'') (ledger_rows v)) (\<lambda>fence.
      if \<not> py_eq fence (JInt token) then sched_error ''workgraph_fencing_stale'' (dec_int token)
      else bind (new_lease envelope lease_id token claim_token now expires_at) (\<lambda>lease.
      bind (sched_event sha envelope bindings ''lease_granted'' now (route_event route) lease (reservation envelope route)
        (grant_evidence envelope bindings route scheduled)) (\<lambda>event.
      Inr (scheduled, lease, event))))))))))))"

definition admit :: "(string \<Rightarrow> string) \<Rightarrow> (string \<Rightarrow> json) \<Rightarrow> (string \<Rightarrow> string) \<Rightarrow> world \<Rightarrow> string option \<Rightarrow> arguments \<Rightarrow>
    string \<Rightarrow> string \<Rightarrow> int \<Rightarrow> (string option \<times> json) result" where
  "admit sha flt msg w content q lease_id claim_token token =
     bind (grant sha flt msg w content q lease_id claim_token token) (\<lambda>(scheduled, lease, event).
     bind (append_ledger sha flt msg None None content event) (\<lambda>(content', record).
     Inr (content', upd ''ledger_head_after'' (fld record ''event_hash'') (upd ''ledger_sequence_after'' (fld record ''sequence'')
       (upd ''observed_usage'' (JObj [(''tokens'', JStr ''unknown''), (''cost'', JStr ''unknown'')])
       (upd ''reserved_usage'' (reservation (arg_envelope q) (fld scheduled ''selected_route''))
       (upd ''lease'' lease (upd ''status'' (JStr ''admitted'') scheduled))))))))"

section \<open>Ending a lease\<close>

definition find_active :: "json list \<Rightarrow> string \<Rightarrow> json result" where
  "find_active rows lease_id = bind (foldR lease_step [] rows) (\<lambda>active.
     case map_of active (norm (JStr lease_id)) of None \<Rightarrow> sched_error ''lease_not_active'' lease_id | Some row \<Rightarrow> Inr row)"

text \<open>the event of an active lease, held with the right token, as the base of the next event\<close>

definition held_event :: "json list \<Rightarrow> string \<Rightarrow> int \<Rightarrow> string \<Rightarrow> json result" where
  "held_event rows lease_id token stale = bind (find_active rows lease_id) (\<lambda>row.
     if \<not> py_eq (lease_field row ''fencing_token'') (JInt token) then sched_error stale lease_id else Inr (event_part row))"

definition next_event :: "(string \<Rightarrow> string) \<Rightarrow> json list \<Rightarrow> string \<Rightarrow> string \<Rightarrow> json \<Rightarrow> json" where
  "next_event sha seed kind now event = upd ''timestamp'' (JStr now) (upd ''event_type'' (JStr kind)
     (upd ''event_id'' (JStr (sha (dumps (JList seed)))) event))"

definition set_lease :: "string \<Rightarrow> json \<Rightarrow> json \<Rightarrow> json" where
  "set_lease k v event = upd ''lease'' (upd k v (fld event ''lease'')) event"

definition release_event :: "(string \<Rightarrow> string) \<Rightarrow> json list \<Rightarrow> string \<Rightarrow> int \<Rightarrow> string \<Rightarrow> json result" where
  "release_event sha rows lease_id token now = bind (held_event rows lease_id token ''stale_release'') (\<lambda>event.
     Inr (set_lease ''released_at'' (JStr now)
       (next_event sha [JStr ''release'', JStr lease_id, JInt token, JStr now] ''lease_released'' now event)))"

definition release_lease :: "(string \<Rightarrow> string) \<Rightarrow> (string \<Rightarrow> json) \<Rightarrow> (string \<Rightarrow> string) \<Rightarrow> string option \<Rightarrow> string \<Rightarrow> int \<Rightarrow> string \<Rightarrow> (string option \<times> json) result" where
  "release_lease sha flt msg content lease_id token now =
     bind (verify_ledger sha flt msg None content) (\<lambda>v.
     bind (release_event sha (ledger_rows v) lease_id token now) (\<lambda>event.
     bind (append_ledger sha flt msg None None content event) (\<lambda>(content', record).
     Inr (content', JObj [(''schema_version'', JInt 1), (''status'', JStr ''released''), (''lease_id'', JStr lease_id),
       (''fencing_token'', JInt token), (''ledger_head_after'', fld record ''event_hash'')]))))"

definition recover_event :: "(string \<Rightarrow> string) \<Rightarrow> world \<Rightarrow> json list \<Rightarrow> string \<Rightarrow> int \<Rightarrow> string \<Rightarrow> json result" where
  "recover_event sha w rows lease_id token now = bind (held_event rows lease_id token ''stale_recovery'') (\<lambda>event.
     bind (item_at (fld event ''lease'') ''expires_at'') (\<lambda>e.
     bind (sched_time w e ''lease.expires_at'') (\<lambda>expires.
     bind (sched_time w (JStr now) ''now'') (\<lambda>t.
     if t < expires then sched_error ''lease_not_expired'' lease_id
     else Inr (set_lease ''fencing_token'' (JInt (token + 1)) (set_lease ''prior_fencing_token'' (JInt token)
       (set_lease ''recovered_at'' (JStr now)
         (next_event sha [JStr ''recover'', JStr lease_id, JInt (token + 1), JStr now] ''lease_recovered'' now event))))))))"

definition recover_lease :: "(string \<Rightarrow> string) \<Rightarrow> (string \<Rightarrow> json) \<Rightarrow> (string \<Rightarrow> string) \<Rightarrow> world \<Rightarrow> string option \<Rightarrow> string \<Rightarrow> int \<Rightarrow> string \<Rightarrow> (string option \<times> json) result" where
  "recover_lease sha flt msg w content lease_id token now =
     bind (verify_ledger sha flt msg None content) (\<lambda>v.
     bind (recover_event sha w (ledger_rows v) lease_id token now) (\<lambda>event.
     bind (append_ledger sha flt msg None None content event) (\<lambda>(content', record).
     Inr (content', JObj [(''schema_version'', JInt 1), (''status'', JStr ''recovered''), (''lease_id'', JStr lease_id),
       (''prior_fencing_token'', JInt token), (''next_fencing_token'', JInt (token + 1)),
       (''ledger_head_after'', fld record ''event_hash'')]))))"

definition unknown_event :: "(string \<Rightarrow> string) \<Rightarrow> json list \<Rightarrow> string \<Rightarrow> int \<Rightarrow> string \<Rightarrow> string \<Rightarrow> json result" where
  "unknown_event sha rows lease_id token now reason = bind (held_event rows lease_id token ''stale_execution_unknown'') (\<lambda>event.
     Inr (upd ''evidence'' (upd ''automatic_retry_allowed'' (JBool False) (upd ''possibly_started'' (JBool True)
         (upd ''execution_unknown_reason'' (JStr reason) (fld event ''evidence''))))
       (next_event sha [JStr ''execution_unknown'', JStr lease_id, JInt token, JStr now, JStr reason] ''execution_unknown'' now event)))"

definition execution_unknown :: "(string \<Rightarrow> string) \<Rightarrow> (string \<Rightarrow> json) \<Rightarrow> (string \<Rightarrow> string) \<Rightarrow> string option \<Rightarrow> string \<Rightarrow> int \<Rightarrow> string \<Rightarrow> string \<Rightarrow> (string option \<times> json) result" where
  "execution_unknown sha flt msg content lease_id token now reason =
     (if blank reason then sched_error ''execution_unknown_reason_invalid'' []
      else bind (verify_ledger sha flt msg None content) (\<lambda>v.
      bind (unknown_event sha (ledger_rows v) lease_id token now reason) (\<lambda>event.
      bind (append_ledger sha flt msg None None content event) (\<lambda>(content', record).
      Inr (content', JObj [(''schema_version'', JInt 1), (''status'', JStr ''execution_unknown''), (''lease_id'', JStr lease_id),
        (''fencing_token'', JInt token), (''automatic_retry_allowed'', JBool False),
        (''ledger_sequence_after'', fld record ''sequence''), (''ledger_head_after'', fld record ''event_hash'')])))))"

end
