(* ===== verification/Ledger_Log.thy ===== *)
theory Ledger_Log
  imports Ledger Canonical
begin

text \<open>
  The dispatch ledger read back: which lists of values \<open>verify_lines\<close> accepts, that they form a
  log in the sense of \<open>hash_log\<close>, and that the records written by an append extend them,
  provided no text in them holds a character that \<open>str.splitlines\<close> takes for a line end.
\<close>

section \<open>Records\<close>

lemma fld_event_part: "fld (event_part v) k = (if k \<in> set event_fields then fld v k else JNull)"
  by (simp add: event_part_def fld_fields)

lemma keys_event_part: "keys_are (event_part v) event_fields"
  by (simp add: event_part_def keys_are_iff keys_def comp_def)

lemma event_fields_chain: "''sequence'' \<notin> set event_fields" "''previous_event_hash'' \<notin> set event_fields" "''event_hash'' \<notin> set event_fields"
  "''event_id'' \<in> set event_fields"
  by (simp_all add: event_fields_def)

text \<open>what \<open>validate_event\<close> checks, field by field\<close>

definition event_valid :: "(string \<Rightarrow> json) \<Rightarrow> bool" where
  "event_valid g \<longleftrightarrow> py_eq (g ''schema_version'') (JInt 1) \<and>
     (\<forall>field \<in> {''event_id'', ''goal_id'', ''checkpoint_id'', ''task_id'', ''assignment_id''}. \<exists>s. ledger_string (g field) field = Inr s) \<and>
     in_strs (g ''event_type'') event_types \<and>
     (\<exists>s t. g ''timestamp'' = JStr s \<and> parse_seconds s = Some t) \<and>
     (\<forall>field \<in> {''envelope_sha256'', ''config_sha256'', ''board_sha256''}. ledger_digest (g field) field = Inr ()) \<and>
     (\<forall>field \<in> {''route'', ''lease'', ''accounting'', ''evidence''}. is_obj (g field)) \<and>
     get_or (g ''accounting'') ''observed_tokens'' (JStr ''unknown'') \<noteq> JNull"

lemma ledger_mapping_eq_Inr [result_simps]: "ledger_mapping v field = Inr w \<longleftrightarrow> is_obj v \<and> w = v"
  by (auto simp: ledger_mapping_def ledger_error_def)

lemma keys_are_diffs: "is_obj v \<Longrightarrow> keys_are v K \<longleftrightarrow> sorted_diff (keys v) K = [] \<and> sorted_diff K (keys v) = []"
  by (auto simp: keys_are_iff sorted_diff_Nil_iff)

lemma keys_are_obj: "keys_are v K \<Longrightarrow> is_obj v"
  by (simp add: keys_are_iff)

lemma validate_event_eq_Inr: "validate_event v = Inr e \<longleftrightarrow> keys_are v event_fields \<and> event_valid (fld v) \<and> e = v"
proof -
  have unit: "(\<exists>u. m = Inr (u::unit)) \<longleftrightarrow> m = Inr ()" for m :: "unit result" by auto
  show ?thesis
  proof (cases "is_obj v")
    case True
    then show ?thesis
      by (auto simp: validate_event_def ledger_error_def Let_def result_simps keys_are_diffs event_valid_def in_strs_def
          elim!: is_strE split: json.splits)
  qed (auto simp: validate_event_def result_simps dest: keys_are_obj)
qed

definition record_ok :: "(string \<Rightarrow> string) \<Rightarrow> int \<Rightarrow> string \<Rightarrow> json \<Rightarrow> bool" where
  "record_ok sha n previous v \<longleftrightarrow> keys_are v record_fields \<and> event_valid (fld (event_part v)) \<and>
     py_eq (fld v ''sequence'') (JInt n) \<and> fld v ''previous_event_hash'' = JStr previous \<and>
     fld v ''event_hash'' = JStr (seal sha ''event_hash'' v)"

text \<open>the row kept for a value: its event with the number and the hashes\<close>

definition stored :: "int \<Rightarrow> json \<Rightarrow> json" where
  "stored n v = upd ''event_hash'' (fld v ''event_hash'') (chained (event_part v) n (the_str (fld v ''previous_event_hash'')))"

lemma verify_record_eq_Inr: "verify_record sha n previous v = Inr r \<longleftrightarrow> record_ok sha n previous v \<and> r = stored n v"
proof (cases "is_obj v")
  case True
  then show ?thesis
    by (auto simp: verify_record_def ledger_error_def Let_def result_simps keys_are_diffs record_ok_def stored_def
        validate_event_eq_Inr keys_event_part)
qed (auto simp: verify_record_def record_ok_def result_simps dest: keys_are_obj)

lemma fld_stored: "fld (stored n v) k = (if k = ''event_hash'' then fld v k else if k = ''previous_event_hash'' then JStr (the_str (fld v k))
    else if k = ''sequence'' then JInt n else if k \<in> set event_fields then fld v k else JNull)"
  by (simp add: stored_def chained_def fld_upd fld_event_part)

lemma stored_id [simp]: "row_event_id (stored n v) = row_event_id v"
  by (simp add: row_event_id_def fld_stored event_fields_def)

section \<open>Accepted lists of values\<close>

definition ledger_ok :: "(string \<Rightarrow> string) \<Rightarrow> json list \<Rightarrow> bool" where
  "ledger_ok sha vs \<longleftrightarrow> (\<forall>i < length vs. record_ok sha (int i + 1) (head_hash ''event_hash'' (take i vs)) (vs ! i) \<and>
     row_event_id (vs ! i) \<notin> row_event_id ` set (take i vs))"

definition verified_of :: "json list \<Rightarrow> verified" where
  "verified_of vs = foldl (\<lambda>v x. add_record (stored (int (event_count v) + 1) x) v) no_events vs"

lemma ledger_ok_Nil [simp]: "ledger_ok sha []"
  by (simp add: ledger_ok_def)

lemma ledger_ok_snoc: "ledger_ok sha (vs @ [x]) \<longleftrightarrow> ledger_ok sha vs \<and>
    record_ok sha (int (length vs) + 1) (head_hash ''event_hash'' vs) x \<and> row_event_id x \<notin> row_event_id ` set vs"
  by (auto simp: ledger_ok_def nth_append less_Suc_eq)

lemma verified_of_Nil: "verified_of [] = no_events"
  by (simp add: verified_of_def)

lemma verified_of_snoc: "verified_of (vs @ [x]) = add_record (stored (int (event_count (verified_of vs)) + 1) x) (verified_of vs)"
  by (simp add: verified_of_def)

lemma verified_of_fields:
  "event_count (verified_of vs) = length vs" "ledger_head (verified_of vs) = head_hash ''event_hash'' vs"
  "set (event_ids (verified_of vs)) = row_event_id ` set vs"
  by (induction vs rule: rev_induct)
    (simp_all add: verified_of_Nil no_events_def verified_of_snoc add_record_def head_hash_def fld_stored)

lemma verified_of_rows: "map row_event_id (ledger_rows (verified_of vs)) = map row_event_id vs"
  by (induction vs rule: rev_induct) (simp_all add: verified_of_Nil no_events_def verified_of_snoc add_record_def)

lemma verify_value_iff: "verify_value sha (verified_of vs) x = Inr v \<longleftrightarrow>
    record_ok sha (int (length vs) + 1) (head_hash ''event_hash'' vs) x \<and> row_event_id x \<notin> row_event_id ` set vs \<and> v = verified_of (vs @ [x])"
  by (auto simp: verify_value_def ledger_error_def bind_eq_Inr verify_record_eq_Inr verified_of_fields verified_of_snoc if_raise_eq_Inr)

lemma verify_values_iff: "foldR (verify_value sha) no_events vs = Inr v \<longleftrightarrow> ledger_ok sha vs \<and> v = verified_of vs"
proof (induction vs arbitrary: v rule: rev_induct)
  case Nil
  then show ?case by (auto simp: verified_of_Nil)
next
  case (snoc x vs)
  then show ?case by (auto simp: foldR_snoc_Inr ledger_ok_snoc verify_value_iff)
qed

interpretation ledger: hash_log sha "''event_hash''" "''previous_event_hash''" "ledger_ok sha" for sha
  by unfold_locales (simp_all add: ledger_ok_snoc record_ok_def)

lemma ledger_distinct: "ledger_ok sha vs \<Longrightarrow> distinct (map row_event_id vs)"
  by (induction vs rule: rev_induct) (auto simp: ledger_ok_snoc)

section \<open>Lines\<close>

definition line_value :: "(string \<Rightarrow> json) \<Rightarrow> string \<Rightarrow> json \<Rightarrow> bool" where
  "line_value flt line v \<longleftrightarrow> \<not> blank line \<and> loads flt dict_of line = Inr v"

lemma verify_line_iff: "verify_line sha flt msg v line = Inr v' \<longleftrightarrow> (\<exists>x. line_value flt line x \<and> verify_value sha v x = Inr v')"
  by (auto simp: verify_line_def line_value_def ledger_error_def Let_def split: sum.splits if_splits)

lemma verify_line_fold: "foldR (verify_line sha flt msg) v lines = Inr v' \<longleftrightarrow>
    (\<exists>vs. list_all2 (line_value flt) lines vs \<and> foldR (verify_value sha) v vs = Inr v')"
proof (induction lines arbitrary: v)
  case (Cons line lines)
  have "foldR (verify_line sha flt msg) v (line # lines) = Inr v' \<longleftrightarrow>
      (\<exists>u. (\<exists>x. line_value flt line x \<and> verify_value sha v x = Inr u) \<and> foldR (verify_line sha flt msg) u lines = Inr v')"
    by (simp add: bind_eq_Inr verify_line_iff)
  also have "\<dots> \<longleftrightarrow> (\<exists>x vs. line_value flt line x \<and> list_all2 (line_value flt) lines vs \<and> foldR (verify_value sha) v (x # vs) = Inr v')"
    by (auto simp: Cons.IH bind_eq_Inr)
  also have "\<dots> \<longleftrightarrow> (\<exists>vs. list_all2 (line_value flt) (line # lines) vs \<and> foldR (verify_value sha) v vs = Inr v')"
    unfolding list_all2_Cons1 by blast
  finally show ?case .
qed simp

definition content_text :: "string option \<Rightarrow> string" where
  "content_text content = (case content of None \<Rightarrow> [] | Some raw \<Rightarrow> raw)"

definition content_values :: "(string \<Rightarrow> json) \<Rightarrow> string option \<Rightarrow> json list \<Rightarrow> bool" where
  "content_values flt content vs \<longleftrightarrow> (content_text content = [] \<or> last (content_text content) = byte 10) \<and>
     utf8_ok (content_text content) \<and> list_all2 (line_value flt) (splitlines text_end (content_text content)) vs"

lemma verify_ledger_iff: "verify_ledger sha flt msg None content = Inr v \<longleftrightarrow>
    (\<exists>vs. content_values flt content vs \<and> ledger_ok sha vs \<and> v = verified_of vs)"
proof -
  have lines: "verify_lines sha flt msg None lines = Inr v \<longleftrightarrow>
      (\<exists>vs. list_all2 (line_value flt) lines vs \<and> ledger_ok sha vs \<and> v = verified_of vs)" for lines
    by (auto simp: verify_lines_def bind_eq_Inr verify_line_fold verify_values_iff)
  show ?thesis
    by (cases content) (auto simp: verify_ledger_def content_values_def content_text_def lines ledger_error_def
        ends_with_newline splitlines.simps[of _ "[]"])
qed

lemma object_line:
  assumes "plain_object flt r"
  shows "line_value flt (dumps r) (canon r)"
proof -
  have "\<not> blank (dumps r)" using assms by (cases r) (simp_all add: plain_object_def code_def)
  then show ?thesis
    using loads_dumps[OF keeps_pairs_dict_of] assms by (simp add: line_value_def plain_object_def)
qed

lemma content_extended:
  assumes "content_values flt content vs" "\<forall>r \<in> set rs. plain_object flt r \<and> utf8_value r \<and> one_line text_end (dumps r)"
  shows "content_values flt (write_records content rs) (vs @ map canon rs)"
proof (cases "rs = []")
  case False
  let ?raw = "content_text content"
  have text_eq: "content_text (write_records content rs) = ?raw @ concat (map (\<lambda>w. w @ newline) (map dumps rs))"
    using False by (simp add: write_records_def content_text_def comp_def)
  have nl: "utf8_ok newline" by code_simp
  have "utf8_ok (concat (map (\<lambda>w. w @ newline) (map dumps rs)))"
    using assms(2) by (intro utf8_ok_concat) (auto intro!: utf8_ok_append utf8_ok_dumps nl)
  then have "utf8_ok (content_text (write_records content rs))"
    using assms(1) unfolding text_eq content_values_def by (intro utf8_ok_append) auto
  moreover have "splitlines text_end (content_text (write_records content rs)) = splitlines text_end ?raw @ map dumps rs"
    using assms unfolding text_eq content_values_def by (intro unicode.splitlines_appended) auto
  moreover have "list_all2 (line_value flt) (map dumps rs) (map canon rs)"
    using assms(2) by (simp add: list.rel_map object_line list.rel_refl_strong)
  moreover have "last (content_text (write_records content rs)) = byte 10"
    using False unfolding text_eq by (cases rs rule: rev_cases) (simp_all add: newline_def)
  ultimately show ?thesis using assms(1) by (simp add: content_values_def list_all2_appendI)
qed (use assms in \<open>simp add: write_records_def\<close>)

end
