(* ===== verification/Ledger_Append.thy ===== *)
theory Ledger_Append
  imports Ledger_Log
begin

text \<open>
  What appending to the ledger does to it: a record that is written is read back, a batch that
  is written a second time writes nothing, a text with a Unicode line separator makes the
  ledger unreadable.
\<close>

section \<open>New records\<close>

lemma ledger_string_canon [canon_simps]: "ledger_string (canon v) field = ledger_string v field"
  by (simp add: ledger_string_def canon_simps)

lemma row_event_id_canon [canon_simps]: "row_event_id (canon v) = row_event_id v"
  by (simp add: row_event_id_def canon_simps)

lemma get_or_canon: "get_or (canon v) k (JStr s) = canon (get_or v k (JStr s))"
  by (simp add: get_or_def canon_simps split: option.splits)

lemma event_valid_canon:
  assumes "event_valid g" "\<And>field. field \<in> set event_fields \<Longrightarrow> h field = canon (g field)"
  shows "event_valid h"
  using assms(1)
  by (auto simp: event_valid_def assms(2) event_fields_def ledger_digest_def canon_simps get_or_canon)

lemma pop_upd_fresh: "is_obj v \<Longrightarrow> \<not> has_key v k \<Longrightarrow> pop k (upd k x v) = v"
proof (cases v)
  case (JObj kvs)
  assume "\<not> has_key v k"
  then have "k \<notin> fst ` set kvs" using JObj by (simp add: has_key_iff keys_def)
  then have "AList.delete k (AList.update k x kvs) = kvs"
    by (induction kvs) (auto simp: AList.delete_eq filter_id_conv)
  then show ?thesis using JObj by (simp add: pop_def upd_def)
qed simp_all

lemma hash_text: "\<forall>s. hex64 (sha s) \<Longrightarrow> utf8_ok (sha s)"
  using hash_value[of "JStr (sha s)"] by (simp add: is_hash_def)

lemma new_record_ok:
  assumes "validate_event event = Inr event" "r = new_record sha event n previous"
  shows "record_ok sha (int n + 1) previous (canon r)" "row_event_id r = row_event_id event"
    "the_str (fld r ''event_hash'') = sha (dumps (chained event (int n + 1) previous))"
    "\<And>field. field \<in> set event_fields \<Longrightarrow> fld r field = fld event field"
proof -
  let ?row = "chained event (int n + 1) previous"
  have event: "keys_are event event_fields" "event_valid (fld event)" "is_obj event"
    using assms(1) by (auto simp: validate_event_eq_Inr keys_are_iff)
  have r: "r = upd ''event_hash'' (JStr (sha (dumps ?row))) ?row" by (simp add: assms(2) new_record_def Let_def)
  show fields: "fld r field = fld event field" if "field \<in> set event_fields" for field
    using that event_fields_chain by (auto simp: r chained_def fld_upd)
  then show "row_event_id r = row_event_id event" by (simp add: row_event_id_def event_fields_chain)
  show "the_str (fld r ''event_hash'') = sha (dumps ?row)" by (simp add: r fld_upd)
  have keys: "keys_are (canon r) record_fields"
    unfolding canon_simps using event(1) by (auto simp: r chained_def keys_are_iff set_keys_upd record_fields_def)
  have "\<not> has_key ?row ''event_hash''"
    using event(1) event_fields_chain by (simp add: has_key_iff chained_def set_keys_upd keys_are_iff)
  then have "pop ''event_hash'' r = ?row" unfolding r by (intro pop_upd_fresh) (simp_all add: chained_def)
  moreover have "is_obj r" by (simp add: r)
  ultimately have seal: "seal sha ''event_hash'' (canon r) = sha (dumps ?row)" by (simp add: seal_def canon_simps)
  have "event_valid (fld (event_part (canon r)))"
    by (rule event_valid_canon[OF event(2)]) (simp add: fld_event_part canon_simps fields)
  then show "record_ok sha (int n + 1) previous (canon r)"
    using keys seal by (simp add: record_ok_def canon_simps r chained_def fld_upd)
qed

lemma new_record_plain:
  assumes "plain_object flt event" "utf8_value event" "utf8_ok previous" "\<forall>s. hex64 (sha s)"
  shows "plain_object flt (new_record sha event n previous)" "utf8_value (new_record sha event n previous)"
proof -
  have names: "utf8_ok ''event_hash''" "utf8_ok ''previous_event_hash''" "utf8_ok ''sequence''" by code_simp+
  show "plain_object flt (new_record sha event n previous)"
    unfolding new_record_def Let_def chained_def using assms(1) by (intro plain_upd) simp_all
  have "is_obj event" using assms(1) by (simp add: plain_object_def)
  then show "utf8_value (new_record sha event n previous)"
    unfolding new_record_def Let_def chained_def using assms(2,3) names hash_text[OF assms(4)]
    by (intro utf8_value_upd) simp_all
qed

lemma new_record_facts:
  assumes "validate_event event = Inr event" "plain_object flt event" "utf8_value event" "utf8_ok previous"
    "r = new_record sha event n previous" "\<forall>s. hex64 (sha s)"
  shows "record_ok sha (int n + 1) previous (canon r)" "row_event_id r = row_event_id event"
    "plain_object flt r" "utf8_value r" "the_str (fld r ''event_hash'') = sha (dumps (chained event (int n + 1) previous))"
    "\<And>field. field \<in> set event_fields \<Longrightarrow> fld r field = fld event field"
  using new_record_ok[OF assms(1,5)] new_record_plain[OF assms(2,3,4,6)] assms(5) by simp_all

lemma head_text: "ledger_ok sha vs \<Longrightarrow> \<forall>s. hex64 (sha s) \<Longrightarrow> utf8_ok (head_hash ''event_hash'' vs)"
proof (cases vs rule: rev_cases)
  case Nil
  have "utf8_ok genesis" by code_simp
  then show ?thesis using Nil by (simp add: head_hash_def)
next
  case (snoc us u)
  assume "ledger_ok sha vs" "\<forall>s. hex64 (sha s)"
  then show ?thesis using snoc ledger.head_snoc hash_text[of sha] by (simp add: seal_def)
qed

section \<open>One event\<close>

text \<open>An appended record is read back when its text is one line.\<close>

lemma record_reads_back:
  assumes "append_ledger sha flt msg None None content event = Inr (content', r)"
    "plain_object flt r" "utf8_value r" "one_line text_end (dumps r)"
  shows "\<exists>v v' row. verify_ledger sha flt msg None content = Inr v \<and> verify_ledger sha flt msg None content' = Inr v' \<and>
    content' = write_records content [r] \<and> r = new_record sha event (event_count v) (ledger_head v) \<and>
    event_count v' = Suc (event_count v) \<and> ledger_head v' = the_str (fld r ''event_hash'') \<and>
    ledger_rows v' = ledger_rows v @ [row] \<and> (\<forall>field \<in> set event_fields. fld row field = canon (fld event field))"
proof -
  from assms(1) obtain v where valid: "validate_event event = Inr event" and v: "verify_ledger sha flt msg None content = Inr v"
    and fresh: "row_event_id event \<notin> set (event_ids v)" and r: "r = new_record sha event (event_count v) (ledger_head v)"
    and content': "content' = write_records content [r]"
    by (auto simp: append_ledger_def result_simps Let_def validate_event_eq_Inr)
  from v obtain vs where vs: "content_values flt content vs" "ledger_ok sha vs" "v = verified_of vs"
    by (auto simp: verify_ledger_iff)
  have rec: "record_ok sha (int (length vs) + 1) (head_hash ''event_hash'' vs) (canon r)" "row_event_id r = row_event_id event"
    "\<And>field. field \<in> set event_fields \<Longrightarrow> fld r field = fld event field"
    using new_record_ok[OF valid r] vs(3) by (auto simp: verified_of_fields)
  have "row_event_id (canon r) \<notin> row_event_id ` set vs"
    using fresh rec(2) vs(3) by (simp add: verified_of_fields row_event_id_def canon_simps)
  then have "ledger_ok sha (vs @ [canon r])" using vs(2) rec(1) by (simp add: ledger_ok_snoc)
  moreover have "content_values flt content' (vs @ [canon r])"
    using content_extended[OF vs(1), of "[r]"] assms(2,3,4) content' by simp
  ultimately have v': "verify_ledger sha flt msg None content' = Inr (verified_of (vs @ [canon r]))"
    by (auto simp: verify_ledger_iff)
  let ?row = "stored (int (event_count v) + 1) (canon r)"
  have rows: "verified_of (vs @ [canon r]) = add_record ?row v" by (simp add: verified_of_snoc vs(3))
  show ?thesis
  proof (rule exI[of _ v], rule exI[of _ "verified_of (vs @ [canon r])"], rule exI[of _ ?row], intro conjI ballI)
    show "ledger_head (verified_of (vs @ [canon r])) = the_str (fld r ''event_hash'')"
      by (simp add: rows add_record_def fld_stored canon_simps)
    show "fld ?row field = canon (fld event field)" if "field \<in> set event_fields" for field
      using that rec(3)[OF that] event_fields_chain by (auto simp: fld_stored canon_simps)
    show "r = new_record sha event (event_count v) (ledger_head v)" by (rule r)
    show "verify_ledger sha flt msg None content' = Inr (verified_of (vs @ [canon r]))" by (rule v')
  qed (simp_all add: rows add_record_def v content')
qed


section \<open>Line separators\<close>

definition separator :: string where
  "separator = [byte 226, byte 128, byte 168]"

definition separator_event :: json where
  "separator_event = JObj [(''accounting'', JObj []), (''assignment_id'', JStr (''A-1'' @ separator)),
     (''board_sha256'', JStr (sha_prefix @ genesis)), (''checkpoint_id'', JStr ''C-1''),
     (''config_sha256'', JStr (sha_prefix @ genesis)), (''envelope_sha256'', JStr (sha_prefix @ genesis)),
     (''event_id'', JStr ''E-1''), (''event_type'', JStr ''task_enqueued''), (''evidence'', JObj []),
     (''goal_id'', JStr ''G-1''), (''lease'', JObj []), (''route'', JObj []), (''schema_version'', JInt 1),
     (''task_id'', JStr ''T-1''), (''timestamp'', JStr ''2026-01-01T00:00:00Z'')]"

definition cut_text :: string where
  "cut_text = [CHR ''{'', dquote] @ ''accounting'' @ [dquote] @ '':{},'' @ [dquote] @ ''assignment_id'' @ [dquote] @ '':'' @ [dquote] @ ''A-1''"

lemma separator_event_valid: "validate_event separator_event = Inr separator_event"
  by code_simp

lemma separator_fields: "sort_key fst (the_obj (new_record sha separator_event n p)) =
    (''accounting'', JObj []) # (''assignment_id'', JStr (''A-1'' @ separator)) #
    drop 2 (sort_key fst (the_obj (new_record sha separator_event n p)))"
  by code_simp

lemma cut_text_unreadable: "loads flt dict_of cut_text = Inl JSONDecodeError"
  by code_simp

lemma ascii_line: "list_all (\<lambda>c. 32 \<le> code c \<and> code c < 128) w \<Longrightarrow> one_line text_end w"
  by (auto simp: one_line_def text_end_def starts_with_def code_eq_byte neq_Nil_conv)

lemma cut_line_append_end: "one_line line_end w \<Longrightarrow> line_end rest \<noteq> 0 \<Longrightarrow> rest \<noteq> [] \<Longrightarrow> fst (cut_line line_end (w @ rest)) = w"
proof (induction w)
  case Nil
  then show ?case by (cases rest) simp_all
next
  case (Cons c w)
  have "line_end (c # w @ rest) = 0" using Cons.prems(1) unfolding one_line_def by (metis append_Cons append_Nil list.distinct(1))
  moreover have "one_line line_end w" using Cons.prems(1) unfolding one_line_def by (metis append_Cons)
  ultimately show ?case using Cons by (auto split: prod.splits)
qed

lemma separator_record: "\<exists>rest. dumps (new_record sha separator_event n p) = cut_text @ separator @ rest"
proof -
  obtain kvs where kvs: "new_record sha separator_event n p = JObj kvs"
    by (simp add: new_record_def Let_def upd_def)
  let ?m = "\<lambda>kv. quoted (fst kv) @ '':'' @ dumps (snd kv)"
  have sorted: "sort_key fst kvs = (''accounting'', JObj []) # (''assignment_id'', JStr (''A-1'' @ separator)) # drop 2 (sort_key fst kvs)"
    using separator_fields[of sha n p] unfolding kvs by simp
  have "dumps (JObj kvs) = ''{'' @ join '','' (map ?m (sort_key fst kvs)) @ ''}''" by simp
  also have "\<dots> = ''{'' @ join '','' (?m (''accounting'', JObj []) # ?m (''assignment_id'', JStr (''A-1'' @ separator)) #
      map ?m (drop 2 (sort_key fst kvs))) @ ''}''" by (subst sorted) (simp only: list.map)
  also have "\<dots> = cut_text @ separator @ ([dquote] @ (if map ?m (drop 2 (sort_key fst kvs)) = [] then [] else
      '','' @ join '','' (map ?m (drop 2 (sort_key fst kvs)))) @ ''}'')"
  proof -
    have "?m (''accounting'', JObj []) = [dquote] @ ''accounting'' @ [dquote] @ '':{}''"
      "?m (''assignment_id'', JStr (''A-1'' @ separator)) = [dquote] @ ''assignment_id'' @ [dquote] @ '':'' @ [dquote] @ ''A-1'' @ separator @ [dquote]"
      by code_simp+
    then show ?thesis by (cases "map ?m (drop 2 (sort_key fst kvs))") (simp_all add: cut_text_def)
  qed
  finally show ?thesis unfolding kvs by blast
qed

text \<open>
  C27: there is an event that the ledger accepts and writes and that makes it unreadable: its
  text contains a line separator, which the canonical JSON leaves as it is and \<open>str.splitlines\<close>
  cuts at, so verification, and with it every later append, fails.
\<close>

theorem line_separator_bricks_ledger:
  assumes "\<forall>s. hex64 (sha s)"
  shows "\<exists>event content' r. append_ledger sha flt msg None None None event = Inr (content', r) \<and>
    (\<forall>expected_head. verify_ledger sha flt msg expected_head content' = ledger_error ''ledger_truncated'' (''line 1:'' @ msg cut_text)) \<and>
    (\<forall>later. validate_event later = Inr later \<longrightarrow>
      append_ledger sha flt msg None None content' later = ledger_error ''ledger_truncated'' (''line 1:'' @ msg cut_text))"
proof -
  define r where "r = new_record sha separator_event 0 genesis"
  have empty: "verify_ledger sha flt msg None None = Inr no_events" by (simp add: verify_ledger_def verify_lines_def)
  have appended: "append_ledger sha flt msg None None None separator_event = Inr (write_records None [r], r)"
    by (simp add: append_ledger_def separator_event_valid empty no_events_def r_def Let_def)
  have plain: "python_value flt separator_event" "is_obj separator_event" "utf8_value separator_event" "utf8_ok genesis"
    by code_simp+
  have "utf8_value r"
    using new_record_facts(4)[OF separator_event_valid _ plain(3,4) r_def assms] plain(1,2)
    by (simp add: plain_object_def)
  then have utf8: "utf8_ok (dumps r @ newline)" by (intro utf8_ok_append utf8_ok_dumps) (simp, code_simp)
  obtain rest where rest: "dumps r = cut_text @ separator @ rest" using separator_record unfolding r_def by blast
  define raw where "raw = dumps r @ newline"
  have content': "write_records None [r] = Some raw" by (simp add: write_records_def raw_def)
  have "list_all (\<lambda>c. 32 \<le> code c \<and> code c < 128) cut_text" by code_simp
  then have "one_line text_end cut_text" by (rule ascii_line)
  moreover have "text_end (separator @ rest @ newline) \<noteq> 0" by (simp add: text_end_def separator_def starts_with_def)
  ultimately have "fst (cut_line text_end raw) = cut_text"
    using cut_line_append_end[of text_end cut_text "separator @ rest @ newline"] by (simp add: raw_def rest separator_def)
  moreover have "raw \<noteq> []" "ends_with raw newline" by (simp_all add: raw_def newline_def ends_with_def)
  note raw_ends = this
  ultimately obtain lines where lines: "splitlines text_end raw = cut_text # lines"
    using splitlines.simps[of text_end raw] by simp
  have "\<not> blank cut_text" by code_simp
  moreover have "dec 1 = ''1''" by code_simp
  ultimately have "verify_line sha flt msg no_events cut_text = ledger_error ''ledger_truncated'' (''line 1:'' @ msg cut_text)"
    by (simp add: verify_line_def cut_text_unreadable no_events_def)
  then have "verify_ledger sha flt msg h (Some raw) = ledger_error ''ledger_truncated'' (''line 1:'' @ msg cut_text)" for h
    using utf8 by (simp add: verify_ledger_def verify_lines_def lines ledger_error_def raw_ends flip: raw_def)
  note unreadable = this
  have "append_ledger sha flt msg None None (Some raw) later = ledger_error ''ledger_truncated'' (''line 1:'' @ msg cut_text)"
    if "validate_event later = Inr later" for later
    by (simp add: append_ledger_def that unreadable ledger_error_def)
  then show ?thesis using appended unreadable unfolding content' by blast
qed

section \<open>Batches\<close>

lemma dumps_fields:
  assumes "\<And>f. f \<in> set F \<Longrightarrow> canon (g f) = canon (h f)"
  shows "dumps (JObj (map (\<lambda>f. (f, g f)) F)) = dumps (JObj (map (\<lambda>f. (f, h f)) F))"
proof -
  have "canon (JObj (map (\<lambda>f. (f, g f)) F)) = canon (JObj (map (\<lambda>f. (f, h f)) F))"
    using assms by (simp add: sort_key_map comp_def)
  then show ?thesis by (metis dumps_canon)
qed

lemma comparable_eqI: "(\<And>f. f \<in> set event_fields \<Longrightarrow> canon (fld v f) = canon (fld w f)) \<Longrightarrow> comparable v = comparable w"
  unfolding comparable_def by (rule dumps_fields) simp

text \<open>the events already in the ledger, whatever their timestamps\<close>

definition known_event :: "json list \<Rightarrow> json \<Rightarrow> bool" where
  "known_event rows e \<longleftrightarrow> (\<exists>row \<in> set rows. row_event_id row = row_event_id e \<and> comparable row = comparable e)"

lemma existing_row:
  assumes "distinct (map row_event_id rows)" "known_event rows e"
  shows "\<exists>row. map_of (rev (map (\<lambda>row. (row_event_id row, row)) rows)) (row_event_id e) = Some row \<and> comparable row = comparable e"
proof -
  from assms(2) obtain row where row: "row \<in> set rows" "row_event_id row = row_event_id e" "comparable row = comparable e"
    by (auto simp: known_event_def)
  have "distinct (map fst (rev (map (\<lambda>row. (row_event_id row, row)) rows)))"
    using assms(1) by (simp add: rev_map[symmetric] comp_def)
  moreover have "(row_event_id e, row) \<in> set (rev (map (\<lambda>row. (row_event_id row, row)) rows))"
    using row(1,2) by (auto simp: image_iff)
  ultimately show ?thesis using row(3) by (metis map_of_is_SomeI)
qed

lemma replayed_batch:
  assumes "distinct (map row_event_id (ledger_rows v))" "\<forall>e \<in> set es. known_event (ledger_rows v) e"
  shows "\<exists>rs. foldR (plan_event sha v) b es = Inr (b\<lparr>batch_records := batch_records b @ rs, idempotent := idempotent b + length es\<rparr>)"
  using assms(2)
proof (induction es arbitrary: b)
  case Nil
  have "b = b\<lparr>batch_records := batch_records b @ [], idempotent := idempotent b\<rparr>" by simp
  then show ?case by (metis add_0_right foldR.simps(1) list.size(3))
next
  case (Cons e es)
  then obtain row where row: "map_of (rev (map (\<lambda>row. (row_event_id row, row)) (ledger_rows v))) (row_event_id e) = Some row"
    "comparable row = comparable e" using existing_row[OF assms(1)] by (metis list.set_intros(1))
  let ?b = "b\<lparr>batch_records := batch_records b @ [row], idempotent := Suc (idempotent b)\<rparr>"
  have "plan_event sha v b e = Inr ?b" by (simp add: plan_event_def reuse_def row)
  moreover obtain rs where "foldR (plan_event sha v) ?b es =
      Inr (?b\<lparr>batch_records := batch_records ?b @ rs, idempotent := idempotent ?b + length es\<rparr>)"
    using Cons.IH Cons.prems by (metis list.set_intros(2))
  ultimately show ?case by (intro exI[of _ "row # rs"]) simp
qed

text \<open>what the loop over a batch maintains\<close>

definition batch_ok :: "(string \<Rightarrow> string) \<Rightarrow> (string \<Rightarrow> json) \<Rightarrow> json list \<Rightarrow> json list \<Rightarrow> batch \<Rightarrow> bool" where
  "batch_ok sha flt vs events b \<longleftrightarrow> ledger_ok sha (vs @ map canon (planned b)) \<and>
     (\<forall>r \<in> set (planned b). plain_object flt r \<and> utf8_value r) \<and>
     (\<forall>i r. map_of (seen_records b) i = Some r \<longleftrightarrow> r \<in> set (planned b) \<and> row_event_id r = i) \<and>
     (\<forall>e \<in> set events. known_event (ledger_rows (verified_of vs) @ planned b) e)"

lemma known_event_mono: "known_event rows e \<Longrightarrow> set rows \<subseteq> set rows' \<Longrightarrow> known_event rows' e"
  by (auto simp: known_event_def)

lemma reuse_eq_Inr: "reuse e row b = Inr b' \<longleftrightarrow> comparable row = comparable e \<and>
    b' = b\<lparr>batch_records := batch_records b @ [row], idempotent := Suc (idempotent b)\<rparr>"
  by (auto simp: reuse_def ledger_error_def)

lemma batch_ok_reuse:
  assumes "batch_ok sha flt vs events b" "reuse e row b = Inr b'" "row \<in> set (ledger_rows (verified_of vs) @ planned b)"
    "row_event_id row = row_event_id e"
  shows "batch_ok sha flt vs (events @ [e]) b'"
  using assms by (auto simp: batch_ok_def reuse_eq_Inr known_event_def)

lemma planned_head:
  assumes "ledger_ok sha (vs @ map canon rs)"
  shows "(if rs = [] then ledger_head (verified_of vs) else the_str (fld (last rs) ''event_hash'')) = head_hash ''event_hash'' (vs @ map canon rs)"
  by (cases rs rule: rev_cases) (simp_all add: verified_of_fields head_hash_def canon_simps)

lemma batch_ok_step:
  assumes ok: "batch_ok sha flt vs events b" and hex: "\<forall>s. hex64 (sha s)"
    and e: "validate_event e = Inr e" "plain_object flt e" "utf8_value e"
    and step: "plan_event sha (verified_of vs) b e = Inr b'"
  shows "batch_ok sha flt vs (events @ [e]) b'"
proof (cases "map_of (rev (map (\<lambda>row. (row_event_id row, row)) (ledger_rows (verified_of vs)))) (row_event_id e)")
  case (Some row)
  then have "row \<in> set (ledger_rows (verified_of vs))" "row_event_id row = row_event_id e" by (auto dest!: map_of_SomeD)
  then show ?thesis using batch_ok_reuse[OF ok, of e row b'] step Some by (simp add: plan_event_def)
next
  case old: None
  show ?thesis
  proof (cases "map_of (seen_records b) (row_event_id e)")
    case (Some row)
    then have "row \<in> set (planned b)" "row_event_id row = row_event_id e" using ok by (auto simp: batch_ok_def)
    then show ?thesis using batch_ok_reuse[OF ok, of e row b'] step Some old by (simp add: plan_event_def)
  next
    case None
    let ?all = "vs @ map canon (planned b)"
    have log: "ledger_ok sha ?all" using ok by (simp add: batch_ok_def)
    define r where "r = new_record sha e (length ?all) (head_hash ''event_hash'' ?all)"
    have b': "b' = \<lparr>seen_records = AList.update (row_event_id e) r (seen_records b), planned = planned b @ [r],
        batch_records = batch_records b @ [r], appended = Suc (appended b), idempotent = idempotent b\<rparr>"
      using step old None planned_head[OF log] by (simp add: plan_event_def r_def Let_def verified_of_fields)
    note facts = new_record_facts[OF e head_text[OF log hex] r_def hex]
    have "row_event_id e \<notin> row_event_id ` set vs"
    proof
      assume "row_event_id e \<in> row_event_id ` set vs"
      then have "row_event_id e \<in> set (map row_event_id (ledger_rows (verified_of vs)))" unfolding verified_of_rows by simp
      then show False using old by (simp add: map_of_eq_None_iff image_image)
    qed
    moreover have fresh: "row_event_id e \<notin> row_event_id ` set (planned b)"
    proof
      assume "row_event_id e \<in> row_event_id ` set (planned b)"
      then obtain x where "x \<in> set (planned b)" "row_event_id x = row_event_id e" by auto
      then have "map_of (seen_records b) (row_event_id e) = Some x" using ok unfolding batch_ok_def by blast
      then show False using None by simp
    qed
    ultimately have "row_event_id (canon r) \<notin> row_event_id ` set ?all"
      using facts(2) by (simp add: canon_simps image_Un image_image)
    then have "ledger_ok sha (?all @ [canon r])" using log facts(1) unfolding ledger_ok_snoc by simp
    moreover have "comparable r = comparable e" using facts(6) by (intro comparable_eqI) simp
    then have "known_event (ledger_rows (verified_of vs) @ planned b @ [r]) e" using facts(2) by (auto simp: known_event_def)
    moreover have "map_of (seen_records b') i = Some x \<longleftrightarrow> x \<in> set (planned b') \<and> row_event_id x = i" for i x
    proof -
      have "map_of (seen_records b) i = Some x \<longleftrightarrow> x \<in> set (planned b) \<and> row_event_id x = i" using ok by (simp add: batch_ok_def)
      moreover have "x \<in> set (planned b) \<Longrightarrow> row_event_id x \<noteq> row_event_id e" using fresh by (metis imageI)
      ultimately show ?thesis using facts(2) by (auto simp: b' update_conv)
    qed
    moreover have "known_event (ledger_rows (verified_of vs) @ planned b @ [r]) e0" if "e0 \<in> set events" for e0
      by (rule known_event_mono[of "ledger_rows (verified_of vs) @ planned b"]) (use ok that in \<open>auto simp: batch_ok_def\<close>)
    moreover have "\<forall>r \<in> set (planned b). plain_object flt r \<and> utf8_value r" using ok by (simp add: batch_ok_def)
    ultimately show ?thesis using facts(3,4) by (simp add: batch_ok_def b')
  qed
qed

lemma batch_ok_fold:
  assumes "foldR (plan_event sha (verified_of vs)) empty_batch es = Inr b" "ledger_ok sha vs" "\<forall>s. hex64 (sha s)"
    "\<forall>e \<in> set es. validate_event e = Inr e \<and> plain_object flt e \<and> utf8_value e"
  shows "batch_ok sha flt vs es b"
proof (rule foldR_invariant_idx[OF assms(1), where P = "batch_ok sha flt vs"])
  show "batch_ok sha flt vs [] empty_batch" using assms(2) by (simp add: batch_ok_def empty_batch_def)
next
  fix p x q t t'
  assume "es = p @ x # q" "batch_ok sha flt vs p t" "plan_event sha (verified_of vs) t x = Inr t'"
  then show "batch_ok sha flt vs (p @ [x]) t'" using batch_ok_step assms(3,4) by (metis in_set_conv_decomp)
qed

lemma verified_rows: "ledger_rows (verified_of vs) = map (\<lambda>i. stored (int i + 1) (vs ! i)) [0..<length vs]"
proof (induction vs rule: rev_induct)
  case (snoc x vs)
  have "map (\<lambda>i. stored (int i + 1) ((vs @ [x]) ! i)) [0..<length vs] = map (\<lambda>i. stored (int i + 1) (vs ! i)) [0..<length vs]"
    by (rule map_cong) (simp_all add: nth_append)
  then show ?case using snoc by (simp add: verified_of_snoc add_record_def verified_of_fields)
qed (simp add: verified_of_Nil no_events_def)

lemma stored_known: "e \<in> set vs \<Longrightarrow> known_event (ledger_rows (verified_of vs)) e"
proof -
  assume "e \<in> set vs"
  then obtain i where i: "i < length vs" "vs ! i = e" by (auto simp: in_set_conv_nth)
  have "comparable (stored (int i + 1) e) = comparable e"
    by (rule comparable_eqI) (auto simp: fld_stored event_fields_def)
  then show ?thesis using i unfolding known_event_def verified_rows
    by (intro bexI[of _ "stored (int i + 1) e"]) (auto simp: image_iff)
qed

lemma validate_batch_eq_Inr: "validate_batch values = Inr es \<longleftrightarrow> values = JList es \<and> (\<forall>e \<in> set es. validate_event e = Inr e)"
proof -
  have "mapR validate_event xs = Inr es \<longleftrightarrow> xs = es \<and> (\<forall>e \<in> set es. validate_event e = Inr e)" for xs
    by (induction xs arbitrary: es) (auto simp: bind_eq_Inr validate_event_eq_Inr)
  note events = this
  have "(case mapR validate_event xs of Inl e \<Rightarrow> if e = TypeError then ledger_error c d else Inl e | Inr ys \<Rightarrow> Inr ys) = Inr es \<longleftrightarrow>
      mapR validate_event xs = Inr es" for xs c d
    by (auto split: sum.splits)
  then show ?thesis by (cases "values") (auto simp: validate_batch_def events)
qed


end
