(* ===== verification/Ascii.thy ===== *)
theory Ascii
  imports Ledger_Append
begin

text \<open>
  Values whose texts are ASCII: their JSON text is one line and decodes, so a record of such a
  value can always be read back.
\<close>

definition seven_bit :: "string \<Rightarrow> bool" where
  "seven_bit s = list_all (\<lambda>c. code c < 128) s"

function seven_bit_value :: "json \<Rightarrow> bool" where
  "seven_bit_value JNull = True"
| "seven_bit_value (JBool b) = True"
| "seven_bit_value (JInt i) = True"
| "seven_bit_value (JFloat m k r) = seven_bit r"
| "seven_bit_value (JStr s) = seven_bit s"
| "seven_bit_value (JList xs) = list_all seven_bit_value xs"
| "seven_bit_value (JObj kvs) = list_all (\<lambda>kv. seven_bit (fst kv) \<and> seven_bit_value (snd kv)) kvs"
  by pat_completeness auto
termination
proof (relation "measure size", goal_cases)
  case (3 kvs kv)
  then have "size (snd kv) \<le> size_list (size_prod (\<lambda>_. 0) size) kvs"
    by (intro size_list_estimation'[of kv]) (simp_all add: size_prod_simp)
  then show ?case by simp
qed (auto simp: less_Suc_eq_le intro: size_list_estimation')

lemma seven_bit_append [simp]: "seven_bit (s @ t) \<longleftrightarrow> seven_bit s \<and> seven_bit t" "seven_bit []"
    "seven_bit (c # s) \<longleftrightarrow> code c < 128 \<and> seven_bit s"
  by (simp_all add: seven_bit_def)

lemma seven_bit_join: "seven_bit sep \<Longrightarrow> \<forall>w \<in> set ws. seven_bit w \<Longrightarrow> seven_bit (join sep ws)"
  by (induction sep ws rule: join.induct) auto

lemma seven_bit_concat: "\<forall>w \<in> set ws. seven_bit w \<Longrightarrow> seven_bit (concat ws)"
  by (induction ws) auto

lemma seven_bit_quoted: "seven_bit s \<Longrightarrow> seven_bit (quoted s)"
proof -
  have hex: "seven_bit (hex2 n)" if "0 \<le> n" "n < 32" for n
  proof -
    have "n \<in> set (upto 0 31)" using that by simp
    moreover have "list_all (\<lambda>n. seven_bit (hex2 n)) (upto 0 31)" by code_simp
    ultimately show ?thesis unfolding list_all_iff by blast
  qed
  have "seven_bit (escape_char c)" if "code c < 128" for c
  proof -
    have "0 \<le> code c" by (rule code_bounds)
    then show ?thesis using that hex[of "code c"] by (simp add: escape_char_def backslash_def) (simp add: code_def)
  qed
  then show "seven_bit s \<Longrightarrow> seven_bit (quoted s)"
    by (auto simp: quoted_def seven_bit_def dquote_def list_all_iff) (simp_all add: code_def)
qed

lemma seven_bit_dec_int: "seven_bit (dec_int i)"
proof -
  have "seven_bit s" if "list_all is_digit s" for s using that by (auto simp: seven_bit_def list_all_iff is_digit_def)
  moreover have "code CHR ''-'' < 128" by code_simp
  ultimately show ?thesis using dec_digits[of i] dec_digits[of "- i"] by (simp add: dec_int_def)
qed

lemma seven_bit_dumps: "seven_bit_value v \<Longrightarrow> seven_bit (dumps v)"
proof (induction v rule: dumps.induct)
  case (6 xs)
  then show ?case by (auto simp: list_all_iff intro!: seven_bit_join) (simp_all add: code_def)
next
  case (7 kvs)
  have "seven_bit (quoted (fst kv) @ '':'' @ dumps (snd kv))" if "kv \<in> set kvs" for kv
    using 7 that by (auto simp: list_all_iff intro!: seven_bit_quoted) (simp_all add: code_def)
  then have "seven_bit (join '','' (map (\<lambda>kv. quoted (fst kv) @ '':'' @ dumps (snd kv)) (sort_key fst kvs)))"
    by (intro seven_bit_join) (auto simp: code_def)
  then show ?case by (simp add: code_def)
qed (auto simp: seven_bit_quoted seven_bit_dec_int, simp_all add: code_def)

lemma seven_bit_utf8: "seven_bit_value v \<Longrightarrow> utf8_value v"
  by (induction v rule: seven_bit_value.induct) (auto simp: list_all_iff seven_bit_def intro: utf8_ok_ascii)

lemma seven_bit_upd: "seven_bit_value v \<Longrightarrow> is_obj v \<Longrightarrow> seven_bit k \<Longrightarrow> seven_bit_value x \<Longrightarrow> seven_bit_value (upd k x v)"
proof -
  have "list_all P kvs \<Longrightarrow> P (k, x) \<Longrightarrow> list_all P (AList.update k x kvs)" for P and kvs :: "(string \<times> json) list"
    by (induction kvs) auto
  then show "seven_bit_value v \<Longrightarrow> is_obj v \<Longrightarrow> seven_bit k \<Longrightarrow> seven_bit_value x \<Longrightarrow> seven_bit_value (upd k x v)"
    by (cases v) (auto simp: upd_def)
qed

lemma seven_bit_line: "python_value flt v \<Longrightarrow> seven_bit_value v \<Longrightarrow> one_line text_end (dumps v)"
  using printable_dumps[of flt v] seven_bit_dumps[of v] ascii_line[of "dumps v"]
  by (simp add: printable_def seven_bit_def list_all_iff)

lemma hex_seven_bit: "hex64 s \<Longrightarrow> seven_bit s"
proof -
  have "list_all (\<lambda>c. code c < 128) hex_digits" by code_simp
  then show "hex64 s \<Longrightarrow> seven_bit s" by (auto simp: hex64_def all_hex_def seven_bit_def list_all_iff)
qed

text \<open>The record of an ASCII event is read back.\<close>

definition plain_record :: "(string \<Rightarrow> json) \<Rightarrow> json \<Rightarrow> bool" where
  "plain_record flt r \<longleftrightarrow> plain_object flt r \<and> utf8_value r \<and> one_line text_end (dumps r)"

lemma ascii_record:
  assumes "plain_object flt event" "seven_bit_value event" "\<forall>s. hex64 (sha s)" "hex64 previous"
  shows "plain_record flt (new_record sha event n previous)"
proof -
  have obj: "is_obj event" using assms(1) by (simp add: plain_object_def)
  have prev: "seven_bit previous" "utf8_ok previous" using assms(4) hex_seven_bit seven_bit_utf8[of "JStr previous"] by simp_all
  note plain = new_record_plain[OF assms(1) seven_bit_utf8[OF assms(2)] prev(2) assms(3)]
  have names: "seven_bit ''sequence''" "seven_bit ''previous_event_hash''" "seven_bit ''event_hash''" by code_simp+
  have "seven_bit_value (new_record sha event n previous)"
    unfolding new_record_def chained_def Let_def
    using assms(2) obj names prev(1) hex_seven_bit assms(3) by (intro seven_bit_upd) simp_all
  moreover have "python_value flt (new_record sha event n previous)" using plain(1) by (simp add: plain_object_def)
  ultimately show ?thesis using plain seven_bit_line by (simp add: plain_record_def)
qed

end
