(* ===== verification/Ledger_Replay.thy ===== *)
theory Ledger_Replay
  imports Ascii Demo
begin

text \<open>
  Folding the ledger into the active leases: a lease is active exactly when the last event
  about it grants it. The scheduler's \<open>_active_rows\<close> and \<open>_find_active\<close> run the same loop.
  The instances of the ledger's properties are at the end.
\<close>

section \<open>Active leases\<close>

definition lease_event :: "json \<Rightarrow> json \<Rightarrow> bool" where
  "lease_event k row \<longleftrightarrow> truthy (lease_id_of row) \<and> norm (lease_id_of row) = k \<and>
     (event_type row = ''lease_granted'' \<or> event_type row \<in> set ended_leases)"

definition last_grant :: "json list \<Rightarrow> json \<Rightarrow> json \<Rightarrow> bool" where
  "last_grant rows k row \<longleftrightarrow> (\<exists>before later. rows = before @ row # later \<and> lease_event k row \<and>
     event_type row = ''lease_granted'' \<and> (\<forall>r \<in> set later. \<not> lease_event k r))"

lemma last_grant_snoc: "last_grant (rows @ [r]) k row \<longleftrightarrow>
    (if lease_event k r then event_type r = ''lease_granted'' \<and> row = r else last_grant rows k row)"
proof (cases "lease_event k r")
  case True
  have "before @ row # later = rows @ [r] \<Longrightarrow> \<forall>x \<in> set later. \<not> lease_event k x \<Longrightarrow> later = [] \<and> row = r" for before later
    using True by (cases later rule: rev_cases) auto
  then show ?thesis using True unfolding last_grant_def by (metis append_Nil2 list.set(1) empty_iff)
next
  case False
  show ?thesis
  proof
    assume "last_grant (rows @ [r]) k row"
    then obtain before later where split: "rows @ [r] = before @ row # later" "lease_event k row"
      "event_type row = ''lease_granted''" "\<forall>x \<in> set later. \<not> lease_event k x" by (auto simp: last_grant_def)
    then show "if lease_event k r then event_type r = ''lease_granted'' \<and> row = r else last_grant rows k row"
      using False by (cases later rule: rev_cases) (auto simp: last_grant_def)
  next
    assume "if lease_event k r then event_type r = ''lease_granted'' \<and> row = r else last_grant rows k row"
    then obtain before later where "rows = before @ row # later" "lease_event k row" "event_type row = ''lease_granted''"
      "\<forall>x \<in> set later. \<not> lease_event k x" using False by (auto simp: last_grant_def)
    then show "last_grant (rows @ [r]) k row"
      using False unfolding last_grant_def by (intro exI[of _ before] exI[of _ "later @ [r]"]) auto
  qed
qed

lemma granted_not_ended: "''lease_granted'' \<notin> set ended_leases"
  by (simp add: ended_leases_def)

lemma lease_step_lookup:
  assumes "lease_step active r = Inr active'"
  shows "map_of active' k = (if lease_event k r then (if event_type r = ''lease_granted'' then Some r else None) else map_of active k)"
proof (cases "truthy (lease_id_of r)")
  case True
  consider "event_type r = ''lease_granted''" | "event_type r \<noteq> ''lease_granted''" "event_type r \<in> set ended_leases"
    | "event_type r \<noteq> ''lease_granted''" "event_type r \<notin> set ended_leases" by blast
  then show ?thesis
    using assms True
    by cases (auto simp: lease_step_def lease_event_def Let_def result_simps update_conv delete_conv)
qed (use assms in \<open>simp add: lease_step_def lease_event_def Let_def\<close>)

lemma lease_fold_lookup: "foldR lease_step [] rows = Inr active \<Longrightarrow> map_of active k = Some row \<longleftrightarrow> last_grant rows k row"
proof (induction rows arbitrary: active rule: rev_induct)
  case Nil
  then show ?case by (auto simp: last_grant_def)
next
  case (snoc r rows)
  then obtain a where "foldR lease_step [] rows = Inr a" "lease_step a r = Inr active" by (auto simp: foldR_snoc_Inr)
  then show ?case using snoc.IH lease_step_lookup[of a r active k] by (auto simp: last_grant_snoc)
qed

lemma lease_fold_keys: "foldR lease_step active rows = Inr active' \<Longrightarrow> distinct (map fst active) \<Longrightarrow> distinct (map fst active')"
  by (erule foldR_invariant[where P = "\<lambda>a. distinct (map fst a)"])
    (auto simp: lease_step_def Let_def distinct_update AList.distinct_delete split: if_splits)

lemma replay_leases: "foldR replay_row s rows = Inr r \<Longrightarrow> foldR lease_step (active_leases s) rows = Inr (active_leases r)"
proof (induction rows arbitrary: s)
  case (Cons row rows)
  then obtain t where t: "replay_row s row = Inr t" "foldR replay_row t rows = Inr r" by (auto simp: bind_eq_Inr)
  then have "lease_step (active_leases s) row = Inr (active_leases t)" by (auto simp: replay_row_def bind_eq_Inr)
  then show ?case using Cons.IH[OF t(2)] by simp
qed simp

text \<open>
  C29: replaying a ledger gives as active exactly the leases whose last event grants them, each
  with the row of that grant.
\<close>

theorem active_leases_exact:
  assumes "replay_ledger v = Inr r"
  shows "(map_of (active_leases r) (norm i) = Some row) = last_grant (ledger_rows v) (norm i) row"
  using lease_fold_lookup replay_leases[OF assms[unfolded replay_ledger_def]] by simp

section \<open>Instances\<close>

text \<open>an event of the task T-1\<close>

definition sample_event :: "string \<Rightarrow> string \<Rightarrow> string \<Rightarrow> (string \<times> json) list \<Rightarrow> json" where
  "sample_event i at kind lease = JObj [
     (''schema_version'', JInt 1), (''event_id'', JStr i), (''event_type'', JStr kind), (''timestamp'', JStr at),
     (''goal_id'', JStr ''G-1''), (''checkpoint_id'', JStr ''C-1''), (''task_id'', JStr ''T-1''),
     (''assignment_id'', JStr ''A-1''), (''envelope_sha256'', JStr (sha_prefix @ genesis)),
     (''config_sha256'', JStr (sha_prefix @ genesis)), (''board_sha256'', JStr (sha_prefix @ genesis)),
     (''route'', JObj []), (''lease'', JObj lease), (''accounting'', JObj []), (''evidence'', JObj [])]"

definition queued :: json where
  "queued = sample_event ''E-1'' ''2026-01-01T00:00:00Z'' ''task_enqueued'' []"

definition queued_later :: json where
  "queued_later = sample_event ''E-1'' ''2026-01-02T00:00:00Z'' ''task_enqueued'' []"

definition granted :: json where
  "granted = sample_event ''E-2'' ''2026-01-01T00:00:00Z'' ''lease_granted'' [(''lease_id'', JStr ''L-1'')]"

lemma queued_valid: "validate_event queued = Inr queued" "validate_event queued_later = Inr queued_later"
  by code_simp+

lemma queued_plain: "plain_object demo_float queued" "utf8_value queued"
proof -
  have "is_obj queued" "python_value demo_float queued" by code_simp+
  then show "plain_object demo_float queued" by (simp add: plain_object_def)
qed code_simp

definition queued_record :: json where
  "queued_record = new_record demo_digest queued 0 genesis"

lemma queued_plain_record: "plain_record demo_float queued_record"
proof -
  have "seven_bit_value queued" "hex64 genesis" by code_simp+
  then show ?thesis using ascii_record[OF queued_plain(1) _ demo_hex] by (simp add: queued_record_def)
qed

lemma queued_record_line: "one_line text_end (dumps queued_record)"
  using queued_plain_record by (simp add: plain_record_def)

lemma empty_ledger: "verify_ledger sha flt msg None None = Inr no_events"
  by (simp add: verify_ledger_def verify_lines_def)

lemma queued_append: "append_ledger demo_digest demo_float msg None None None queued =
    Inr (Some (dumps queued_record @ newline), queued_record)"
  by (simp add: append_ledger_def queued_valid empty_ledger no_events_def Let_def write_records_def queued_record_def)


lemma line_separator_bricks_ledger_witness:
  "\<exists>event content' r. append_ledger demo_digest demo_float (\<lambda>_. []) None None None event = Inr (content', r) \<and>
     verify_ledger demo_digest demo_float (\<lambda>_. []) None content' = ledger_error ''ledger_truncated'' ''line 1:''"
  using line_separator_bricks_ledger[OF demo_hex, of demo_float "\<lambda>_. []"] by auto


lemma active_leases_exact_witness:
  "\<exists>r. replay_ledger \<lparr>event_count = 2, ledger_head = genesis, event_ids = [], ledger_rows = [queued, granted]\<rparr> = Inr r \<and>
     last_grant [queued, granted] (norm (JStr ''L-1'')) granted"
proof -
  let ?v = "\<lparr>event_count = 2, ledger_head = genesis, event_ids = [], ledger_rows = [queued, granted]\<rparr>"
  have "case replay_ledger ?v of Inl _ \<Rightarrow> False | Inr r \<Rightarrow> map_of (active_leases r) (norm (JStr ''L-1'')) = Some granted"
    by code_simp
  then obtain r where r: "replay_ledger ?v = Inr r" "map_of (active_leases r) (norm (JStr ''L-1'')) = Some granted"
    by (auto split: sum.splits)
  then show ?thesis using active_leases_exact[OF r(1), of "JStr ''L-1''" granted] by simp
qed

end
