(* ===== verification/Admission_Properties.thy ===== *)
theory Admission_Properties
  imports Admission Ledger_Replay
begin

text \<open>
  Properties of the scheduler: its operations keep the capacities of the policy and never grant two
  writers overlapping scopes; who may act on a lease; what is never used twice; and which of the
  eligible routes is selected.
\<close>

section \<open>Scopes\<close>

interpretation scope: overlap scope_meets "\<lambda>_. True"
  by unfold_locales (auto simp: scope_meets_def)

definition scope_name :: "string \<Rightarrow> bool" where
  "scope_name p \<longleftrightarrow> p \<noteq> [] \<and> p \<noteq> ''.'' \<and> p \<noteq> ''..'' \<and> CHR ''/'' \<notin> set p \<and> \<not> list_ex (\<lambda>c. c \<in> set p) glob_markers"

lemma scope_parts_names: "scope_parts e ps = Inr qs \<Longrightarrow> \<forall>p \<in> set ps. CHR ''/'' \<notin> set p \<Longrightarrow> \<forall>q \<in> set qs. scope_name q"
  by (induction ps arbitrary: qs) (auto simp: scope_name_def bind_eq_Inr split: if_splits)

lemma scope_parts_subset: "scope_parts e ps = Inr qs \<Longrightarrow> set qs \<subseteq> set ps"
  by (induction ps arbitrary: qs) (auto simp: bind_eq_Inr split: if_splits)

lemma scope_parts_id: "\<forall>q \<in> set qs. scope_name q \<Longrightarrow> scope_parts e qs = Inr qs"
  by (induction qs) (auto simp: scope_name_def)

lemma split_on_chars: "w \<in> set (split_on sep s) \<Longrightarrow> set w \<subseteq> set s"
  by (induction s arbitrary: w) (auto split: list.splits if_splits, blast+)

lemma join_chars: "set (join sep ws) \<subseteq> set sep \<union> (\<Union>w \<in> set ws. set w)"
  by (induction sep ws rule: join.induct) auto

lemma normalize_scope_idem: "normalize_scope v = Inr p \<Longrightarrow> normalize_scope (JStr p) = Inr p"
proof -
  assume "normalize_scope v = Inr p"
  then obtain s e qs where v: "backslash \<notin> set s" "scope_parts e (split_on CHR ''/'' s) = Inr qs"
    "p = (if qs = [] then ''.'' else join ''/'' qs)"
    unfolding normalize_scope_def by (elim raiseE bindE InrE) (rule that; simp)
  have names: "\<forall>q \<in> set qs. scope_name q" using scope_parts_names[OF v(2)] split_on_no_sep by blast
  show "normalize_scope (JStr p) = Inr p"
  proof (cases "qs = []")
    case True
    have "normalize_scope (JStr ''.'') = Inr ''.''" by code_simp
    then show ?thesis using True v(3) by simp
  next
    case False
    have "\<Union>(set ` set qs) \<subseteq> set s" using scope_parts_subset[OF v(2)] split_on_chars by blast
    moreover have "backslash \<noteq> CHR ''/''" by code_simp
    moreover have "set p \<subseteq> {CHR ''/''} \<union> \<Union>(set ` set qs)" using join_chars[of "''/''" qs] v(3) False by simp
    ultimately have slash: "backslash \<notin> set p" using v(1) by blast
    have split: "split_on CHR ''/'' p = qs" using v(3) False names by (auto simp: scope_name_def)
    obtain q qs' where qs: "qs = q # qs'" "scope_name q" using False names by (cases qs) auto
    then obtain c q' where q: "q = c # q'" "c \<noteq> CHR ''/''" by (cases q) (auto simp: scope_name_def)
    then have "p \<noteq> [] \<and> \<not> starts_with p ''/''" using v(3) by (cases qs') (auto simp: qs starts_with_def)
    then show ?thesis using slash by (simp add: normalize_scope_def split scope_parts_id[OF names]) (simp add: v(3) False)
  qed
qed

lemma anyR_False: "anyR f xs = Inr False \<longleftrightarrow> (\<forall>x \<in> set xs. f x = Inr False)"
  by (induction xs) (auto simp: bind_eq_Inr split: if_splits)

lemma scopes_overlap_normal: "normalize_scope v = Inr p \<Longrightarrow> scopes_overlap (JStr p) x = scopes_overlap v x"
  by (simp add: scopes_overlap_def normalize_scope_idem)

lemma overlaps_writer_normal:
  assumes "mapR normalize_scope vs = Inr ps" "overlaps_writer vs row = Inr False"
  shows "overlaps_writer (map JStr (sort ps)) row = Inr False"
proof -
  have "bind (py_iter (get_or (fld row ''lease'') ''write_scopes'' (JList []))) (anyR (scopes_overlap (JStr p))) = Inr False"
    if p: "p \<in> set ps" for p
  proof -
    obtain v where v: "v \<in> set vs" "normalize_scope v = Inr p" using mapR_source[OF assms(1) p] by blast
    have "scopes_overlap (JStr p) = scopes_overlap v" using scopes_overlap_normal[OF v(2)] by (rule ext)
    then show ?thesis using assms(2) v(1) by (simp add: overlaps_writer_def anyR_False)
  qed
  then show ?thesis by (simp add: overlaps_writer_def anyR_False)
qed

section \<open>Active leases\<close>

lemma norm_text: "norm v = JStr s \<longleftrightarrow> v = JStr s"
  using py_eq_JStr(2)[of v s] by (simp add: py_eq_def)

definition lease_text :: "string \<Rightarrow> json \<Rightarrow> bool" where
  "lease_text i row \<longleftrightarrow> lease_id_of row = JStr i"

lemma active_snoc: "foldR lease_step [] (rows @ [r]) = bind (foldR lease_step [] rows) (\<lambda>a. lease_step a r)"
proof -
  have "bind m Inr = m" for m :: "(json \<times> json) list result" by (cases m) simp_all
  then show ?thesis by (simp add: foldR_append)
qed

lemma active_key: "foldR lease_step [] rows = Inr active \<Longrightarrow> (JStr i, row) \<in> set active \<Longrightarrow> row \<in> set rows \<and> lease_text i row"
proof -
  assume a: "foldR lease_step [] rows = Inr active" "(JStr i, row) \<in> set active"
  have "map_of active (JStr i) = Some row" using lease_fold_keys[OF a(1)] a(2) by simp
  then have "last_grant rows (JStr i) row" using lease_fold_lookup[OF a(1)] by simp
  then show ?thesis by (auto simp: last_grant_def lease_event_def norm_text lease_text_def)
qed

text \<open>A grant with a new id is one more active lease.\<close>

lemma active_grant:
  assumes "active_rows rows = Inr act" "\<forall>row \<in> set rows. \<not> lease_text i row"
    "event_type r = ''lease_granted''" "lease_text i r" "i \<noteq> []"
  shows "active_rows (rows @ [r]) = Inr (act @ [r])"
proof -
  obtain active where a: "foldR lease_step [] rows = Inr active" "act = map snd active"
    using assms(1) by (auto simp: active_rows_def bind_eq_Inr)
  have "JStr i \<notin> fst ` set active" using active_key[OF a(1)] assms(2) by fastforce
  then have "AList.update (JStr i) r active = active @ [(JStr i, r)]"
    by (induction active) auto
  moreover have "lease_id_of r = JStr i" using assms(4) by (simp add: lease_text_def)
  ultimately have "lease_step active r = Inr (active @ [(JStr i, r)])"
    using assms(3,5) by (simp add: lease_step_def truthy_def norm_text)
  then show ?thesis by (simp add: active_rows_def active_snoc a)
qed

lemma active_end:
  assumes "active_rows rows = Inr act" "event_type r \<noteq> ''lease_granted''" "active_rows (rows @ [r]) = Inr act'"
  shows "\<exists>P. act' = filter P act"
proof -
  obtain active where a: "foldR lease_step [] rows = Inr active" "act = map snd active"
    using assms(1) by (auto simp: active_rows_def bind_eq_Inr)
  obtain active' where a': "lease_step active r = Inr active'" "act' = map snd active'"
    using assms(3) by (auto simp: active_rows_def active_snoc a bind_eq_Inr)
  have "active' = active \<or> active' = filter (\<lambda>(k, v). k \<noteq> norm (lease_id_of r)) active"
    using a'(1) assms(2) by (auto simp: lease_step_def Let_def AList.delete_eq eq_commute split: if_splits)
  moreover have "map snd (filter (\<lambda>(k, v). k \<noteq> norm (lease_id_of r)) active) =
      filter (\<lambda>row. norm (lease_id_of row) \<noteq> norm (lease_id_of r)) (map snd active)"
  proof -
    have "k = norm (lease_id_of row)" if "(k, row) \<in> set active" for k row
    proof -
      have "map_of active k = Some row" using lease_fold_keys[OF a(1)] that by simp
      then have "last_grant rows k row" using lease_fold_lookup[OF a(1)] by simp
      then show ?thesis by (auto simp: last_grant_def lease_event_def)
    qed
    then show ?thesis by (auto simp: filter_map comp_def case_prod_beta intro!: arg_cong[where f = "map snd"] filter_cong)
  qed
  ultimately show ?thesis using a(2) a'(2) by (metis filter_True)
qed

section \<open>Capacity\<close>

text \<open>no scope that \<open>b\<close> may write meets one that \<open>a\<close> may write\<close>

definition apart :: "json \<Rightarrow> json \<Rightarrow> bool" where
  "apart a b \<longleftrightarrow> overlaps_writer (the_list (lease_field b ''write_scopes'')) a = Inr False"

definition provider_limit :: "json \<Rightarrow> string \<Rightarrow> int" where
  "provider_limit policy p = limit_for policy ''provider_concurrency_limits'' ''provider_concurrency_default'' (JStr p)"

definition host_limit :: "json \<Rightarrow> string \<Rightarrow> int" where
  "host_limit policy h = limit_for policy ''runtime_host_concurrency_limits'' ''runtime_host_concurrency_default'' (JStr h)"

text \<open>the tokens that active leases have reserved, and those known\<close>

definition reserved_tokens :: "json list \<Rightarrow> json list" where
  "reserved_tokens act = filter (\<lambda>v. is_int v \<or> is_bool v) (map (\<lambda>row. fld (fld row ''accounting'') ''token_reservation'') act)"

definition capped :: "json \<Rightarrow> json list \<Rightarrow> bool" where
  "capped policy act \<longleftrightarrow>
     int (length act) \<le> the_int (fld policy ''global_active_limit'') \<and>
     (\<forall>p. count_rows ''provider'' (JStr p) act \<le> provider_limit policy p) \<and>
     (\<forall>h. count_rows ''runtime_host'' (JStr h) act \<le> host_limit policy h) \<and>
     int (length (filter is_writer act)) \<le> ceiling_write_workers \<and>
     sorted_wrt (\<lambda>a b. is_writer a \<and> is_writer b \<longrightarrow> apart a b) act \<and>
     (\<forall>v \<in> set (reserved_tokens act). 0 \<le> int_value v) \<and>
     (fld policy ''token_capacity'' = JNull \<or>
        sum_list (map int_value (reserved_tokens act)) \<le> the_int (fld policy ''token_capacity''))"

definition within_policy :: "json \<Rightarrow> json list \<Rightarrow> bool" where
  "within_policy policy rows \<longleftrightarrow> (\<forall>act. active_rows rows = Inr act \<longrightarrow> capped policy act)"

lemma count_rows_filter: "count_rows k v (filter P rows) \<le> count_rows k v rows"
  unfolding count_rows_def by (induction rows) auto

lemma count_rows_snoc: "count_rows k v (rows @ [r]) = count_rows k v rows + (if py_eq (route_field r k) v then 1 else 0)"
  by (simp add: count_rows_def)

lemma reserved_snoc: "reserved_tokens (act @ [r]) = reserved_tokens act @ reserved_tokens [r]"
  by (simp add: reserved_tokens_def)

lemma reserved_filter:
  "set (reserved_tokens (filter P act)) \<subseteq> set (reserved_tokens act)"
  "\<forall>v \<in> set (reserved_tokens act). 0 \<le> int_value v \<Longrightarrow>
     sum_list (map int_value (reserved_tokens (filter P act))) \<le> sum_list (map int_value (reserved_tokens act))"
  unfolding reserved_tokens_def by (induction act) auto

lemma capped_filter:
  assumes "capped policy act"
  shows "capped policy (filter P act)"
proof -
  have "length (filter is_writer (filter P act)) \<le> length (filter is_writer act)" by (induction act) auto
  moreover have "length (filter P act) \<le> length act" by simp
  moreover note count_rows_filter[of _ _ P act] reserved_filter(1)[of P act] reserved_filter(2)[of act P]
  moreover have "sorted_wrt (\<lambda>a b. is_writer a \<and> is_writer b \<longrightarrow> apart a b) (filter P act)"
    using assms by (simp add: capped_def sorted_wrt_filter)
  ultimately show ?thesis
    using assms unfolding capped_def by (meson of_nat_mono order_trans subsetD)
qed

lemma within_end:
  assumes "within_policy policy rows" "event_type r \<noteq> ''lease_granted''"
  shows "within_policy policy (rows @ [r])"
  unfolding within_policy_def
proof (intro allI impI)
  fix act' assume a': "active_rows (rows @ [r]) = Inr act'"
  then obtain act where a: "active_rows rows = Inr act" by (auto simp: active_rows_def active_snoc bind_eq_Inr)
  then show "capped policy act'"
    using active_end[OF a assms(2) a'] capped_filter assms(1) by (auto simp: within_policy_def)
qed

section \<open>What an admission has checked\<close>

lemma or_else_None: "or_else m n = Inr None \<longleftrightarrow> m = Inr None \<and> n = Inr None"
  by (auto simp: or_else_def bind_eq_Inr split: option.splits)

lemma resource_rejection_None: "resource_rejection w route envelope policy rows board config = Inr None \<Longrightarrow>
    writer_rejection envelope policy rows board config = Inr None \<and> capacity_rejection route policy rows = None \<and>
    token_rejection route policy rows = None"
  by (simp add: resource_rejection_def or_else_None bind_eq_Inr)

lemma sched_positive_eq_Inr: "sched_positive v field least = Inr n \<longleftrightarrow> v = JInt n \<and> least \<le> n"
  by (cases v) (auto simp: sched_positive_def)

lemma survey_step:
  assumes "survey_route sha w envelope policy rows active now board config t raw = Inr t'"
  shows "eligible t' = eligible t \<or> (\<exists>r. eligible t' = eligible t @ [r] \<and> validate_route sha w raw = Inr r \<and>
    route_verdict sha w r envelope policy rows active now board config = Inr ''eligible'')"
  using assms unfolding survey_route_def Let_def
  by (elim bindE raiseE InrE) (simp split: if_splits)

lemma survey_fold:
  assumes "foldR (survey_route sha w envelope policy rows active now board config) \<lparr>seen_names = [], eligible = [], rejected = []\<rparr> candidates = Inr s"
    "r \<in> set (eligible s)"
  shows "\<exists>raw. validate_route sha w raw = Inr r \<and> route_verdict sha w r envelope policy rows active now board config = Inr ''eligible''"
proof -
  define ok where "ok r \<longleftrightarrow> (\<exists>raw. validate_route sha w raw = Inr r \<and>
    route_verdict sha w r envelope policy rows active now board config = Inr ''eligible'')" for r
  have "list_all ok (eligible s)"
  proof (rule foldR_invariant[OF assms(1), where P = "\<lambda>s. list_all ok (eligible s)"])
    show "list_all ok (eligible t')" if "list_all ok (eligible t)"
      "survey_route sha w envelope policy rows active now board config t raw = Inr t'" for t raw t'
      using survey_step[OF that(2)] that(1) unfolding ok_def[symmetric] by (auto simp: ok_def)
  qed simp
  then show ?thesis using assms(2) by (simp add: list_all_iff ok_def)
qed

lemma least_route_in: "least_route a best rs \<in> insert best (set rs)"
  by (induction rs arbitrary: best) auto

lemma select_route_in: "select_route envelope routes rows policy = Inr r \<Longrightarrow> r \<in> set routes"
proof -
  assume sel: "select_route envelope routes rows policy = Inr r"
  have window: "least_route a (hd (take n routes)) (tl (take n routes)) \<in> set routes" if "take n routes \<noteq> []" for a n
  proof -
    have "least_route a (hd (take n routes)) (tl (take n routes)) \<in> set (take n routes)"
      using least_route_in[of a "hd (take n routes)" "tl (take n routes)"] that by (cases "take n routes") simp_all
    then show ?thesis using set_take_subset by fastforce
  qed
  show ?thesis using sel
    by (auto simp del: take_eq_Nil take_eq_Nil2 simp: select_route_def bind_eq_Inr Let_def intro: window split: if_splits)
qed

section \<open>The lease that is granted\<close>

lemma fld_plan_record: "fld (plan_record sha q envelope sources v s chosen receipt) ''selected_route'' = chosen"
  by (cases receipt) (simp_all add: plan_record_def fld_upd fld_JObj_Cons Let_def)

lemma validate_envelope_same: "validate_envelope w envelope bindings now = Inr e \<Longrightarrow> e = envelope"
  unfolding validate_envelope_def by (elim bindE raiseE InrE) simp

lemma validate_policy_same: "validate_policy v = Inr p \<Longrightarrow> p = v"
  unfolding validate_policy_def strict_object_def by (elim bindE raiseE InrE) (simp split: if_splits)

lemma eligible_routes_verdict:
  assumes "eligible_routes sha w envelope candidates policy rows now board config = Inr s" "r \<in> set (eligible s)"
  shows "\<exists>act raw. active_rows rows = Inr act \<and> validate_route sha w raw = Inr r \<and>
    route_verdict sha w r envelope policy rows act now board config = Inr ''eligible''"
  using assms(1) unfolding eligible_routes_def
proof (elim bindE)
  fix act assume act: "active_rows rows = Inr act"
  assume "foldR (survey_route sha w envelope policy rows act now board config) \<lparr>seen_names = [], eligible = [], rejected = []\<rparr> candidates = Inr s"
  from survey_fold[OF this assms(2)] act show ?thesis by blast
qed

lemma plan_facts:
  assumes "plan sha flt msg w content q = Inr scheduled" "fld scheduled ''selected_route'' \<noteq> JNull"
  shows "\<exists>v act raw. verify_ledger sha flt msg None content = Inr v \<and> active_rows (ledger_rows v) = Inr act \<and>
    validate_route sha w raw = Inr (fld scheduled ''selected_route'') \<and>
    route_verdict sha w (fld scheduled ''selected_route'') (arg_envelope q) (arg_policy q) (ledger_rows v) act
      (JStr (arg_now q)) (arg_board q) (arg_config q) = Inr ''eligible''"
proof -
  obtain env sources policy v receipt candidates s chosen where p:
    "validate_envelope w (arg_envelope q) (arg_bindings q) (JStr (arg_now q)) = Inr env"
    "validate_policy (arg_policy q) = Inr policy"
    "verify_ledger sha flt msg None content = Inr v"
    "eligible_routes sha w env candidates policy (ledger_rows v) (JStr (arg_now q)) (arg_board q) (arg_config q) = Inr s"
    "(if eligible s = [] then Inr JNull else select_route env (eligible s) (ledger_rows v) policy) = Inr chosen"
    "scheduled = plan_record sha q env sources v s chosen receipt"
    using assms(1) unfolding plan_def case_prod_beta
    by (elim bindE raiseE InrE) (rule that, assumption+)
  have "chosen \<in> set (eligible s)"
    using p(5,6) assms(2) by (auto simp: fld_plan_record split: if_splits dest: select_route_in)
  from eligible_routes_verdict[OF p(4) this] p(3) show ?thesis
    using validate_envelope_same[OF p(1)] validate_policy_same[OF p(2)] by (simp add: p(6) fld_plan_record)
qed

lemma check_selection_fld: "check_selection w route = Inr route' \<Longrightarrow> k \<noteq> ''explicit_selection'' \<Longrightarrow> fld route' k = fld route k"
  unfolding check_selection_def Let_def
  by (auto simp: bind_eq_Inr fld_upd split: if_splits sum.splits)

lemma route_texts_valid:
  assumes "validate_route sha w raw = Inr route" "f \<in> set route_texts"
  shows "nonblank (fld route f)"
proof -
  have "f \<noteq> ''explicit_selection''" using assms(2) by (auto simp: route_texts_def)
  then show ?thesis using assms unfolding validate_route_def Let_def
    by (elim bindE raiseE InrE) (simp add: eachR_eq_Inr guard_eq_Inr check_selection_fld)
qed

definition no_verdict :: "string option result \<Rightarrow> bool" where
  "no_verdict m \<longleftrightarrow> m \<noteq> Inr (Some ''eligible'')"

lemma no_verdict_or_else: "no_verdict m \<Longrightarrow> no_verdict n \<Longrightarrow> no_verdict (or_else m n)"
  by (auto simp: no_verdict_def or_else_def bind_eq_Inr split: option.splits)

lemma no_verdict_bind: "(\<And>x. m = Inr x \<Longrightarrow> no_verdict (f x)) \<Longrightarrow> no_verdict (bind m f)"
  by (cases m) (auto simp: no_verdict_def)

lemma no_verdict_if: "no_verdict m \<Longrightarrow> no_verdict n \<Longrightarrow> no_verdict (if b then m else n)"
  by simp

lemma no_verdict_value: "no_verdict (Inl e)" "no_verdict (Inr None)" "c \<noteq> ''eligible'' \<Longrightarrow> no_verdict (Inr (Some c))"
  "no_verdict (Inr (if b then None else Some c)) \<longleftrightarrow> b \<or> c \<noteq> ''eligible''" "no_verdict (Inr (if b then Some c else None)) \<longleftrightarrow> \<not> b \<or> c \<noteq> ''eligible''"
  by (auto simp: no_verdict_def)

lemma rejection_not_eligible: "no_verdict (resource_rejection w route envelope policy rows board config)"
proof -
  have "no_verdict (writer_rejection envelope policy rows board config)"
    unfolding writer_rejection_def Let_def by (intro no_verdict_if no_verdict_bind) (simp_all add: no_verdict_value)
  moreover have "no_verdict (Inr (capacity_rejection route policy rows))"
    by (simp add: capacity_rejection_def no_verdict_def)
  moreover have "no_verdict (independence_rejection route envelope rows)"
    unfolding independence_rejection_def Let_def by (intro no_verdict_if no_verdict_bind) (simp_all add: no_verdict_value)
  moreover have "no_verdict (allowance_rejection w route envelope policy rows)"
    unfolding allowance_rejection_def Let_def
    by (cases "get (fld policy ''allowance_limits'') (the_str (fld (fld envelope ''budget'') ''allowance_class''))")
      (auto intro!: no_verdict_bind simp: no_verdict_value)
  moreover have "no_verdict (cash_rejection route envelope)"
    unfolding cash_rejection_def Let_def by (intro no_verdict_if no_verdict_bind) (simp_all add: no_verdict_value)
  moreover have "no_verdict (Inr (token_rejection route policy rows))"
    by (simp add: token_rejection_def no_verdict_def Let_def)
  ultimately show ?thesis
    unfolding resource_rejection_def by (intro no_verdict_bind no_verdict_or_else)
qed

lemma history_not_eligible: "history_conflict envelope route rows \<noteq> Some ''eligible''"
  by (induction rows) auto

lemma passE: "(if r \<noteq> ''eligible'' then Inr r else n) = Inr ''eligible'' \<Longrightarrow> (n = Inr ''eligible'' \<Longrightarrow> P) \<Longrightarrow> P"
  by (cases "r = ''eligible''") simp_all

lemma verdict_facts:
  assumes "route_verdict sha w route envelope policy rows act now board config = Inr ''eligible''"
  shows "history_conflict envelope route (grants rows) = None" "writer_rejection envelope policy act board config = Inr None"
    "capacity_rejection route policy act = None" "token_rejection route policy act = None"
proof -
  let ?history = "history_conflict envelope route (grants rows)"
  let ?rest = "bind (resource_rejection w route envelope policy act board config) (\<lambda>r.
     Inr (case r of None \<Rightarrow> ''eligible'' | Some reason \<Rightarrow> reason))"
  have "(case ?history of Some reason \<Rightarrow> Inr reason | None \<Rightarrow> ?rest) = Inr ''eligible''"
    using assms unfolding route_verdict_def Let_def
    by (elim bindE passE)
  then have none: "?history = None" and rest: "?rest = Inr ''eligible''"
    using history_not_eligible[of envelope route "grants rows"] by (cases ?history; simp)+
  obtain r where r: "resource_rejection w route envelope policy act board config = Inr r"
    "(case r of None \<Rightarrow> ''eligible'' | Some reason \<Rightarrow> reason) = ''eligible''"
    using rest by (elim bindE) simp
  then have "r = None"
    using rejection_not_eligible[of w route envelope policy act board config] by (cases r) (simp_all add: no_verdict_def)
  then show "writer_rejection envelope policy act board config = Inr None" "capacity_rejection route policy act = None"
    "token_rejection route policy act = None"
    using r(1) by (simp_all add: resource_rejection_None)
  show "?history = None" by (rule none)
qed

lemma new_lease_facts:
  assumes "new_lease envelope i token claim now expires = Inr lease"
  shows "fld lease ''lease_id'' = JStr i" "fld lease ''fencing_token'' = JInt token"
    "fld lease ''writer'' = JBool (fld envelope ''mutation_mode'' = JStr ''scoped_write'')"
    "\<exists>ps. fld lease ''write_scopes'' = JList (map JStr ps) \<and> (fld envelope ''mutation_mode'' = JStr ''scoped_write'' \<longrightarrow>
      (\<exists>qs. mapR normalize_scope (the_list (fld (fld envelope ''scope'') ''requested_write'')) = Inr qs \<and> ps = sort qs))"
  using assms unfolding new_lease_def Let_def sorted_scopes_def
  by (auto simp: bind_eq_Inr fld_JObj_Cons split: if_splits)

text \<open>The next lease fits when none of the capacities is used up.\<close>

lemma capped_grant:
  assumes "capped policy act" "capacity_rejection route policy act = None" "writer_rejection envelope policy act board config = Inr None"
    "token_rejection route policy act = None" "fld route ''token_reservation'' = JStr ''unknown'' \<or> (\<exists>n. fld route ''token_reservation'' = JInt n \<and> 0 \<le> n)"
    "route_field r ''provider'' = fld route ''provider''" "route_field r ''runtime_host'' = fld route ''runtime_host''"
    "is_str (fld route ''provider'')" "is_str (fld route ''runtime_host'')"
    "fld (fld r ''accounting'') ''token_reservation'' = fld route ''token_reservation''"
    "lease_field r ''writer'' = JBool (fld envelope ''mutation_mode'' = JStr ''scoped_write'')"
    "lease_field r ''write_scopes'' = JList (map JStr ps)"
    "fld envelope ''mutation_mode'' = JStr ''scoped_write'' \<Longrightarrow>
      \<exists>qs. mapR normalize_scope (the_list (fld (fld envelope ''scope'') ''requested_write'')) = Inr qs \<and> ps = sort qs"
  shows "capped policy (act @ [r])"
proof -
  have capacity: "int (length act) < the_int (fld policy ''global_active_limit'')"
    "count_rows ''provider'' (fld route ''provider'') act < limit_for policy ''provider_concurrency_limits'' ''provider_concurrency_default'' (fld route ''provider'')"
    "count_rows ''runtime_host'' (fld route ''runtime_host'') act <
      limit_for policy ''runtime_host_concurrency_limits'' ''runtime_host_concurrency_default'' (fld route ''runtime_host'')"
    using assms(2) by (auto simp: capacity_rejection_def split: if_splits)
  have provider: "count_rows ''provider'' (JStr p) (act @ [r]) \<le> provider_limit policy p" for p
    using assms(1,6,8) capacity(2) by (cases "fld route ''provider'' = JStr p")
      (auto simp: capped_def count_rows_snoc provider_limit_def elim!: is_strE)
  have host: "count_rows ''runtime_host'' (JStr h) (act @ [r]) \<le> host_limit policy h" for h
    using assms(1,7,9) capacity(3) by (cases "fld route ''runtime_host'' = JStr h")
      (auto simp: capped_def count_rows_snoc host_limit_def elim!: is_strE)
  have writers: "int (length (filter is_writer (act @ [r]))) \<le> ceiling_write_workers \<and>
      sorted_wrt (\<lambda>a b. is_writer a \<and> is_writer b \<longrightarrow> apart a b) (act @ [r])"
  proof (cases "fld envelope ''mutation_mode'' = JStr ''scoped_write''")
    case True
    then have "int (length (filter is_writer act)) < writer_limit board config"
      and overlap: "anyR (overlaps_writer (the_list (fld (fld envelope ''scope'') ''requested_write''))) (filter is_writer act) = Inr False"
      using assms(3) by (auto simp: writer_rejection_def Let_def bind_eq_Inr split: if_splits)
    moreover have "writer_limit board config \<le> ceiling_write_workers" by (simp add: writer_limit_def)
    moreover obtain qs where qs: "mapR normalize_scope (the_list (fld (fld envelope ''scope'') ''requested_write'')) = Inr qs" "ps = sort qs"
      using assms(13)[OF True] by blast
    have "apart a r" if "a \<in> set act" "is_writer a" for a
      using overlaps_writer_normal[OF qs(1)] overlap that by (simp add: apart_def assms(12) qs(2) anyR_False)
    ultimately show ?thesis using assms(1) by (auto simp: capped_def sorted_wrt_append)
  next
    case False
    then have "\<not> is_writer r" using assms(11) by (simp add: is_writer_def)
    then show ?thesis using assms(1) by (simp add: capped_def sorted_wrt_append)
  qed
  have tokens: "(\<forall>v \<in> set (reserved_tokens (act @ [r])). 0 \<le> int_value v) \<and> (fld policy ''token_capacity'' = JNull \<or>
      sum_list (map int_value (reserved_tokens (act @ [r]))) \<le> the_int (fld policy ''token_capacity''))"
  proof -
    have new: "reserved_tokens [r] = (if is_int (fld route ''token_reservation'') \<or> is_bool (fld route ''token_reservation'')
        then [fld route ''token_reservation''] else [])"
      by (simp add: reserved_tokens_def assms(10))
    have "fld policy ''token_capacity'' = JNull \<or> reserved_tokens [r] = [] \<or>
        sum_list (map int_value (reserved_tokens act)) + int_value (fld route ''token_reservation'') \<le> the_int (fld policy ''token_capacity'')"
      using assms(4,5) new by (auto simp: token_rejection_def Let_def reserved_tokens_def int_value_def split: if_splits json.splits)
    then show ?thesis using assms(1,5) by (auto simp: capped_def reserved_snoc new int_value_def)
  qed
  show ?thesis using provider host writers tokens capacity(1) by (simp add: capped_def)
qed

end
