(* ===== verification/Admission_Safety.thy ===== *)
theory Admission_Safety
  imports Admission_Properties
begin

text \<open>
  The scheduler as a state machine over the ledger: a step is a call that succeeds, in any state of
  the world, or an event that another script appends and that grants no lease. On every path from
  no ledger the capacities of the policy hold and active writers are apart.
\<close>

section \<open>Calls\<close>

datatype sched_call =
    Admit arguments string string int
  | Release string int string
  | Recover string int string
  | Unknown string int string string

fun sched_run :: "(string \<Rightarrow> string) \<Rightarrow> (string \<Rightarrow> json) \<Rightarrow> (string \<Rightarrow> string) \<Rightarrow> world \<Rightarrow> string option \<Rightarrow> sched_call \<Rightarrow> (string option \<times> json) result" where
  "sched_run sha flt msg w c (Admit q i claim n) = admit sha flt msg w c q i claim n"
| "sched_run sha flt msg w c (Release i n now) = release_lease sha flt msg c i n now"
| "sched_run sha flt msg w c (Recover i n now) = recover_lease sha flt msg w c i n now"
| "sched_run sha flt msg w c (Unknown i n now reason) = execution_unknown sha flt msg c i n now reason"

fun call_event :: "(string \<Rightarrow> string) \<Rightarrow> (string \<Rightarrow> json) \<Rightarrow> (string \<Rightarrow> string) \<Rightarrow> world \<Rightarrow> string option \<Rightarrow> sched_call \<Rightarrow> json result" where
  "call_event sha flt msg w c (Admit q i claim n) = bind (grant sha flt msg w c q i claim n) (\<lambda>(scheduled, lease, event). Inr event)"
| "call_event sha flt msg w c (Release i n now) = bind (verify_ledger sha flt msg None c) (\<lambda>v. release_event sha (ledger_rows v) i n now)"
| "call_event sha flt msg w c (Recover i n now) = bind (verify_ledger sha flt msg None c) (\<lambda>v. recover_event sha w (ledger_rows v) i n now)"
| "call_event sha flt msg w c (Unknown i n now reason) = bind (verify_ledger sha flt msg None c) (\<lambda>v. unknown_event sha (ledger_rows v) i n now reason)"

fun call_id :: "sched_call \<Rightarrow> string" where
  "call_id (Admit q i claim n) = i"
| "call_id (Release i n now) = i"
| "call_id (Recover i n now) = i"
| "call_id (Unknown i n now reason) = i"

fun call_token :: "sched_call \<Rightarrow> int" where
  "call_token (Admit q i claim n) = n"
| "call_token (Release i n now) = n"
| "call_token (Recover i n now) = n"
| "call_token (Unknown i n now reason) = n"

fun is_admit :: "sched_call \<Rightarrow> bool" where
  "is_admit (Admit q i claim n) = True"
| "is_admit (Release i n now) = False"
| "is_admit (Recover i n now) = False"
| "is_admit (Unknown i n now reason) = False"

fun under :: "json \<Rightarrow> sched_call \<Rightarrow> bool" where
  "under policy (Admit q i claim n) = (arg_policy q = policy)"
| "under policy (Release i n now) = True"
| "under policy (Recover i n now) = True"
| "under policy (Unknown i n now reason) = True"

text \<open>A call that succeeds has appended its event.\<close>

lemma sched_run_append:
  assumes "sched_run sha flt msg w c call = Inr (c', answer)"
  shows "\<exists>event r. call_event sha flt msg w c call = Inr event \<and> append_ledger sha flt msg None None c event = Inr (c', r)"
  using assms by (cases call) (auto simp: admit_def release_lease_def recover_lease_def execution_unknown_def bind_eq_Inr split: prod.splits if_splits)

lemma held_event_type: "held_event rows i n stale = Inr event \<Longrightarrow> \<exists>row. find_active rows i = Inr row \<and>
    py_eq (lease_field row ''fencing_token'') (JInt n) \<and> event = event_part row"
  by (auto simp: held_event_def bind_eq_Inr split: if_splits)

lemma next_event_type: "event_type (set_lease k v event) = event_type event"
  "event_type (next_event sha seed kind now event) = kind"
  by (simp_all add: set_lease_def next_event_def event_type_def fld_upd)

lemma ending_event:
  assumes "call_event sha flt msg w c call = Inr event" "\<not> is_admit call" "verify_ledger sha flt msg None c = Inr v"
  shows "event_type event \<in> {''lease_released'', ''lease_recovered'', ''execution_unknown''}"
    "\<exists>stale base. held_event (ledger_rows v) (call_id call) (call_token call) stale = Inr base"
  using assms by (cases call; auto simp: release_event_def recover_event_def unknown_event_def bind_eq_Inr next_event_type
      event_type_def fld_upd next_event_def set_lease_def split: if_splits)+

section \<open>The granted row\<close>

text \<open>what an admission has checked when it comes to its event\<close>

lemma grant_facts:
  assumes "grant sha flt msg w c q i claim n = Inr (scheduled, lease, event)"
  shows "\<exists>v act raw route expires. verify_ledger sha flt msg None c = Inr v \<and> active_rows (ledger_rows v) = Inr act \<and>
    fld scheduled ''selected_route'' = route \<and> validate_route sha w raw = Inr route \<and>
    route_verdict sha w route (arg_envelope q) (arg_policy q) (ledger_rows v) act (JStr (arg_now q)) (arg_board q) (arg_config q) = Inr ''eligible'' \<and>
    i \<noteq> [] \<and> (\<forall>row \<in> set (ledger_rows v). \<not> lease_text i row) \<and>
    (\<exists>fence. fence_for n (fld (arg_envelope q) ''task_id'') (ledger_rows v) = Inr fence \<and> py_eq fence (JInt n)) \<and>
    new_lease (arg_envelope q) i n claim (arg_now q) expires = Inr lease \<and>
    sched_event sha (arg_envelope q) (arg_bindings q) ''lease_granted'' (arg_now q) (route_event route) lease
      (reservation (arg_envelope q) route) (grant_evidence (arg_envelope q) (arg_bindings q) route scheduled) = Inr event"
proof -
  obtain v expires fence lease' event' scheduled' where p: "\<not> (i = [] \<or> claim = [])" "plan sha flt msg w c q = Inr scheduled'" "fld scheduled' ''selected_route'' \<noteq> JNull"
    "verify_ledger sha flt msg None c = Inr v" "\<not> list_ex (\<lambda>row. lease_id_of row = JStr i) (ledger_rows v)"
    "fence_for n (fld (arg_envelope q) ''task_id'') (ledger_rows v) = Inr fence" "\<not> \<not> py_eq fence (JInt n)"
    "new_lease (arg_envelope q) i n claim (arg_now q) expires = Inr lease'"
    "sched_event sha (arg_envelope q) (arg_bindings q) ''lease_granted'' (arg_now q) (route_event (fld scheduled' ''selected_route'')) lease'
      (reservation (arg_envelope q) (fld scheduled' ''selected_route'')) (grant_evidence (arg_envelope q) (arg_bindings q) (fld scheduled' ''selected_route'') scheduled') = Inr event'"
    "(scheduled, lease, event) = (scheduled', lease', event')"
    using assms unfolding grant_def Let_def
    by (elim bindE raiseE InrE) (rule that, assumption+)
  obtain v' act raw where q: "verify_ledger sha flt msg None c = Inr v'" "active_rows (ledger_rows v') = Inr act"
    "validate_route sha w raw = Inr (fld scheduled ''selected_route'')"
    "route_verdict sha w (fld scheduled ''selected_route'') (arg_envelope q) (arg_policy q) (ledger_rows v') act
      (JStr (arg_now q)) (arg_board q) (arg_config q) = Inr ''eligible''"
    using plan_facts[OF p(2,3)] p(10) by auto
  have "v' = v" using p(4) q(1) by simp
  then show ?thesis using p q by (auto simp: list_ex_iff lease_text_def)
qed

lemma sched_event_fields:
  assumes "sched_event sha envelope bindings kind now route lease accounting evidence = Inr event"
  shows "fld event ''event_type'' = JStr kind" "fld event ''route'' = route" "fld event ''lease'' = lease"
    "fld event ''accounting'' = accounting" "fld event ''evidence'' = evidence"
  using assms unfolding sched_event_def Let_def by (elim bindE raiseE InrE; simp add: fld_JObj_Cons)+

text \<open>a row of the ledger that an event was read back as\<close>

definition read_back :: "json \<Rightarrow> json \<Rightarrow> bool" where
  "read_back event row \<longleftrightarrow> (\<forall>field \<in> set event_fields. fld row field = canon (fld event field))"

lemma read_back_fields:
  assumes "read_back event row"
  shows "event_type row = event_type event" "fld (fld row ''lease'') k = canon (fld (fld event ''lease'') k)"
    "fld (fld row ''route'') k = canon (fld (fld event ''route'') k)"
    "fld (fld row ''accounting'') k = canon (fld (fld event ''accounting'') k)"
    "fld (fld row ''evidence'') k = canon (fld (fld event ''evidence'') k)"
  using assms by (simp_all add: read_back_def event_fields_def event_type_def canon_simps)

lemma route_amounts:
  assumes "validate_route sha w raw = Inr route"
  shows "fld route ''token_reservation'' = JStr ''unknown'' \<or> (\<exists>n. fld route ''token_reservation'' = JInt n \<and> 0 \<le> n)"
proof -
  have "\<exists>r u. check_amounts r = Inr u \<and> fld route ''token_reservation'' = fld r ''token_reservation''"
    using assms unfolding validate_route_def Let_def by (elim bindE raiseE InrE) (auto simp: check_selection_fld)
  then show ?thesis
    unfolding check_amounts_def by (auto simp: bind_eq_Inr sched_positive_eq_Inr split: if_splits)
qed

lemma within_granted:
  assumes "grant sha flt msg w c q i claim n = Inr (scheduled, lease, event)" "read_back event row"
    "verify_ledger sha flt msg None c = Inr v" "within_policy (arg_policy q) (ledger_rows v)"
  shows "within_policy (arg_policy q) (ledger_rows v @ [row])"
proof -
  obtain act raw route expires where f: "active_rows (ledger_rows v) = Inr act" "validate_route sha w raw = Inr route"
    "route_verdict sha w route (arg_envelope q) (arg_policy q) (ledger_rows v) act (JStr (arg_now q)) (arg_board q) (arg_config q) = Inr ''eligible''"
    "i \<noteq> []" "\<forall>row \<in> set (ledger_rows v). \<not> lease_text i row"
    "new_lease (arg_envelope q) i n claim (arg_now q) expires = Inr lease"
    "sched_event sha (arg_envelope q) (arg_bindings q) ''lease_granted'' (arg_now q) (route_event route) lease
      (reservation (arg_envelope q) route) (grant_evidence (arg_envelope q) (arg_bindings q) route scheduled) = Inr event"
    using grant_facts[OF assms(1)] assms(3) by auto
  note e = sched_event_fields[OF f(7)] and l = new_lease_facts[OF f(6)] and row = read_back_fields[OF assms(2)]
  note names = route_texts_valid[OF f(2)]
  obtain ps where ps: "fld lease ''write_scopes'' = JList (map JStr ps)"
    "fld (arg_envelope q) ''mutation_mode'' = JStr ''scoped_write'' \<longrightarrow>
      (\<exists>qs. mapR normalize_scope (the_list (fld (fld (arg_envelope q) ''scope'') ''requested_write'')) = Inr qs \<and> ps = sort qs)"
    using l(4) by blast
  obtain p h where strs: "fld route ''provider'' = JStr p" "fld route ''runtime_host'' = JStr h"
    using names[of "''provider''"] names[of "''runtime_host''"] by (auto simp: route_texts_def nonblank_def elim!: is_strE)
  have fields: "route_field row ''provider'' = fld route ''provider''" "route_field row ''runtime_host'' = fld route ''runtime_host''"
    "lease_field row ''writer'' = JBool (fld (arg_envelope q) ''mutation_mode'' = JStr ''scoped_write'')"
    "lease_field row ''write_scopes'' = JList (map JStr ps)"
    using strs ps(1) by (simp_all add: row e l route_event_def fld_JObj_Cons comp_def)
  have tokens: "fld (fld row ''accounting'') ''token_reservation'' = fld route ''token_reservation''"
    using route_amounts[OF f(2)] by (auto simp: row e reservation_def fld_JObj_Cons)
  have "event_type event = ''lease_granted''" using e(1) by (simp add: event_type_def)
  then have granted: "event_type row = ''lease_granted''" "lease_text i row"
    using e l by (simp_all add: row lease_text_def lease_id_of_def)
  have "capped (arg_policy q) act" using assms(4) f(1) by (simp add: within_policy_def)
  from capped_grant[OF this verdict_facts(3,2,4)[OF f(3)] route_amounts[OF f(2)] fields(1,2) _ _ tokens fields(3,4)]
  have "capped (arg_policy q) (act @ [row])" using ps(2) strs by simp
  then show ?thesis using active_grant[OF f(1,5) granted f(4)] by (simp add: within_policy_def)
qed

section \<open>Paths\<close>

inductive sched_path :: "(string \<Rightarrow> string) \<Rightarrow> (string \<Rightarrow> json) \<Rightarrow> (string \<Rightarrow> string) \<Rightarrow> json \<Rightarrow> string option \<Rightarrow> bool"
  for sha flt msg policy where
  start: "sched_path sha flt msg policy None"
| call: "sched_path sha flt msg policy c \<Longrightarrow> under policy op \<Longrightarrow> sched_run sha flt msg w c op = Inr (c', answer) \<Longrightarrow>
    call_event sha flt msg w c op = Inr event \<Longrightarrow> append_ledger sha flt msg None None c event = Inr (c', r) \<Longrightarrow>
    plain_record flt r \<Longrightarrow> sched_path sha flt msg policy c'"
| note_event: "sched_path sha flt msg policy c \<Longrightarrow> event_type event \<noteq> ''lease_granted'' \<Longrightarrow>
    append_ledger sha flt msg None None c event = Inr (c', r) \<Longrightarrow> plain_record flt r \<Longrightarrow> sched_path sha flt msg policy c'"

lemma appended_row:
  assumes "append_ledger sha flt msg None None c event = Inr (c', r)" "plain_record flt r" "verify_ledger sha flt msg None c = Inr v"
  shows "\<exists>v' row. verify_ledger sha flt msg None c' = Inr v' \<and> ledger_rows v' = ledger_rows v @ [row] \<and> read_back event row"
  using record_reads_back[OF assms(1)] assms(2,3) by (auto simp: plain_record_def read_back_def)

lemma limit_valid:
  assumes "check_limits policy limits = Inr u" "sched_positive (fld policy fallback) fallback 1 = Inr n"
  shows "0 \<le> limit_for policy limits fallback v"
proof -
  have "\<exists>m. x = JInt m \<and> 1 \<le> m" if "get (fld policy limits) (the_str v) = Some x" for x
  proof -
    have "(the_str v, x) \<in> set (the_obj (fld policy limits))" using that by (auto simp: get_def dest: map_of_SomeD split: json.splits)
    then show ?thesis using assms(1) by (fastforce simp: check_limits_def eachR_eq_Inr bind_eq_Inr sched_positive_eq_Inr split: if_splits)
  qed
  then show ?thesis
    using assms(2) by (cases "get (fld policy limits) (the_str v)") (auto simp: limit_for_def get_or_def sched_positive_eq_Inr)
qed

lemma policy_facts:
  assumes "validate_policy policy = Inr policy'"
  shows "\<exists>g p h. fld policy ''global_active_limit'' = JInt g \<and> 1 \<le> g \<and>
    sched_positive (fld policy ''provider_concurrency_default'') ''provider_concurrency_default'' 1 = Inr p \<and>
    sched_positive (fld policy ''runtime_host_concurrency_default'') ''runtime_host_concurrency_default'' 1 = Inr h"
    "check_limits policy ''provider_concurrency_limits'' = Inr ()" "check_limits policy ''runtime_host_concurrency_limits'' = Inr ()"
    "fld policy ''token_capacity'' = JNull \<or> (\<exists>n. fld policy ''token_capacity'' = JInt n \<and> 1 \<le> n)"
    "check_displacement (fld policy ''role_rank_displacement'') = Inr ()"
proof -
  obtain u1 u2 u3 where p: "eachR (\<lambda>f. sched_positive (fld policy' f) f 1) [''global_active_limit'', ''lease_ttl_seconds'',
       ''maximum_queue_age_seconds'', ''provider_concurrency_default'', ''runtime_host_concurrency_default''] = Inr u1"
    "eachR (check_limits policy') [''provider_concurrency_limits'', ''runtime_host_concurrency_limits'', ''allowance_limits''] = Inr u2"
    "(if fld policy' ''token_capacity'' = JNull then Inr 0 else sched_positive (fld policy' ''token_capacity'') ''token_capacity'' 1) = Inr u3"
    "check_displacement (fld policy' ''role_rank_displacement'') = Inr ()"
    using assms validate_policy_same[OF assms] unfolding validate_policy_def strict_object_def
    by (elim bindE raiseE InrE) (rule that, simp_all split: if_splits)
  show "\<exists>g p h. fld policy ''global_active_limit'' = JInt g \<and> 1 \<le> g \<and>
    sched_positive (fld policy ''provider_concurrency_default'') ''provider_concurrency_default'' 1 = Inr p \<and>
    sched_positive (fld policy ''runtime_host_concurrency_default'') ''runtime_host_concurrency_default'' 1 = Inr h"
    using p(1) validate_policy_same[OF assms] by (auto simp: bind_eq_Inr sched_positive_eq_Inr)
  show "check_limits policy ''provider_concurrency_limits'' = Inr ()" "check_limits policy ''runtime_host_concurrency_limits'' = Inr ()"
    using p(2) validate_policy_same[OF assms] by (auto simp: bind_eq_Inr)
  show "fld policy ''token_capacity'' = JNull \<or> (\<exists>n. fld policy ''token_capacity'' = JInt n \<and> 1 \<le> n)"
    using p(3) validate_policy_same[OF assms] by (auto simp: sched_positive_eq_Inr split: if_splits)
  show "check_displacement (fld policy ''role_rank_displacement'') = Inr ()"
    using p(4) validate_policy_same[OF assms] by simp
qed

lemma within_empty:
  assumes "validate_policy policy = Inr policy'"
  shows "within_policy policy []"
proof -
  note facts = policy_facts[OF assms]
  obtain g p h where ph: "fld policy ''global_active_limit'' = JInt g" "1 \<le> g"
    "sched_positive (fld policy ''provider_concurrency_default'') ''provider_concurrency_default'' 1 = Inr p"
    "sched_positive (fld policy ''runtime_host_concurrency_default'') ''runtime_host_concurrency_default'' 1 = Inr h"
    using facts(1) by blast
  have "0 \<le> provider_limit policy x" "0 \<le> host_limit policy x" for x
    using limit_valid[OF facts(2) ph(3)] limit_valid[OF facts(3) ph(4)] by (simp_all add: provider_limit_def host_limit_def)
  then show ?thesis
    using ph(1,2) facts(4) by (auto simp: within_policy_def active_rows_def capped_def count_rows_def reserved_tokens_def ceiling_write_workers_def)
qed

lemma path_within:
  assumes "sched_path sha flt msg policy c" "validate_policy policy = Inr policy'"
  shows "\<exists>v. verify_ledger sha flt msg None c = Inr v \<and> within_policy policy (ledger_rows v)"
  using assms(1)
proof induction
  case start
  then show ?case using within_empty[OF assms(2)] by (simp add: empty_ledger no_events_def)
next
  case (call c op w c' answer event r)
  then obtain v where v: "verify_ledger sha flt msg None c = Inr v" "within_policy policy (ledger_rows v)" by blast
  obtain v' row where row: "verify_ledger sha flt msg None c' = Inr v'" "ledger_rows v' = ledger_rows v @ [row]" "read_back event row"
    using appended_row[OF call(5,6) v(1)] by blast
  have "within_policy policy (ledger_rows v @ [row])"
  proof (cases "is_admit op")
    case True
    then show ?thesis using call(2,4) within_granted[OF _ row(3) v(1)] v(2)
      by (cases op) (auto simp: bind_eq_Inr split: prod.splits)
  next
    case False
    then show ?thesis using ending_event(1)[OF call(4) False v(1)] read_back_fields(1)[OF row(3)] v(2)
      by (intro within_end) auto
  qed
  then show ?case using row by auto
next
  case (note_event c event c' r)
  then obtain v where v: "verify_ledger sha flt msg None c = Inr v" "within_policy policy (ledger_rows v)" by blast
  obtain v' row where row: "verify_ledger sha flt msg None c' = Inr v'" "ledger_rows v' = ledger_rows v @ [row]" "read_back event row"
    using appended_row[OF note_event(3,4) v(1)] by blast
  then show ?case using within_end[OF v(2), of row] read_back_fields(1)[OF row(3)] note_event(2) by auto
qed


end
