(* ===== verification/Admission_Claims.thy ===== *)
theory Admission_Claims
  imports Complex_Main Admission_Safety
begin

text \<open>
  What an admission has never seen before, who may end a lease, and which route is selected.
\<close>

section \<open>Fencing tokens\<close>

definition amount :: "json \<Rightarrow> rat option" where
  "amount v = map_option (\<lambda>(m, k). of_int m / 2 ^ k) (num_value v)"

lemma num_le_amount: "num_le v w \<longleftrightarrow> (\<exists>x y. amount v = Some x \<and> amount w = Some y \<and> x \<le> y)"
proof -
  have "m * 2 ^ l \<le> n * 2 ^ k \<longleftrightarrow> (of_int m / 2 ^ k :: rat) \<le> of_int n / 2 ^ l" for m n :: int and k l :: nat
  proof -
    have "(of_int m / 2 ^ k :: rat) \<le> of_int n / 2 ^ l \<longleftrightarrow> of_int m * 2 ^ l \<le> (of_int n * 2 ^ k :: rat)"
      by (simp add: field_simps)
    also have "\<dots> \<longleftrightarrow> (of_int (m * 2 ^ l) :: rat) \<le> of_int (n * 2 ^ k)" by simp
    finally show ?thesis by (simp only: of_int_le_iff)
  qed
  then show ?thesis by (auto simp: num_le_def amount_def split: option.splits)
qed

lemma max_fold:
  assumes "foldR max_step m vs = Inr x" "amount m \<noteq> None"
  shows "num_le m x \<and> (\<forall>v \<in> set vs. num_le v x)"
  using assms
proof (induction vs arbitrary: m)
  case Nil
  then show ?case by (auto simp: num_le_amount)
next
  case (Cons v vs)
  then obtain m' where m': "max_step m v = Inr m'" "foldR max_step m' vs = Inr x" by (auto simp: bind_eq_Inr)
  then have "amount v \<noteq> None" "m' = (if num_le v m then m else v)"
    by (auto simp: max_step_def amount_def split: if_splits)
  then have "amount m' \<noteq> None" "num_le m m'" "num_le v m'" using Cons.prems(2) by (auto simp: num_le_amount)
  moreover have "num_le a c" if "num_le a b" "num_le b c" for a b c using that by (auto simp: num_le_amount)
  ultimately show ?case using Cons.IH[OF m'(2)] by auto
qed

lemma reduce_float_value: "reduce_float m k = (m', k') \<Longrightarrow> (of_int m' / 2 ^ k' :: rat) = of_int m / 2 ^ k"
proof (induction m k rule: reduce_float.induct)
  case (2 m k)
  show ?case
  proof (cases "even m")
    case True
    then obtain n where "m = 2 * n" by blast
    then show ?thesis using 2 by simp
  qed (use 2 in simp)
qed simp

lemma py_eq_amount: "py_eq v (JInt n) \<Longrightarrow> amount v = Some (of_int n)"
proof (cases v)
  case (JFloat m k r)
  assume "py_eq v (JInt n)"
  then have "reduce_float m k = (n, 0)"
    using JFloat by (auto simp: py_eq_def norm_float_def split: prod.splits if_splits)
  then show ?thesis using JFloat reduce_float_value[of m k n 0] by (simp add: amount_def num_value_def)
qed (auto simp: py_eq_def amount_def num_value_def)

lemma fence_least:
  assumes "fence_for n task rows = Inr fence" "py_eq fence (JInt n)" "row \<in> set rows" "py_eq (fld row ''task_id'') task"
  shows "num_le (get_or (fld row ''lease'') ''fencing_token'' (JInt 0)) (JInt n)"
proof -
  have "amount (JInt n) \<noteq> None" by (simp add: amount_def num_value_def)
  then have "num_le (get_or (fld row ''lease'') ''fencing_token'' (JInt 0)) fence"
    using max_fold[OF assms(1)[unfolded fence_for_def]] assms(3,4) by auto
  then show ?thesis using py_eq_amount[OF assms(2)] py_eq_amount[of "JInt n" n] by (simp add: num_le_amount)
qed

section \<open>What is never used again\<close>

lemma history_none: "history_conflict envelope route rows = None \<longleftrightarrow> (\<forall>row \<in> set rows.
    \<not> py_eq (evidence_field row ''idempotency_key'') (fld envelope ''envelope_id'') \<and>
    \<not> py_eq (evidence_field row ''output_path'') (fld route ''evidence_path''))"
  by (induction rows) auto

text \<open>
  C38: an admission is granted only to what the ledger has not seen: no row has the lease's id, no earlier
  grant has the envelope's id as idempotency key or the route's evidence path, and no row of the task has
  a higher fencing token.
\<close>

theorem admitted_fresh:
  assumes "admit sha flt msg w c q i claim n = Inr (c', answer)"
  shows "\<exists>v. verify_ledger sha flt msg None c = Inr v \<and> (\<forall>row \<in> set (ledger_rows v). lease_id_of row \<noteq> JStr i \<and>
    (event_type row = ''lease_granted'' \<longrightarrow> \<not> py_eq (evidence_field row ''idempotency_key'') (fld (arg_envelope q) ''envelope_id'') \<and>
       \<not> py_eq (evidence_field row ''output_path'') (fld (fld answer ''selected_route'') ''evidence_path'')) \<and>
    (py_eq (fld row ''task_id'') (fld (arg_envelope q) ''task_id'') \<longrightarrow>
       num_le (get_or (fld row ''lease'') ''fencing_token'' (JInt 0)) (JInt n)))"
proof -
  obtain scheduled lease event where g: "grant sha flt msg w c q i claim n = Inr (scheduled, lease, event)"
    and answer: "fld answer ''selected_route'' = fld scheduled ''selected_route''"
    using assms by (auto simp: admit_def bind_eq_Inr fld_upd split: prod.splits)
  obtain v act raw fence where f: "verify_ledger sha flt msg None c = Inr v"
    "route_verdict sha w (fld scheduled ''selected_route'') (arg_envelope q) (arg_policy q) (ledger_rows v) act (JStr (arg_now q)) (arg_board q) (arg_config q) = Inr ''eligible''"
    "\<forall>row \<in> set (ledger_rows v). \<not> lease_text i row"
    "fence_for n (fld (arg_envelope q) ''task_id'') (ledger_rows v) = Inr fence" "py_eq fence (JInt n)"
    using grant_facts[OF g] by blast
  have "row \<in> set (grants (ledger_rows v))" if "row \<in> set (ledger_rows v)" "event_type row = ''lease_granted''" for row
    using that by (simp add: grants_def)
  then show ?thesis
    using f(1,3) fence_least[OF f(4,5)] verdict_facts(1)[OF f(2)] by (auto simp: history_none answer lease_text_def)
qed

section \<open>Bound to the task\<close>

lemma passedE: "(if r \<noteq> ''eligible'' then Inr r else n) = Inr ''eligible'' \<Longrightarrow> (r = ''eligible'' \<Longrightarrow> n = Inr ''eligible'' \<Longrightarrow> P) \<Longrightarrow> P"
  by (cases "r = ''eligible''") simp_all

lemma verdict_resolver:
  "route_verdict sha w route envelope policy rows act now board config = Inr ''eligible'' \<Longrightarrow>
   verify_task_bound_resolver w route envelope (the_str now) = Inr ''eligible''"
  unfolding route_verdict_def Let_def by (elim bindE passedE) simp

text \<open>
  C37: an admission is granted only on a route whose resolver packet was made for this task: it names
  the task and the time of the call, the consequence, the token limit and exactly the sorted write
  scopes and authority scopes of the envelope; and the resolver answers it with a dispatch of this very
  route, its identity field by field, under a capability authority for it, approved under the task's
  own authority where it escalates.
\<close>

theorem admitted_for_task:
  assumes "admit sha flt msg w c q i claim n = Inr (c', answer)"
  shows "let route = fld answer ''selected_route''; packet = fld route ''resolver_packet'' in
    bound_packet packet (arg_envelope q) (arg_now q) \<and>
    (\<exists>receipt. resolve_route w packet = Inr (Inr receipt) \<and> dispatches receipt route (arg_envelope q))"
proof -
  obtain scheduled lease event where g: "grant sha flt msg w c q i claim n = Inr (scheduled, lease, event)"
    and answer: "fld answer ''selected_route'' = fld scheduled ''selected_route''"
    using assms by (auto simp: admit_def bind_eq_Inr fld_upd split: prod.splits)
  have "verify_task_bound_resolver w (fld answer ''selected_route'') (arg_envelope q) (arg_now q) = Inr ''eligible''"
    using grant_facts[OF g] verdict_resolver by (fastforce simp: answer)
  from verdict_eligible[OF this] show ?thesis by (simp add: Let_def)
qed

section \<open>Who may end a lease\<close>

lemma held_grant:
  assumes "held_event rows i n stale = Inr base"
  shows "\<exists>row. last_grant rows (JStr i) row \<and> py_eq (lease_field row ''fencing_token'') (JInt n)"
  using held_event_type[OF assms] lease_fold_lookup by (fastforce simp: find_active_def bind_eq_Inr split: option.splits)

lemma held_id: "held_event rows i n stale = Inr base \<Longrightarrow> lease_id_of base = JStr i \<and> i \<noteq> []"
proof -
  assume held: "held_event rows i n stale = Inr base"
  then obtain row active where row: "base = event_part row" "foldR lease_step [] rows = Inr active" "map_of active (JStr i) = Some row"
    using held_event_type[OF held] by (auto simp: find_active_def bind_eq_Inr split: option.splits)
  then have "last_grant rows (JStr i) row" using lease_fold_lookup by blast
  then have "lease_id_of row = JStr i" "truthy (lease_id_of row)" by (auto simp: last_grant_def lease_event_def norm_text)
  then show ?thesis using row(1) by (auto simp: lease_id_of_def fld_event_part event_fields_def truthy_def)
qed

lemma lease_id_kept: "k \<noteq> ''lease_id'' \<Longrightarrow> lease_id_of (set_lease k x event) = lease_id_of event"
  "lease_id_of (next_event sha seed kind now event) = lease_id_of event"
  by (simp_all add: lease_id_of_def set_lease_def next_event_def fld_upd)

lemma ended_base:
  "release_event sha rows i n now = Inr event \<Longrightarrow> \<exists>base. held_event rows i n ''stale_release'' = Inr base \<and>
     lease_id_of event = lease_id_of base \<and> event_type event \<in> set ended_leases"
  "recover_event sha w rows i n now = Inr event \<Longrightarrow> \<exists>base. held_event rows i n ''stale_recovery'' = Inr base \<and>
     lease_id_of event = lease_id_of base \<and> event_type event \<in> set ended_leases"
  by (auto simp: release_event_def recover_event_def bind_eq_Inr lease_id_kept next_event_type ended_leases_def split: if_splits)

lemma ended_event:
  assumes "call_event sha flt msg w c op = Inr event" "op = Release i n now \<or> op = Recover i n now"
  shows "lease_id_of event = JStr i \<and> i \<noteq> [] \<and> event_type event \<in> set ended_leases"
  using assms ended_base held_id by (elim disjE) (fastforce simp: bind_eq_Inr)+

text \<open>
  C39: only the holder ends a lease: a release or a recovery that succeeds names a lease whose last
  event grants it, with that grant's fencing token. Once it is written, no call about this lease
  succeeds any more, whatever the world: it cannot be ended twice, nor granted again.
\<close>

theorem lease_ends_once:
  assumes "sched_run sha flt msg w c op = Inr (c', answer)" "op = Release i n now \<or> op = Recover i n now"
    "call_event sha flt msg w c op = Inr event" "append_ledger sha flt msg None None c event = Inr (c', r)" "plain_record flt r"
  shows "(\<exists>v row. verify_ledger sha flt msg None c = Inr v \<and> last_grant (ledger_rows v) (JStr i) row \<and>
      py_eq (lease_field row ''fencing_token'') (JInt n)) \<and>
    (\<forall>w' op' x. call_id op' = i \<longrightarrow> sched_run sha flt msg w' c' op' \<noteq> Inr x)"
proof -
  obtain v where v: "verify_ledger sha flt msg None c = Inr v"
    using assms(4) by (auto simp: append_ledger_def bind_eq_Inr)
  have ending: "\<not> is_admit op" "call_id op = i" "call_token op = n" using assms(2) by auto
  obtain stale base where held: "held_event (ledger_rows v) i n stale = Inr base"
    using ending_event(2)[OF assms(3) ending(1) v] ending by auto
  obtain v' row where v': "verify_ledger sha flt msg None c' = Inr v'" "ledger_rows v' = ledger_rows v @ [row]" "read_back event row"
    using appended_row[OF assms(4,5) v] by blast
  note event = ended_event[OF assms(3,2)]
  have row: "lease_text i row" "lease_event (JStr i) row" "event_type row \<noteq> ''lease_granted''"
    using event read_back_fields[OF v'(3)] granted_not_ended
    by (auto simp: lease_text_def lease_event_def lease_id_of_def truthy_def)
  have "sched_run sha flt msg w' c' op' \<noteq> Inr x" if same: "call_id op' = i" for w' op' x
  proof
    assume "sched_run sha flt msg w' c' op' = Inr x"
    then obtain event' r' where again: "call_event sha flt msg w' c' op' = Inr event'"
      using sched_run_append by (cases x) blast
    show False
    proof (cases "is_admit op'")
      case True
      then show ?thesis using again same grant_facts v'(1,2) row(1)
        by (cases op') (fastforce simp: bind_eq_Inr split: prod.splits)+
    next
      case False
      obtain stale' base' where "held_event (ledger_rows v') i (call_token op') stale' = Inr base'"
        using ending_event(2)[OF again False v'(1)] unfolding same by blast
      from held_grant[OF this] show ?thesis using row(2,3) by (auto simp: v'(2) last_grant_snoc)
    qed
  qed
  then show ?thesis using v held_grant[OF held] by blast
qed

section \<open>Selection\<close>

definition accepted_by :: "string \<Rightarrow> json \<Rightarrow> json list \<Rightarrow> int" where
  "accepted_by k v rows = int (length (filter (\<lambda>row. event_type row = ''quality_accepted'' \<and>
     py_eq (get_or (fld row ''route'') k (JStr ''unknown'')) v) rows))"

definition accepted_rows :: "json list \<Rightarrow> int" where
  "accepted_rows rows = int (length (filter (\<lambda>row. event_type row = ''quality_accepted'') rows))"

text \<open>route \<open>a\<close> has been accepted less often than \<open>b\<close>: by provider, then by name\<close>

definition less_accepted :: "json list \<Rightarrow> json \<Rightarrow> json \<Rightarrow> bool" where
  "less_accepted rows a b \<longleftrightarrow>
     accepted_by ''provider'' (fld a ''provider'') rows < accepted_by ''provider'' (fld b ''provider'') rows \<or>
     accepted_by ''provider'' (fld a ''provider'') rows = accepted_by ''provider'' (fld b ''provider'') rows \<and>
     accepted_by ''route_name'' (fld a ''name'') rows < accepted_by ''route_name'' (fld b ''name'') rows"

definition diverse :: "json \<Rightarrow> json list \<Rightarrow> json list \<Rightarrow> json \<Rightarrow> bool" where
  "diverse envelope routes rows policy \<longleftrightarrow> the_str (fld envelope ''semantic_role'') \<in> set diverse_roles \<and>
     \<not> py_eq (fld (fld policy ''role_rank_displacement'') (the_str (fld envelope ''semantic_role''))) (JInt 0) \<and>
     the_int (fld policy ''diversity_min_quality_observations'') \<le> accepted_rows rows \<and> 2 \<le> length routes"

lemma acceptance_fold:
  "foldR count_acceptance \<lparr>by_provider = [], by_route = [], accepted_total = 0\<rparr> rows = Inr a \<Longrightarrow>
    accepted_total a = accepted_rows rows \<and> count_of (by_provider a) v = accepted_by ''provider'' v rows \<and>
    count_of (by_route a) v = accepted_by ''route_name'' v rows"
proof (induction rows arbitrary: a v rule: rev_induct)
  case (snoc row rows)
  then obtain b where b: "foldR count_acceptance \<lparr>by_provider = [], by_route = [], accepted_total = 0\<rparr> rows = Inr b"
    "count_acceptance b row = Inr a" by (auto simp: foldR_snoc_Inr)
  have "count_of counts' v = count_of counts v + (if norm k = norm v then 1 else 0)" if "count_key k counts = Inr counts'" for k v counts counts'
    using that by (auto simp: count_key_def count_of_def update_conv split: if_splits option.splits)
  then show ?case using b(2) snoc.IH[OF b(1)]
    by (auto simp: count_acceptance_def bind_eq_Inr accepted_rows_def accepted_by_def py_eq_def split: if_splits)
qed (auto simp: accepted_rows_def accepted_by_def count_of_def)

lemma displacement_valid:
  assumes "validate_policy policy = Inr policy'" "role \<in> set semantic_roles"
  shows "py_eq (fld (fld policy ''role_rank_displacement'') role) (JInt 0) \<or> py_eq (fld (fld policy ''role_rank_displacement'') role) (JInt 1)"
proof -
  let ?v = "fld policy ''role_rank_displacement''"
  obtain kvs where kvs: "?v = JObj kvs" "JStr role \<in> set (map (JStr \<circ> fst) kvs)"
    using policy_facts(5)[OF assms(1)] assms(2)
    by (auto simp: check_displacement_def bind_eq_Inr py_set_def py_iter_def list_all_iff is_obj_def split: if_splits json.splits)
  then obtain d where d: "map_of kvs role = Some d" by (cases "map_of kvs role") (auto simp: map_of_eq_None_iff)
  then have "(role, d) \<in> set (the_obj ?v)" by (simp add: kvs(1) map_of_SomeD)
  moreover have "fld ?v role = d" using d kvs(1) by (simp add: fld_def get_def)
  ultimately show ?thesis
    using policy_facts(5)[OF assms(1)] by (fastforce simp: check_displacement_def bind_eq_Inr eachR_eq_Inr guard_eq_Inr split: if_splits)
qed

text \<open>
  C40: of the eligible routes the first is selected, unless the role is diverse (worker, tester, documenter
  or auditor, with a displacement and enough quality acceptances) and the second has been accepted less
  often, by its provider and then by its name: then the second. A later route is never selected.
\<close>

theorem select_route_exact:
  assumes "validate_policy policy = Inr policy" "select_route envelope routes rows policy = Inr r"
  shows "r = (if diverse envelope routes rows policy \<and> less_accepted rows (routes ! 1) (routes ! 0) then routes ! 1 else routes ! 0)"
proof -
  let ?role = "the_str (fld envelope ''semantic_role'')" and ?d = "displacement_of policy (the_str (fld envelope ''semantic_role''))"
  obtain a where a: "foldR count_acceptance \<lparr>by_provider = [], by_route = [], accepted_total = 0\<rparr> rows = Inr a" and "routes \<noteq> []"
    using assms(2) by (auto simp: select_route_def bind_eq_Inr split: if_splits)
  then obtain r0 rs where routes: "routes = r0 # rs" by (cases routes) auto
  note counts = acceptance_fold[OF a]
  have diverse: "diverse envelope routes rows policy \<longleftrightarrow>
      \<not> (accepted_total a < the_int (fld policy ''diversity_min_quality_observations'') \<or> py_eq ?d (JInt 0) \<or> length routes = 1)"
    using counts by (auto simp: diverse_def displacement_of_def routes Suc_le_eq)
  show ?thesis
  proof (cases "diverse envelope routes rows policy")
    case True
    then have role: "?role \<in> set diverse_roles" "\<not> py_eq ?d (JInt 0)" by (auto simp: diverse_def displacement_of_def)
    then have "?role \<in> set semantic_roles" by (auto simp: diverse_roles_def semantic_roles_def)
    then have one: "py_eq ?d (JInt 1)" using displacement_valid[OF assms(1)] role by (auto simp: displacement_of_def)
    moreover have "is_int ?d \<or> is_bool ?d" using assms(2) a True \<open>routes \<noteq> []\<close>
      unfolding diverse by (auto simp: select_route_def Let_def split: if_splits)
    ultimately have "int_value ?d = 1" by (cases ?d) (auto simp: int_value_def py_eq_def split: if_splits)
    moreover obtain r1 rs' where "rs = r1 # rs'" using True by (cases rs) (auto simp: diverse_def routes)
    ultimately have "r = least_route a r0 [r1]" "routes ! 1 = r1"
      using assms(2) a True \<open>is_int ?d \<or> is_bool ?d\<close> unfolding diverse
      by (auto simp: select_route_def Let_def routes split: if_splits)
    then show ?thesis using True counts by (auto simp: routes less_accepted_def rank_less_def route_rank_def)
  next
    case False
    then show ?thesis using assms(2) a unfolding diverse by (auto simp: select_route_def Let_def routes split: if_splits)
  qed
qed

end
