(* ===== verification/Admission_Sample.thy ===== *)
theory Admission_Sample
  imports Admission_Claims
begin

text \<open>
  A task, its route and the broker's state, and an admission on no ledger: the instances of the
  scheduler's properties.
\<close>

section \<open>The task\<close>

definition task_sha :: json where
  "task_sha = JStr (sha_prefix @ demo_hash)"

definition a_policy :: json where
  "a_policy = JObj [(''schema_version'', JInt 1), (''activation'', JStr ''explicit_only''), (''global_active_limit'', JInt 2),
     (''lease_ttl_seconds'', JInt 600), (''maximum_queue_age_seconds'', JInt 3600), (''provider_concurrency_default'', JInt 1),
     (''runtime_host_concurrency_default'', JInt 1), (''provider_concurrency_limits'', JObj []),
     (''runtime_host_concurrency_limits'', JObj []), (''allowance_limits'', JObj [(''plan'', JInt 5)]), (''token_capacity'', JNull),
     (''diversity_min_quality_observations'', JInt 0),
     (''role_rank_displacement'', JObj [(''planner'', JInt 0), (''architect'', JInt 0), (''worker'', JInt 1), (''tester'', JInt 1),
        (''documenter'', JInt 1), (''auditor'', JInt 1)]),
     (''unknown_cost_policy'', JStr ''preserve_unknown_and_reject_cash''), (''hedging_enabled'', JBool False),
     (''direct_repository_writes_enabled'', JBool True), (''artifact_quality_policy'', JStr ''Q-1'')]"

definition the_bindings :: json where
  "the_bindings = JObj (map (\<lambda>f. (f, task_sha)) supplied_fields)"

definition an_envelope :: json where
  "an_envelope = JObj [(''schema_version'', JInt 1), (''artifact_type'', JStr ''DispatchTaskEnvelope''), (''bindings'', the_bindings),
     (''execution'', JObj [(''hedge_requested'', JBool False)]),
     (''queue'', JObj [(''enqueued_at'', JStr ''2026-01-01T00:00:00Z''), (''deadline'', JStr ''2026-01-02T00:00:00Z''),
        (''max_queue_age_seconds'', JInt 600)]),
     (''mutation_mode'', JStr ''scoped_write''), (''envelope_id'', JStr ''E-1''), (''goal_id'', JStr ''G-1''),
     (''checkpoint_id'', JStr ''C-1''), (''task_id'', JStr ''T-1''), (''assignment_id'', JStr ''A-1''), (''semantic_role'', JStr ''worker''),
     (''scope'', JObj [(''requested_write'', JList [JStr ''src/a''])]), (''consequence'', JStr ''low''), (''source'', JObj [(''source_mode'', JStr ''diff'')]),
     (''budget'', JObj [(''accounting'', JObj []), (''allowance_class'', JStr ''plan'')]),
     (''independence'', JObj [(''required'', JBool False), (''exclusions'', JList [])]), (''quality_policy'', JObj [(''policy_id'', JStr ''Q-1'')]),
     (''task_class'', JStr ''semantic_worker_implementation'')]"

definition b_key :: json where
  "b_key = JObj [(''provider'', JStr ''p''), (''exact_model'', JStr ''m''), (''route_id'', JStr ''r-1''), (''runtime'', JStr ''run''),
     (''reasoning'', JStr ''high''), (''proof_mode'', JStr ''scheduler_scoped_write'')]"

definition an_observation :: json where
  "an_observation = JObj [(''schema_version'', JInt 1), (''availability'', JStr ''available''), (''health'', JStr ''healthy''),
     (''callability'', JStr ''callable''), (''receipt_descriptor'', JStr ''receipts/1.json''), (''receipt_digest'', task_sha),
     (''key'', b_key), (''observed_at'', JStr ''2026-01-01T00:00:00Z''), (''expires_at'', JStr ''2026-01-01T00:02:00Z'')]"

definition a_state :: json where
  "a_state = JObj [(''schema_version'', JInt 1), (''entries'', JObj [(the_str task_sha, JObj [(''key'', b_key), (''lease'', JNull),
     (''observation'', an_observation)])]), (''history'', JList []), (''state_sha256'', task_sha)]"

definition a_packet :: json where
  "a_packet = JObj [(''profile'', JStr ''semantic_worker_implementation''), (''task_id'', JStr ''T-1''), (''role'', JStr ''worker''),
     (''resolution_phase'', JStr ''pre_dispatch''), (''resolution_time'', JStr ''2026-01-01T00:01:00Z''), (''token_limit'', JNull),
     (''read_scope'', JList []), (''write_scope'', JList [JStr ''src/a'']), (''authority_scope'', JList []), (''consequence_floor'', JStr ''low''),
     (''independence_required'', JBool False), (''independence_exclusions'', JList []),
     (''provider_input'', JObj [(''required_source_access'', JList [JStr ''diff'']), (''commands_required'', JBool False)]),
     (''registry'', JObj [(''task_profiles'', JObj [(''semantic_worker_implementation'', JObj ((''primary_route'', JStr ''route-a'') #
        map (\<lambda>k. (k, JStr ''none'')) secondary_fields))])]),
     (''preflights'', JObj [(''route-a'', JObj [])]), (''attempt_results'', JObj [])]"

definition a_receipt :: json where
  "a_receipt = JObj [(''status'', JStr ''dispatch_required''), (''stop_reason'', JStr ''dispatch_required''),
     (''next_attempt'', JObj [(''route_name'', JStr ''route-a''),
        (''capability_authority'', JObj [(''authorized'', JBool True), (''route_name'', JStr ''route-a'')]),
        (''identity'', JObj [(''route_name'', JStr ''route-a''), (''provider'', JStr ''p''), (''model'', JStr ''m''), (''route'', JStr ''r-1''),
           (''runtime'', JStr ''run''), (''reasoning'', JStr ''high''), (''billing'', JStr ''plan''), (''adapter_id'', JStr ''adapter''),
           (''adapter_sha256'', task_sha)])])]"

definition the_route :: json where
  "the_route = JObj [(''name'', JStr ''route-a''), (''provider'', JStr ''p''), (''exact_model'', JStr ''m''), (''route_id'', JStr ''r-1''),
     (''runtime'', JStr ''run''), (''runtime_host'', JStr ''host''), (''reasoning'', JStr ''high''), (''billing_basis'', JStr ''plan''),
     (''independence_group'', JStr ''g''), (''adapter_id'', JStr ''adapter''), (''adapter_sha256'', task_sha),
     (''concurrency_limit'', JInt 1), (''allowance_units'', JInt 1), (''token_reservation'', JStr ''unknown''),
     (''cash_reservation_required'', JBool False), (''evidence_path'', JStr ''evidence/1.json''), (''preflight_key_sha256'', task_sha),
     (''preflight_observation'', an_observation), (''resolver_packet_sha256'', task_sha),
     (''resolver_packet'', a_packet),
     (''preflight_binding'', JObj [(''state_path'', JStr ''broker.json''), (''state_sha256'', task_sha), (''entry_sha256'', task_sha)])]"

definition a_world :: world where
  "a_world = \<lparr>iso = parse_time, float_sum = (\<lambda>v w. v), binding_files = (\<lambda>s b. Inr (JObj [])), selection_check = (\<lambda>v. Inr v),
     state_path = Inr, state_file = (\<lambda>p. Some a_state), resolve_route = (\<lambda>p. Inr (Inr a_receipt)), spaced_text = (\<lambda>v. [])\<rparr>"

definition a_call :: arguments where
  "a_call = \<lparr>arg_envelope = an_envelope, arg_bindings = the_bindings, arg_candidates = JList [the_route], arg_sources = JObj [],
     arg_policy = a_policy, arg_now = ''2026-01-01T00:01:00Z'', arg_board = 1, arg_config = 2, arg_advisory = JNull\<rparr>"

definition checked_route :: json where
  "checked_route = setdefault ''explicit_selection_sha256'' JNull (setdefault ''explicit_selection'' JNull the_route)"

definition a_lease_value :: json where
  "a_lease_value = JObj [(''lease_id'', JStr ''L-1''), (''fencing_token'', JInt 1), (''workgraph_claim_token'', JStr ''claim''),
     (''workgraph_fencing_token'', JInt 1), (''granted_at'', JStr ''2026-01-01T00:01:00Z''), (''expires_at'', JStr ''2026-01-01T00:11:00Z''),
     (''writer'', JBool True), (''artifact_only'', JBool False), (''write_scopes'', JList [JStr ''src/a'']), (''artifact_scopes'', JList [])]"

definition an_event :: json where
  "an_event = JObj [(''schema_version'', JInt 1), (''event_id'', JStr demo_hash), (''event_type'', JStr ''lease_granted''),
     (''timestamp'', JStr ''2026-01-01T00:01:00Z''), (''goal_id'', JStr ''G-1''), (''checkpoint_id'', JStr ''C-1''),
     (''task_id'', JStr ''T-1''), (''assignment_id'', JStr ''A-1''), (''envelope_sha256'', task_sha), (''config_sha256'', task_sha),
     (''board_sha256'', task_sha), (''route'', JObj [(''route_name'', JStr ''route-a''), (''provider'', JStr ''p''), (''exact_model'', JStr ''m''), (''route_id'', JStr ''r-1''),
        (''runtime'', JStr ''run''), (''runtime_host'', JStr ''host''), (''reasoning'', JStr ''high''), (''independence_group'', JStr ''g''),
        (''preflight_key_sha256'', task_sha), (''preflight_receipt_digest'', task_sha)]),
     (''lease'', a_lease_value),
     (''accounting'', JObj [(''allowance_class'', JStr ''plan''), (''allowance_units_reserved'', JInt 1), (''token_reservation'', JStr ''unknown''),
        (''observed_tokens'', JStr ''unknown''), (''observed_cost'', JStr ''unknown'')]),
     (''evidence'', JObj [(''output_path'', JStr ''evidence/1.json''), (''idempotency_key'', JStr ''E-1''), (''authority_sha256'', task_sha),
        (''workgraph_sha256'', task_sha), (''supervisor_sha256'', task_sha), (''plan_sha256'', task_sha)])]"

lemma demo_constant: "demo_digest s = demo_hash" "digest_of demo_digest v = sha_prefix @ demo_hash"
  by (simp_all add: demo_digest_def demo_hash_def digest_of_def)

lemma envelope_ok: "validate_envelope a_world an_envelope the_bindings (JStr ''2026-01-01T00:01:00Z'') = Inr an_envelope"
  by code_simp

lemma policy_ok: "validate_policy a_policy = Inr a_policy"
  by code_simp

lemma route_ok: "validate_route demo_digest a_world the_route = Inr checked_route"
  by code_simp

lemma broker_ok: "broker_binding demo_digest a_world checked_route (JStr ''2026-01-01T00:01:00Z'') = Inr ''eligible''"
  by code_simp

lemma callable_ok: "observation_callable a_world checked_route (JStr ''2026-01-01T00:01:00Z'') = ''eligible''"
  by code_simp

lemma resolver_ok: "verify_task_bound_resolver a_world checked_route an_envelope ''2026-01-01T00:01:00Z'' = Inr ''eligible''"
  by code_simp

lemma resources_ok: "resource_rejection a_world checked_route an_envelope a_policy [] 1 2 = Inr None"
  by code_simp

text \<open>rows that neither hold a lease nor count for the selection, and no higher token of the task\<close>

definition quiet :: "json list \<Rightarrow> bool" where
  "quiet rows \<longleftrightarrow> active_rows rows = Inr [] \<and> grants rows = [] \<and>
     foldR count_acceptance \<lparr>by_provider = [], by_route = [], accepted_total = 0\<rparr> rows = Inr \<lparr>by_provider = [], by_route = [], accepted_total = 0\<rparr> \<and>
     fence_for 1 (JStr ''T-1'') rows = Inr (JInt 1) \<and> \<not> list_ex (\<lambda>row. lease_id_of row = JStr ''L-1'') rows"

lemma verdict_ok: "quiet rows \<Longrightarrow>
    route_verdict demo_digest a_world checked_route an_envelope a_policy rows [] (JStr ''2026-01-01T00:01:00Z'') 1 2 = Inr ''eligible''"
  by (simp add: route_verdict_def broker_ok callable_ok resolver_ok resources_ok quiet_def)

lemma survey_ok: "quiet rows \<Longrightarrow> eligible_routes demo_digest a_world an_envelope [the_route] a_policy rows (JStr ''2026-01-01T00:01:00Z'') 1 2 =
    Inr \<lparr>seen_names = [''route-a''], eligible = [checked_route], rejected = []\<rparr>"
proof -
  have "sched_time a_world (JStr ''2026-01-01T00:01:00Z'') ''now'' = Inr 63902908860000000" "the_str (fld checked_route ''name'') = ''route-a''"
    by code_simp+
  then show "quiet rows \<Longrightarrow> ?thesis"
    using verdict_ok[of rows] by (simp add: eligible_routes_def survey_route_def route_ok Let_def quiet_def)
qed

lemma select_ok: "quiet rows \<Longrightarrow> select_route an_envelope [checked_route] rows a_policy = Inr checked_route"
  by (simp add: select_route_def Let_def quiet_def)

lemma plan_ok:
  assumes "verify_ledger demo_digest demo_float msg None c = Inr v" "quiet (ledger_rows v)"
  shows "\<exists>scheduled. plan demo_digest demo_float msg a_world c a_call = Inr scheduled \<and>
    fld scheduled ''selected_route'' = checked_route \<and> fld scheduled ''plan_sha256'' = task_sha \<and> fld scheduled ''binding_sources'' = JObj []"
proof -
  have "check_candidates (JList [the_route]) = Inr ()" by code_simp
  moreover have "\<not> the_int (fld a_policy ''maximum_queue_age_seconds'') < the_int (fld (fld an_envelope ''queue'') ''max_queue_age_seconds'')"
    "fld (fld an_envelope ''quality_policy'') ''policy_id'' = fld a_policy ''artifact_quality_policy''" by code_simp+
  moreover have "binding_files a_world v w = Inr (JObj [])" for v w by (simp add: a_world_def)
  ultimately have "plan demo_digest demo_float msg a_world c a_call = Inr (plan_record demo_digest a_call an_envelope (JObj []) v
      \<lparr>seen_names = [''route-a''], eligible = [checked_route], rejected = []\<rparr> checked_route None)"
    using envelope_ok policy_ok survey_ok[OF assms(2)] select_ok[OF assms(2)]
    by (simp add: plan_def a_call_def assms(1) consume_advisory_def)
  then show ?thesis by (simp add: plan_record_def Let_def fld_upd fld_JObj_Cons demo_constant task_sha_def)
qed

lemma event_ok: "sched_event demo_digest an_envelope the_bindings ''lease_granted'' ''2026-01-01T00:01:00Z'' (route_event checked_route) a_lease_value
    (reservation an_envelope checked_route) (fld an_event ''evidence'') = Inr an_event"
proof -
  have "ledger_time ''2026-01-01T00:01:00Z''" "raw_sha (fld the_bindings ''config_sha256'') ''config_sha256'' = Inr demo_hash"
    "raw_sha (fld the_bindings ''board_sha256'') ''board_sha256'' = Inr demo_hash" by code_simp+
  moreover have "fld an_envelope ''goal_id'' = JStr ''G-1''" "fld an_envelope ''checkpoint_id'' = JStr ''C-1''"
    "fld an_envelope ''task_id'' = JStr ''T-1''" "fld an_envelope ''assignment_id'' = JStr ''A-1''"
    by (simp_all add: an_envelope_def fld_JObj_Cons)
  moreover have "route_event checked_route = fld an_event ''route''" "reservation an_envelope checked_route = fld an_event ''accounting''"
    by code_simp+
  ultimately show ?thesis
    by (simp add: sched_event_def Let_def demo_constant) (simp add: an_event_def fld_JObj_Cons task_sha_def)
qed

lemma grant_ok:
  assumes "verify_ledger demo_digest demo_float msg None c = Inr v" "quiet (ledger_rows v)"
  shows "\<exists>scheduled. grant demo_digest demo_float msg a_world c a_call ''L-1'' ''claim'' 1 = Inr (scheduled, a_lease_value, an_event) \<and>
    fld scheduled ''selected_route'' = checked_route"
proof -
  obtain scheduled where plan: "plan demo_digest demo_float msg a_world c a_call = Inr scheduled"
    "fld scheduled ''selected_route'' = checked_route" "fld scheduled ''plan_sha256'' = task_sha" "fld scheduled ''binding_sources'' = JObj []"
    using plan_ok[OF assms] by blast
  have files: "binding_files a_world v w = Inr (JObj [])" for v w by (simp add: a_world_def)
  have call: "arg_envelope a_call = an_envelope" "arg_bindings a_call = the_bindings" "arg_now a_call = ''2026-01-01T00:01:00Z''"
    "arg_policy a_call = a_policy" by (simp_all add: a_call_def)
  have facts: "checked_route \<noteq> JNull" "sched_positive (JInt 1) ''workgraph_fencing_token'' 1 = Inr 1"
    "sched_time a_world (JStr ''2026-01-01T00:01:00Z'') ''now'' = Inr 63902908860000000"
    "time_text_result (add_seconds 63902908860000000 (the_int (fld a_policy ''lease_ttl_seconds''))) = Inr ''2026-01-01T00:11:00Z''"
    "new_lease an_envelope ''L-1'' 1 ''claim'' ''2026-01-01T00:01:00Z'' ''2026-01-01T00:11:00Z'' = Inr a_lease_value"
    "fld an_envelope ''task_id'' = JStr ''T-1''"
    by code_simp+
  have "fld checked_route ''evidence_path'' = JStr ''evidence/1.json''" "fld an_envelope ''envelope_id'' = JStr ''E-1''"
    "fld the_bindings ''authority_sha256'' = task_sha" "fld the_bindings ''workgraph_sha256'' = task_sha"
    "fld the_bindings ''supervisor_sha256'' = task_sha" by code_simp+
  then have evidence: "grant_evidence an_envelope the_bindings checked_route scheduled = fld an_event ''evidence''"
    by (simp add: grant_evidence_def plan(3)) (simp add: an_event_def fld_JObj_Cons)
  show ?thesis
    using plan facts broker_ok event_ok assms(2) by (simp add: grant_def call files assms(1) evidence Let_def quiet_def)
qed

section \<open>The ledger\<close>

definition queue_content :: "string option" where
  "queue_content = write_records None [queued_record]"

definition grant_record :: json where
  "grant_record = new_record demo_digest an_event 1 demo_hash"

lemma one_record:
  assumes "validate_event event = Inr event" "plain_record demo_float (new_record demo_digest event 0 genesis)"
  shows "append_ledger demo_digest demo_float msg None None None event =
      Inr (write_records None [new_record demo_digest event 0 genesis], new_record demo_digest event 0 genesis)"
    "\<exists>v row. verify_ledger demo_digest demo_float msg None (write_records None [new_record demo_digest event 0 genesis]) = Inr v \<and>
      ledger_rows v = [row] \<and> read_back event row"
proof -
  show append: "append_ledger demo_digest demo_float msg None None None event =
      Inr (write_records None [new_record demo_digest event 0 genesis], new_record demo_digest event 0 genesis)"
    by (simp add: append_ledger_def assms(1) empty_ledger no_events_def Let_def)
  show "\<exists>v row. verify_ledger demo_digest demo_float msg None (write_records None [new_record demo_digest event 0 genesis]) = Inr v \<and>
      ledger_rows v = [row] \<and> read_back event row"
    using appended_row[OF append assms(2) empty_ledger] by (auto simp: no_events_def)
qed

lemma genesis_hex: "hex64 genesis" "hex64 demo_hash"
  by code_simp+

lemma verified_ids: "verify_ledger sha flt msg None c = Inr v \<Longrightarrow> set (event_ids v) = row_event_id ` set (ledger_rows v)"
proof -
  assume "verify_ledger sha flt msg None c = Inr v"
  then obtain vs where "v = verified_of vs" by (auto simp: verify_ledger_iff)
  then show ?thesis using verified_of_rows[of vs, THEN arg_cong[of _ _ set]] by (simp add: verified_of_fields)
qed

lemma queue_row: "\<exists>v row. verify_ledger demo_digest demo_float msg None queue_content = Inr v \<and> ledger_rows v = [row] \<and>
    read_back queued row \<and> event_count v = 1 \<and> ledger_head v = demo_hash"
proof -
  have plain: "plain_object demo_float queued_record" "utf8_value queued_record" "one_line text_end (dumps queued_record)"
    using queued_plain_record[unfolded queued_record_def] by (simp_all add: plain_record_def queued_record_def)
  have "append_ledger demo_digest demo_float msg None None None queued = Inr (queue_content, queued_record)"
    using one_record(1)[OF queued_valid(1) queued_plain_record[unfolded queued_record_def]] by (simp add: queue_content_def queued_record_def)
  moreover have "the_str (fld queued_record ''event_hash'') = demo_hash"
    by (simp add: queued_record_def new_record_def Let_def fld_upd demo_constant)
  ultimately show ?thesis
    using record_reads_back[OF _ plain, of demo_digest msg None] by (fastforce simp: read_back_def empty_ledger no_events_def)
qed

lemma queued_fields: "fld queued ''event_type'' = JStr ''task_enqueued''" "fld queued ''lease'' = JObj []"
    "fld queued ''task_id'' = JStr ''T-1''" "fld queued ''event_id'' = JStr ''E-1''"
  by code_simp+

lemma queue_quiet: "read_back queued row \<Longrightarrow> quiet [row]"
proof -
  assume "read_back queued row"
  then have "event_type row = ''task_enqueued''" "fld row ''lease'' = JObj []" "fld row ''task_id'' = JStr ''T-1''"
    by (simp_all add: read_back_def event_fields_def event_type_def queued_fields)
  then show "quiet [row]"
    by (simp add: quiet_def active_rows_def lease_step_def Let_def ended_leases_def grants_def count_acceptance_def lease_id_of_def
        fld_JObj_Nil fence_for_def get_or_def get_def max_step_def num_value_def num_le_def)
qed

lemma grant_plain: "plain_record demo_float grant_record"
proof -
  have "is_obj an_event" "python_value demo_float an_event" "seven_bit_value an_event" by code_simp+
  then show ?thesis using ascii_record[OF _ _ demo_hex genesis_hex(2)] by (simp add: plain_object_def grant_record_def)
qed

lemma grant_appended: "append_ledger demo_digest demo_float msg None None queue_content an_event = Inr (write_records queue_content [grant_record], grant_record)"
proof -
  obtain v row where v: "verify_ledger demo_digest demo_float msg None queue_content = Inr v" "ledger_rows v = [row]"
    "read_back queued row" "event_count v = 1" "ledger_head v = demo_hash" using queue_row by blast
  have "row_event_id an_event \<noteq> ''E-1''" by code_simp
  moreover have E: "row_event_id row = ''E-1''" using v(3) by (simp add: row_event_id_def read_back_def event_fields_def queued_fields)
  ultimately have "row_event_id an_event \<notin> set (event_ids v)"
    using E by (simp add: verified_ids[OF v(1)] v(2))
  moreover have "validate_event an_event = Inr an_event" by code_simp
  ultimately show ?thesis by (simp add: append_ledger_def v Let_def grant_record_def)
qed

lemma granted_on_queue: "\<exists>scheduled. grant demo_digest demo_float msg a_world queue_content a_call ''L-1'' ''claim'' 1 = Inr (scheduled, a_lease_value, an_event) \<and>
    fld scheduled ''selected_route'' = checked_route"
proof -
  obtain v row where v: "verify_ledger demo_digest demo_float msg None queue_content = Inr v" "ledger_rows v = [row]"
    "read_back queued row" using queue_row by blast
  have "quiet (ledger_rows v)" using queue_quiet[OF v(3)] by (simp add: v(2))
  from grant_ok[OF v(1) this] show ?thesis .
qed

lemma admitted: "\<exists>answer. admit demo_digest demo_float msg a_world queue_content a_call ''L-1'' ''claim'' 1 =
    Inr (write_records queue_content [grant_record], answer)"
  using granted_on_queue[of msg] by (auto simp: admit_def grant_appended)

section \<open>Instances\<close>


lemma admitted_fresh_witness:
  "\<exists>v row. verify_ledger demo_digest demo_float (\<lambda>_. []) None queue_content = Inr v \<and> ledger_rows v = [row] \<and>
     lease_id_of row \<noteq> JStr ''L-1'' \<and> num_le (get_or (fld row ''lease'') ''fencing_token'' (JInt 0)) (JInt 1)"
proof -
  obtain v row where v: "verify_ledger demo_digest demo_float (\<lambda>_. []) None queue_content = Inr v" "ledger_rows v = [row]"
    "read_back queued row" using queue_row by blast
  have "fld row ''task_id'' = JStr ''T-1''" "fld (arg_envelope a_call) ''task_id'' = JStr ''T-1''"
    using v(3) by (simp_all add: read_back_def event_fields_def queued_fields a_call_def an_envelope_def fld_JObj_Cons)
  moreover obtain answer where "admit demo_digest demo_float (\<lambda>_. []) a_world queue_content a_call ''L-1'' ''claim'' 1 =
    Inr (write_records queue_content [grant_record], answer)" using admitted by blast
  ultimately show ?thesis using admitted_fresh[of demo_digest demo_float "\<lambda>_. []" a_world queue_content a_call "''L-1''" "''claim''" 1] v(1,2) by auto
qed

lemma admitted_for_task_witness:
  "bound_packet a_packet an_envelope ''2026-01-01T00:01:00Z'' \<and> dispatches a_receipt checked_route an_envelope"
proof -
  have packet: "fld checked_route ''resolver_packet'' = a_packet"
    by (simp add: checked_route_def setdefault_def the_route_def has_key_def get_def fld_JObj_Cons fld_upd)
  obtain scheduled where "grant demo_digest demo_float (\<lambda>_. []) a_world queue_content a_call ''L-1'' ''claim'' 1 = Inr (scheduled, a_lease_value, an_event)"
    "fld scheduled ''selected_route'' = checked_route"
    using granted_on_queue by blast
  then obtain answer where "admit demo_digest demo_float (\<lambda>_. []) a_world queue_content a_call ''L-1'' ''claim'' 1 =
      Inr (write_records queue_content [grant_record], answer)" "fld answer ''selected_route'' = checked_route"
    by (auto simp: admit_def grant_appended fld_upd)
  from admitted_for_task[OF this(1)] this(2) show ?thesis
    by (simp add: Let_def packet a_call_def a_world_def)
qed

end
