(* ===== verification/Release_Sample.thy ===== *)
theory Release_Sample
  imports Admission_Sample
begin

text \<open>
  More instances of the scheduler's properties: a lease that is released once, and a route selected
  because the first one's provider has already delivered.
\<close>

section \<open>A release\<close>

text \<open>A lease granted by hand, and the event of its release: a row is read back with sorted keys.\<close>

definition held :: json where
  "held = sample_event ''E-2'' ''2026-01-01T00:00:00Z'' ''lease_granted'' [(''lease_id'', JStr ''L-1''), (''fencing_token'', JInt 1)]"

definition held_content :: "string option" where
  "held_content = write_records None [new_record demo_digest held 0 genesis]"

definition released :: json where
  "released = sample_event demo_hash ''2026-01-01T00:02:00Z'' ''lease_released''
     [(''fencing_token'', JInt 1), (''lease_id'', JStr ''L-1''), (''released_at'', JStr ''2026-01-01T00:02:00Z'')]"

lemma held_plain: "plain_record demo_float (new_record demo_digest held 0 genesis)"
proof -
  have "is_obj held" "python_value demo_float held" "seven_bit_value held" by code_simp+
  then show ?thesis using ascii_record[OF _ _ demo_hex genesis_hex(1)] by (simp add: plain_object_def)
qed

lemma held_valid: "validate_event held = Inr held" "validate_event released = Inr released"
  by code_simp+

lemma released_plain: "plain_record demo_float (new_record demo_digest released 1 demo_hash)"
proof -
  have "is_obj released" "python_value demo_float released" "seven_bit_value released" by code_simp+
  then show ?thesis using ascii_record[OF _ _ demo_hex genesis_hex(2)] by (simp add: plain_object_def)
qed

definition held_row :: json where
  "held_row = JObj (map (\<lambda>f. (f, canon (fld held f))) event_fields)"

lemma released_event:
  assumes "read_back held row"
  shows "release_event demo_digest [row] ''L-1'' 1 ''2026-01-01T00:02:00Z'' = Inr released"
proof -
  have "fld row f = canon (fld held f)" if "f \<in> set event_fields" for f using assms that by (simp add: read_back_def)
  then have part: "event_part row = held_row" unfolding event_part_def held_row_def by simp
  have held: "fld held ''event_type'' = JStr ''lease_granted''"
    "canon (fld held ''lease'') = JObj [(''fencing_token'', JInt 1), (''lease_id'', JStr ''L-1'')]" by code_simp+
  then have row: "event_type row = ''lease_granted''" "fld row ''lease'' = JObj [(''fencing_token'', JInt 1), (''lease_id'', JStr ''L-1'')]"
    using assms by (simp_all add: read_back_def event_fields_def event_type_def)
  then have "held_event [row] ''L-1'' 1 ''stale_release'' = Inr held_row"
    by (simp add: held_event_def find_active_def lease_step_def Let_def lease_id_of_def fld_JObj_Cons truthy_def part)
  moreover have "set_lease ''released_at'' (JStr ''2026-01-01T00:02:00Z'') (upd ''timestamp'' (JStr ''2026-01-01T00:02:00Z'')
      (upd ''event_type'' (JStr ''lease_released'') (upd ''event_id'' (JStr demo_hash) held_row))) = released"
    by code_simp
  ultimately show ?thesis by (simp add: release_event_def next_event_def demo_constant)
qed

lemma released_once: "\<exists>answer. release_lease demo_digest demo_float msg held_content ''L-1'' 1 ''2026-01-01T00:02:00Z'' =
      Inr (write_records held_content [new_record demo_digest released 1 demo_hash], answer)"
    "call_event demo_digest demo_float msg w held_content (Release ''L-1'' 1 ''2026-01-01T00:02:00Z'') = Inr released"
    "append_ledger demo_digest demo_float msg None None held_content released =
      Inr (write_records held_content [new_record demo_digest released 1 demo_hash], new_record demo_digest released 1 demo_hash)"
proof -
  have first: "append_ledger demo_digest demo_float msg None None None held = Inr (held_content, new_record demo_digest held 0 genesis)"
    using one_record(1)[OF held_valid(1) held_plain] by (simp add: held_content_def)
  have "the_str (fld (new_record demo_digest held 0 genesis) ''event_hash'') = demo_hash"
    by (simp add: new_record_def Let_def fld_upd demo_constant)
  then obtain v row where v: "verify_ledger demo_digest demo_float msg None held_content = Inr v" "ledger_rows v = [row]"
    "event_count v = 1" "ledger_head v = demo_hash" "read_back held row"
    using record_reads_back[OF first held_plain[unfolded plain_record_def, THEN conjunct1]
        held_plain[unfolded plain_record_def, THEN conjunct2, THEN conjunct1] held_plain[unfolded plain_record_def, THEN conjunct2, THEN conjunct2]]
    by (auto simp: read_back_def empty_ledger no_events_def)
  have "row_event_id row = row_event_id held" using v(5) by (simp add: row_event_id_def read_back_def event_fields_def canon_simps)
  moreover have "row_event_id released \<noteq> row_event_id held" by code_simp
  ultimately have "row_event_id released \<notin> set (event_ids v)" by (simp add: verified_ids[OF v(1)] v(2))
  then show append: "append_ledger demo_digest demo_float msg None None held_content released =
      Inr (write_records held_content [new_record demo_digest released 1 demo_hash], new_record demo_digest released 1 demo_hash)"
    by (simp add: append_ledger_def v held_valid Let_def)
  show "call_event demo_digest demo_float msg w held_content (Release ''L-1'' 1 ''2026-01-01T00:02:00Z'') = Inr released"
    by (simp add: v released_event)
  show "\<exists>answer. release_lease demo_digest demo_float msg held_content ''L-1'' 1 ''2026-01-01T00:02:00Z'' =
      Inr (write_records held_content [new_record demo_digest released 1 demo_hash], answer)"
    by (simp add: release_lease_def v released_event append)
qed

lemma lease_ends_once_witness:
  "\<exists>c answer e. release_lease demo_digest demo_float (\<lambda>_. []) held_content ''L-1'' 1 ''2026-01-01T00:02:00Z'' = Inr (c, answer) \<and>
     recover_lease demo_digest demo_float (\<lambda>_. []) a_world c ''L-1'' 1 ''2026-01-03T00:00:00Z'' = Inl e"
proof -
  let ?c = "write_records held_content [new_record demo_digest released 1 demo_hash]"
  obtain answer where run: "release_lease demo_digest demo_float (\<lambda>_. []) held_content ''L-1'' 1 ''2026-01-01T00:02:00Z'' = Inr (?c, answer)"
    using released_once(1) by blast
  have "sched_run demo_digest demo_float (\<lambda>_. []) a_world held_content (Release ''L-1'' 1 ''2026-01-01T00:02:00Z'') = Inr (?c, answer)"
    using run by simp
  note ended = lease_ends_once[OF this _ released_once(2,3) released_plain, of "''L-1''" 1 "''2026-01-01T00:02:00Z''", THEN conjunct2]
  have "sched_run demo_digest demo_float (\<lambda>_. []) a_world ?c (Recover ''L-1'' 1 ''2026-01-03T00:00:00Z'') \<noteq> Inr x" for x
    using ended by (metis call_id.simps(3))
  then obtain e where "recover_lease demo_digest demo_float (\<lambda>_. []) a_world ?c ''L-1'' 1 ''2026-01-03T00:00:00Z'' = Inl e"
    by (cases "recover_lease demo_digest demo_float (\<lambda>_. []) a_world ?c ''L-1'' 1 ''2026-01-03T00:00:00Z''") auto
  with run show ?thesis by blast
qed

section \<open>A selection\<close>

text \<open>two routes, of which the first one's provider has delivered an accepted result\<close>

definition a_result :: json where
  "a_result = JObj [(''event_type'', JStr ''quality_accepted''), (''route'', JObj [(''provider'', JStr ''p''), (''route_name'', JStr ''route-a'')])]"

definition first_route :: json where
  "first_route = JObj [(''name'', JStr ''route-a''), (''provider'', JStr ''p'')]"

definition other_route :: json where
  "other_route = JObj [(''name'', JStr ''route-b''), (''provider'', JStr ''q'')]"

lemma select_route_exact_witness:
  "select_route an_envelope [first_route, other_route] [a_result] a_policy = Inr other_route \<and>
   diverse an_envelope [first_route, other_route] [a_result] a_policy"
proof -
  have "case select_route an_envelope [first_route, other_route] [a_result] a_policy of Inl e \<Rightarrow> False | Inr r \<Rightarrow> True"
    "diverse an_envelope [first_route, other_route] [a_result] a_policy"
    "less_accepted [a_result] other_route first_route" by code_simp+
  then obtain r where "select_route an_envelope [first_route, other_route] [a_result] a_policy = Inr r"
    "diverse an_envelope [first_route, other_route] [a_result] a_policy" "less_accepted [a_result] other_route first_route"
    by (auto split: sum.splits)
  then show ?thesis using select_route_exact[OF policy_ok, of an_envelope "[first_route, other_route]" "[a_result]" r] by simp
qed

end
