(* ===== verification/Spec2Isabelle.thy ===== *)
theory Spec2Isabelle
  imports WorkGraph_Properties Board Registry_Properties Updates_Sample Notes_Sample
  Broker_Properties Advice_Properties Release_Sample
begin

text \<open>
  A verification library for the coordination core of the orchestrator plugin, the Python scripts under
  \<open>src/plugins/codexmax-orchestrator/scripts/\<close> by which several agents share a board of work: what the
  work is, who may do what, what was done, and where a task may be sent.

  \<^bold>\<open>The program.\<close> A board is a JSON document of work items, evidence and relations. \<open>workgraph.py\<close>
  validates a document. \<open>workgraph_dependencies.py\<close> decides from a valid document which items may start,
  puts them in groups that do not conflict, walks containment and artifact flow, and keeps the registry
  of claims: leases on items with fencing tokens. Three append-only logs of hash-chained rows record what
  happens: \<open>workgraph_updates.py\<close> (proposed changes of the board and their review), \<open>workgraph_activity.py\<close>
  (what agents report; \<open>workgraph_notes.py\<close> is its front) and \<open>dispatch_ledger.py\<close> (leases and outcomes of
  dispatched tasks). \<open>schedule_headless_dispatch.py\<close> admits a task to a route: it reads the ledger, asks
  \<open>preflight_broker.py\<close> for observations of the routes and \<open>route_fabric.py\<close> for advice, and appends the
  lease it grants. The scripts share files only, each rewritten or extended under a lock.

  \<^bold>\<open>Conventions.\<close> A value read from JSON is a \<open>json\<close>; a text is the bytes of its UTF-8 encoding, so lone
  surrogates are outside the model; a finite float is a dyadic fraction with the text of its \<open>repr\<close>. A
  function that may raise has type \<open>exn + 'a\<close>, with the script's exception and code or the interpreter's
  own exception where a value of the wrong type reaches an operation. A set that is iterated has a fixed
  order. An operation on a file is a function from its content (\<open>None\<close> when there is no file) to the new
  content and the answer: what happens under the lock. \<open>v['k']\<close> is \<open>fld\<close> where an earlier check of the
  code has established the key.

  \<^bold>\<open>Theories.\<close>
  \<^item> \<open>Prelude\<close>, \<open>Effects\<close>, \<open>PyText\<close>, \<open>PyTime\<close>: JSON values with Python's \<open>==\<close>, dictionaries, exceptions and
    loops (\<open>bind\<close>, \<open>foldR\<close>, \<open>eachR\<close>, \<open>mapR\<close>), string operations, \<open>datetime\<close> at microseconds.
  \<^item> \<open>Json\<close>, \<open>Lines\<close>, \<open>Canonical\<close>, \<open>Ascii\<close>: \<open>json.dumps\<close> and \<open>json.loads\<close>, the two notions of a line, UTF-8.
    Reading what was written gives the value with sorted keys, which the checks do not tell apart from
    the value written.
  \<^item> \<open>WorkGraph\<close>, \<open>WorkGraph_Cycles\<close>, \<open>WorkGraph_Document\<close>: \<open>workgraph.py\<close>. \<open>WorkGraph_Validity\<close> shows that a
    receipt says \<open>valid\<close> for exactly the documents that meet a declarative description,
    \<open>WorkGraph_Properties\<close> what follows for items and authority.
  \<^item> \<open>Paths\<close>, \<open>Dependencies\<close>: the read-only half of \<open>workgraph_dependencies.py\<close>. \<open>Readiness\<close> and \<open>Containment\<close>:
    exactness of readiness, of the groups, of descendants and ancestors (locale \<open>forest\<close>). \<open>Board\<close>: a sample.
  \<^item> \<open>Registry\<close>, \<open>Registry_Verify\<close>, \<open>Transitions\<close>, \<open>Registry_Safety\<close>, \<open>Registry_Properties\<close>: the claim registry;
    every operation keeps what \<open>verify_registry\<close> checks, and runs of operations (locale of \<open>Transitions\<close>)
    keep ended claims ended and tokens increasing.
  \<^item> \<open>Protocol\<close>, \<open>HashLog\<close>: what the logs share. The locale \<open>hash_log\<close> asks of a log that its rows are sealed and
    linked, and gives that the head determines the rows and that a consumer with a cursor misses
    nothing; the locale \<open>log_file\<close> asks that a built row is accepted in canonical form, and gives that what
    is appended is read back. Both are interpreted by the logs' own verifiers.
  \<^item> \<open>Updates\<close>, \<open>Updates_Verify\<close>, \<open>Updates_Log\<close>, \<open>Updates_Properties\<close>, \<open>Updates_Sample\<close>: the update log; a
    verified log runs every update through an abstract machine of stages.
  \<^item> \<open>Activity\<close>, \<open>Activity_Log\<close>, \<open>Activity_Sample\<close>: the activity log; its three passes accept event by event.
  \<^item> \<open>Notes\<close>, \<open>Notes_Properties\<close>, \<open>Notes_Cursors\<close>, \<open>Notes_Sample\<close>: \<open>workgraph_notes.py\<close>; corrections, replies, and
    what is unread after a consumer has marked the notes as read.
  \<^item> \<open>Ledger\<close>, \<open>Ledger_Log\<close>, \<open>Ledger_Append\<close>, \<open>Ledger_Replay\<close>: \<open>dispatch_ledger.py\<close>; appending, idempotent
    batches, replay into the active leases.
  \<^item> \<open>Broker\<close>, \<open>Broker_Properties\<close>: \<open>preflight_broker.py\<close>; its operations are total on valid states, a probe is
    flown once, an observation is read while it is current.
  \<^item> \<open>Fabric\<close>, \<open>Advice\<close>, \<open>Advice_Properties\<close>: \<open>route_fabric.py\<close>; an emitted decision passes the validator.
  \<^item> \<open>Scheduler\<close>, \<open>Task_Binding\<close>, \<open>Admission\<close>: \<open>schedule_headless_dispatch.py\<close>. \<open>Admission_Properties\<close>, \<open>Admission_Safety\<close>,
    \<open>Admission_Claims\<close>: the capacities hold on every path of the scheduler, a lease is granted once, for
    a packet bound to the task, and ended once by its holder, and which route is selected. \<open>Admission_Sample\<close>, \<open>Release_Sample\<close>: instances.
  \<^item> \<open>Demo\<close>: the constant digest and the reading of fractions of the samples.

  \<^bold>\<open>Parameters.\<close> \<open>sha\<close> is SHA-256 in hexadecimal; where it matters its answers are assumed to be 64
  hexadecimal digits, and where a property rests on distinct digests it says so (\<open>no_collision\<close>). \<open>flt\<close> reads
  a number with a fraction, \<open>fplus\<close> and \<open>float_sum\<close> are rounded sums, \<open>msg\<close> is the wording of the decoder's
  message, \<open>same\<close> the identity of two equal texts. The record \<open>world\<close> holds what the scheduler takes from
  outside: the resolver's answer to a packet, the task-bound sources, the broker's state, and the reading of a
  timestamp, whose forms depend on the version of the interpreter.

  \<^bold>\<open>Loops and fuel.\<close> Loops whose end the code does not make evident are \<open>partial_function (option)\<close>
  (containment, the trace of corrections) and are shown to return on checked input; the replacement and
  correction walks and the frontier of replies are total by a measure. The cycle search has one more unit of
  fuel than there are nodes, the JSON parser more than twice the length of the text; both are shown to
  be enough (\<open>cycle_members_correct\<close>, \<open>loads_fuel\<close>).

  \<^bold>\<open>Not modelled.\<close>
  \<^item> The interpreter's limits: nesting depth, digits of an integer, \<open>NaN\<close> and \<open>Infinity\<close> in JSON, digits
    outside ASCII in patterns.
  \<^item> File input and output: descriptors, links and other aliases of a name, locks, \<open>fsync\<close>, temporary files,
    and argument parsing. The registry and the broker's state are values, not texts; an unreadable broker state is
    one error. The text of a file is modelled for the logs and the notes' cursors.
  \<^item> Of the scheduler: the explicit selection, which reads the tools' session files, the binding source files, and
    \<open>schedule_manifest\<close>, which writes artifacts. Where lists of lists of mixed types are sorted the pairs
    compared are those of an insertion sort.
  \<^item> The command line, the migration of older boards and the adapter to another board tool: drivers around
    the modelled functions.
  \<^item> Configuration and the route resolver, the compilers of dispatch documents, the dispatcher and the provider
    tasks (processes, pipes, git), supervisor and recovery, loops and traces, runtime planner, gateway and
    services (sockets and threads), the supported host (operating-system authority, signatures), GitHub
    effects, telemetry, packaging and audits: outside the coordination core, mostly processes, file
    trees and external services.
\<close>

end
